theory Spec2Isabelle
  imports Complex_Main "HOL-Library.Word"
begin

unbundle bit_operations_syntax

section \<open>The command channel\<close>

text \<open>
  Every diagnostic function of \<^verbatim>\<open>lib/diag.c\<close> talks to the switch through
  \<^verbatim>\<open>switchtec_cmd(dev, cmd, in, in_size, out, out_size)\<close>. The transport is not part
  of the file; it is modelled as a device that records every request it is handed and
  answers it with a return code and an output region, both of which may depend on the
  whole history of requests.

  The generation tag and the MRPC command and sub-command identifiers are enumerations
  of the library's headers. They are kept symbolic: no claim depends on their numbers.
\<close>

datatype switchtec_gen =
  SWITCHTEC_GEN3 | SWITCHTEC_GEN4 | SWITCHTEC_GEN5 | SWITCHTEC_GEN_UNKNOWN

datatype mrpc_cmd =
  MRPC_INT_LOOPBACK
| MRPC_EYE_OBSERVE
| MRPC_DIAG_PORT_LTSSM_LOG
| MRPC_PORT_EQ_STATUS
| MRPC_EXT_RCVR_OBJ_DUMP

datatype mrpc_sub_cmd =
  MRPC_LOOPBACK_SET_INT_LOOPBACK
| MRPC_LOOPBACK_SET_LTSSM_LOOPBACK
| MRPC_EYE_OBSERVE_FETCH
| MRPC_PORT_EQ_LOCAL_TX_COEFF_DUMP
| MRPC_PORT_EQ_FAR_END_TX_COEFF_DUMP
| MRPC_PORT_EQ_FAR_END_TX_EQ_TABLE_DUMP
| MRPC_PORT_EQ_LOCAL_TX_FSLF_DUMP
| MRPC_PORT_EQ_FAR_END_TX_FSLF_DUMP
| MRPC_EXT_RCVR_OBJ_DUMP_LOCAL_TX_COEFF_PREV
| MRPC_EXT_RCVR_OBJ_DUMP_FAR_END_TX_COEFF_PREV
| MRPC_EXT_RCVR_OBJ_DUMP_EQ_TX_TABLE_PREV
| MRPC_EXT_RCVR_OBJ_DUMP_LOCAL_TX_FSLF_PREV
| MRPC_EXT_RCVR_OBJ_DUMP_FAR_END_TX_FSLF_PREV
| MRPC_GEN5_PORT_EQ_LOCAL_TX_COEFF_DUMP
| MRPC_GEN5_PORT_EQ_FAR_END_TX_COEFF_DUMP
| MRPC_GEN5_PORT_EQ_FAR_END_TX_EQ_TABLE_DUMP
| MRPC_GEN5_PORT_EQ_LOCAL_TX_FSLF_DUMP
| MRPC_GEN5_PORT_EQ_FAR_END_TX_FSLF_DUMP

datatype diag_loopback_type = DIAG_LOOPBACK_RX_TO_TX | DIAG_LOOPBACK_TX_TO_RX

datatype lane_eq_dump_type = LANE_EQ_DUMP_TYPE_CURR | LANE_EQ_DUMP_TYPE_PREV

datatype pcie_link_rate = PCIE_LINK_RATE_GEN5

datatype diag_port_eq_status_op = DIAG_PORT_EQ_STATUS_OP_PER_PORT

text \<open>
  The request structures, one constructor per C struct, the arguments in the order
  given beside each. Fields of the structs that are declared in the headers keep the
  \<^verbatim>\<open>int\<close> value assigned to them; the structs that \<^verbatim>\<open>diag.c\<close> declares itself
  (the LTSSM ones) have their \<^verbatim>\<open>uint8_t\<close> and \<^verbatim>\<open>uint16_t\<close> fields as words, so that
  the truncation of an assignment is part of the model. A field the function leaves
  unassigned in freshly allocated memory is \<open>None\<close>.
\<close>

datatype mrpc_request =
  Loopback_in mrpc_sub_cmd int int diag_loopback_type
    \<comment> \<open>\<^verbatim>\<open>switchtec_diag_loopback_in\<close>: sub_cmd, port_id, enable, type\<close>
| Loopback_ltssm_in mrpc_sub_cmd int int int
    \<comment> \<open>\<^verbatim>\<open>switchtec_diag_loopback_ltssm_in\<close>: sub_cmd, port_id, enable, speed\<close>
| Port_eye_cmd mrpc_sub_cmd
    \<comment> \<open>\<^verbatim>\<open>switchtec_diag_port_eye_cmd\<close>: sub_cmd (the other fields zero)\<close>
| Ltssm_freeze "8 word" "8 word" "8 word"
    \<comment> \<open>\<^verbatim>\<open>ltssm_freeze\<close>: sub_cmd, port, freeze\<close>
| Ltssm_status "8 word" "8 word"
    \<comment> \<open>\<^verbatim>\<open>status\<close>: sub_cmd, port\<close>
| Ltssm_log_dump_gen4 "8 word" "8 word" "8 word" "8 word"
    \<comment> \<open>\<^verbatim>\<open>log_dump\<close> of Gen4: sub_cmd, port, log_index, no_of_logs\<close>
| Ltssm_log_dump_gen5 "8 word" "8 word" "16 word" "16 word"
    \<comment> \<open>\<^verbatim>\<open>log_dump\<close> of Gen5: sub_cmd, port, log_index, no_of_logs\<close>
| Port_eq_status_in mrpc_sub_cmd diag_port_eq_status_op int
    \<comment> \<open>\<^verbatim>\<open>switchtec_diag_port_eq_status_in\<close>: sub_cmd, op_type, port_id\<close>
| Ext_dump_coeff_prev_in mrpc_sub_cmd diag_port_eq_status_op int
    \<comment> \<open>\<^verbatim>\<open>switchtec_diag_ext_dump_coeff_prev_in\<close>: sub_cmd, op_type, port_id\<close>
| Port_eq_status_in2 mrpc_sub_cmd int int
    \<comment> \<open>\<^verbatim>\<open>switchtec_diag_port_eq_status_in2\<close>: sub_cmd, port_id, lane_id\<close>
| Ext_recv_obj_dump_in mrpc_sub_cmd int int
    \<comment> \<open>\<^verbatim>\<open>switchtec_diag_ext_recv_obj_dump_in\<close>: sub_cmd, port_id, lane_id\<close>
| Gen5_port_eq_coeff_in mrpc_sub_cmd diag_port_eq_status_op int int
      lane_eq_dump_type "pcie_link_rate option"
    \<comment> \<open>\<^verbatim>\<open>switchtec_port_eq_coeff_in\<close>: cmd, op_type, phys_port_id, lane_id,
        dump_type, prev_rate\<close>
| Gen5_port_eq_table_in mrpc_sub_cmd int lane_eq_dump_type "pcie_link_rate option"
    \<comment> \<open>\<^verbatim>\<open>switchtec_port_eq_table_in\<close>: sub_cmd, port_id, dump_type, prev_rate
        (\<open>None\<close> stands for the 0 the function stores)\<close>
| Gen5_port_eq_tx_fslf_in mrpc_sub_cmd int int lane_eq_dump_type "pcie_link_rate option"
    \<comment> \<open>\<^verbatim>\<open>switchtec_port_eq_tx_fslf_in\<close>: sub_cmd, port_id, lane_id, dump_type,
        prev_rate\<close>

type_synonym mrpc_call = "mrpc_cmd \<times> mrpc_request"

subsection \<open>Response structures\<close>

text \<open>
  The output region of a command is read through the C struct the caller passes as
  \<^verbatim>\<open>out\<close>. The model gives the region one typed view per struct. C arrays are total
  functions from the index, so a read past the declared bound returns whatever the
  environment put there, as a read of the neighbouring memory does.

  The LTSSM structs are declared in \<^verbatim>\<open>diag.c\<close> and have the widths declared there.
  The other structs are declared in headers that are not among the sources: the records
  have the fields the functions read. For \<^verbatim>\<open>switchtec_diag_port_eye_fetch\<close> the two
  halves of the pixel count are bytes (the function widens the high one to \<^verbatim>\<open>int\<close>
  before it shifts it by 8), the lane mask and the counters are 32-bit words (the
  arguments of \<^verbatim>\<open>ffs\<close>, \<^verbatim>\<open>le32toh\<close> and \<^verbatim>\<open>hi_lo_to_uint64\<close>), and the status is the
  number the function compares with 1 and hands to \<^verbatim>\<open>switchtec_diag_eye_status\<close>.
\<close>

datatype switchtec_diag_eye_data_mode =
  SWITCHTEC_DIAG_EYE_RAW | SWITCHTEC_DIAG_EYE_RATIO | SWITCHTEC_DIAG_EYE_MODE_OTHER
  \<comment> \<open>the last one stands for every wire value that is neither enumerator\<close>

record eye_raw =
  error_cnt_lo :: "32 word"
  error_cnt_hi :: "32 word"
  sample_cnt_lo :: "32 word"
  sample_cnt_hi :: "32 word"

record switchtec_diag_port_eye_fetch =
  data_mode :: switchtec_diag_eye_data_mode
  status :: int
  lane_mask :: "nat \<Rightarrow> 32 word"
  data_count_lo :: "8 word"
  data_count_hi :: "8 word"
  raw :: "nat \<Rightarrow> eye_raw"
  ratio :: "nat \<Rightarrow> 32 word"

record status_output_gen4 =
  w0_trigger_count4 :: "32 word"
  w1_trigger_count4 :: "32 word"
  log_num :: "8 word"

record log_dump_out_gen4 =
  dw0 :: "32 word"
  dw1 :: "32 word"

record status_output_gen5 =
  trig_cnt :: "16 word"
  w0_trigger_count5 :: "16 word"
  w1_trigger_count5 :: "16 word"
  time_stamp5 :: "16 word"
  trig_src_stat :: "8 word"

text \<open>
  \<^verbatim>\<open>struct log_buffer\<close>: the bit-fields carry their declared widths. The Gen5 function
  reads the records from byte 4 of the answer on (\<^verbatim>\<open>LOG_DATA_OFFSET\<close>); the view
  \<open>as_log_buffer\<close> below is the array that starts there.
\<close>

record log_buffer =
  rx_10s :: "3 word"
  minor :: "4 word"
  major :: "6 word"
  link_rate_f :: "3 word"
  rlov :: "1 word"
  time_stamp :: "32 word"
  ts_high :: "5 word"
  cond :: "32 word"

record eq_cursor =
  pre :: int
  post :: int

record switchtec_port_eq_coeff =
  lane_cnt :: int
  cursors :: "nat \<Rightarrow> eq_cursor"

record switchtec_rem_port_eq_coeff =
  rem_lane_cnt :: int
  rem_cursors :: "nat \<Rightarrow> eq_cursor"

record switchtec_diag_port_eq_status_out =
  st_lane_id :: int
  st_cursors :: "nat \<Rightarrow> eq_cursor"

record eq_table_step =
  pre_cursor :: int
  post_cursor :: int
  fom :: int
  pre_cursor_up :: int
  post_cursor_up :: int
  error_status :: int
  active_status :: int
  speed :: int

record switchtec_port_eq_table =
  lane_id :: int
  step_cnt :: int
  steps :: "nat \<Rightarrow> eq_table_step"

record gen5_eq_table_step =
  g5_pre_cursor :: int
  g5_post_cursor :: int
  g5_error_status :: int
  g5_active_status :: int
  g5_speed :: int

record switchtec_gen5_port_eq_table =
  g5_lane_id :: int
  g5_step_cnt :: int
  g5_steps :: "nat \<Rightarrow> gen5_eq_table_step"

record switchtec_port_eq_tx_fslf =
  fs :: int
  lf :: int

text \<open>
  The views of one output region. \<^verbatim>\<open>switchtec_diag_port_eq_table_out\<close> has the
  fields of \<^verbatim>\<open>switchtec_port_eq_table\<close> that the function copies, and the two FS/LF
  output structs the fields \<^verbatim>\<open>fs\<close> and \<^verbatim>\<open>lf\<close>, so they share a record with the
  result type.
\<close>

record mrpc_output =
  as_eye_fetch :: switchtec_diag_port_eye_fetch
  as_status_gen4 :: status_output_gen4
  as_log_dump_gen4 :: "nat \<Rightarrow> log_dump_out_gen4"
  as_status_gen5 :: status_output_gen5
  as_log_buffer :: "nat \<Rightarrow> log_buffer"
  as_eq_status_out :: switchtec_diag_port_eq_status_out
  as_eq_coeff :: switchtec_port_eq_coeff
  as_rem_eq_coeff :: switchtec_rem_port_eq_coeff
  as_eq_table_out :: switchtec_port_eq_table
  as_gen5_eq_table :: switchtec_gen5_port_eq_table
  as_fslf_out :: switchtec_port_eq_tx_fslf

subsection \<open>The device\<close>

text \<open>
  \<open>mrpc_log\<close> is the list of requests delivered so far, oldest first. \<open>mrpc_ret\<close> and
  \<open>mrpc_out\<close> give the return code and the output region of the command that completes
  a history (the request being answered is the last element). The record also carries
  the caller's \<^verbatim>\<open>errno\<close>, which some of the functions assign; the values are those
  of Linux's \<^verbatim>\<open>errno.h\<close>.
\<close>

record switchtec_dev =
  gen :: switchtec_gen
  mrpc_log :: "mrpc_call list"
  mrpc_ret :: "mrpc_call list \<Rightarrow> int"
  mrpc_out :: "mrpc_call list \<Rightarrow> mrpc_output"
  errno :: int

definition switchtec_cmd ::
  "switchtec_dev \<Rightarrow> mrpc_cmd \<Rightarrow> mrpc_request \<Rightarrow> (int \<times> mrpc_output) \<times> switchtec_dev" where
  "switchtec_cmd dev cmd req =
     (let h = mrpc_log dev @ [(cmd, req)]
      in ((mrpc_ret dev h, mrpc_out dev h), dev\<lparr>mrpc_log := h\<rparr>))"

text \<open>
  Modelled from the spec: \<^verbatim>\<open>switchtec_is_gen4\<close> and \<^verbatim>\<open>switchtec_is_gen5\<close> are
  declared in \<^verbatim>\<open>switchtec/switchtec.h\<close>, which is not among the sources. The spec's
  Generation Selector classifies the handle by its generation tag, the two predicates
  being mutually exclusive.
\<close>

definition switchtec_is_gen4 :: "switchtec_dev \<Rightarrow> bool" where
  "switchtec_is_gen4 dev = (gen dev = SWITCHTEC_GEN4)"

definition switchtec_is_gen5 :: "switchtec_dev \<Rightarrow> bool" where
  "switchtec_is_gen5 dev = (gen dev = SWITCHTEC_GEN5)"

definition EINVAL :: int where "EINVAL = 22"
definition EBUSY :: int where "EBUSY = 16"
definition EPROTO :: int where "EPROTO = 71"
definition ENOMEM :: int where "ENOMEM = 12"

text \<open>C's \<^verbatim>\<open>!!x\<close>.\<close>

definition c_bool :: "int \<Rightarrow> int" where
  "c_bool x = (if x \<noteq> 0 then 1 else 0)"

section \<open>Loopback\<close>

text \<open>
  The flags of \<^verbatim>\<open>enum switchtec_diag_loopback_enable\<close> are declared in a header that
  is not among the sources; the function takes their values as a parameter.
\<close>

record switchtec_diag_loopback_enable =
  SWITCHTEC_DIAG_LOOPBACK_RX_TO_TX :: int
  SWITCHTEC_DIAG_LOOPBACK_TX_TO_RX :: int
  SWITCHTEC_DIAG_LOOPBACK_LTSSM :: int

definition switchtec_diag_loopback_set ::
  "switchtec_diag_loopback_enable \<Rightarrow> switchtec_dev \<Rightarrow> int \<Rightarrow> int \<Rightarrow> int
     \<Rightarrow> int \<times> switchtec_dev" where
  "switchtec_diag_loopback_set fl dev port_id enable ltssm_speed =
     (let ltssm_in = Loopback_ltssm_in MRPC_LOOPBACK_SET_LTSSM_LOOPBACK port_id
            (c_bool (enable AND SWITCHTEC_DIAG_LOOPBACK_LTSSM fl)) ltssm_speed;
          int_in = Loopback_in MRPC_LOOPBACK_SET_INT_LOOPBACK port_id
            (c_bool (enable AND SWITCHTEC_DIAG_LOOPBACK_RX_TO_TX fl)) DIAG_LOOPBACK_RX_TO_TX;
          ((ret, out), dev) = switchtec_cmd dev MRPC_INT_LOOPBACK int_in
      in if ret \<noteq> 0 then (ret, dev)
         else
           let int_in = Loopback_in MRPC_LOOPBACK_SET_INT_LOOPBACK port_id
                 (c_bool (enable AND SWITCHTEC_DIAG_LOOPBACK_TX_TO_RX fl))
                 DIAG_LOOPBACK_TX_TO_RX;
               ((ret, out), dev) = switchtec_cmd dev MRPC_INT_LOOPBACK int_in
           in if ret \<noteq> 0 then (ret, dev)
              else
                let ((ret, out), dev) = switchtec_cmd dev MRPC_INT_LOOPBACK ltssm_in
                in if ret \<noteq> 0 then (ret, dev) else (0, dev))"

section \<open>LTSSM log\<close>

text \<open>
  \<^verbatim>\<open>struct switchtec_diag_ltssm_log\<close>. The link rate is an element of the table
  \<^verbatim>\<open>switchtec_gen_transfers\<close>, a \<^verbatim>\<open>float\<close> array of a header that is not among the
  sources: the functions take the table as a parameter and are polymorphic in the type
  of its elements. The caller's array \<^verbatim>\<open>log_data\<close> is a function from the index.
\<close>

record 'f switchtec_diag_ltssm_log =
  timestamp_high :: "32 word"
  timestamp :: "32 word"
  link_rate :: 'f
  link_state :: int

text \<open>
  \<^verbatim>\<open>switchtec_cmd\<close> copies the first \<open>n\<close> elements of the output region to the
  caller's buffer, starting at element \<open>off\<close> of the buffer.
\<close>

definition copy_resp :: "nat \<Rightarrow> nat \<Rightarrow> (nat \<Rightarrow> 'a) \<Rightarrow> (nat \<Rightarrow> 'a) \<Rightarrow> nat \<Rightarrow> 'a" where
  "copy_resp off n resp buf = (\<lambda>i. if off \<le> i \<and> i < off + n then resp (i - off) else buf i)"

subsection \<open>Gen4\<close>

text \<open>The body of the decode loop: one wire record to one log entry.\<close>

definition ltssm_log_entry_gen4 ::
  "(nat \<Rightarrow> 'f) \<Rightarrow> log_dump_out_gen4 \<Rightarrow> 'f switchtec_diag_ltssm_log" where
  "ltssm_log_entry_gen4 switchtec_gen_transfers e =
     (let d1 = dw1 e;
          d0 = dw0 e;
          rate = uint (drop_bit 13 d0 AND 0x3);
          major = uint (drop_bit 7 d0 AND 0xf);
          minor = uint (drop_bit 3 d0 AND 0xf)
      in \<lparr>timestamp_high = 0,
          timestamp = d1 AND 0x3ffffff,
          link_rate = switchtec_gen_transfers (nat (rate + 1)),
          link_state = major OR push_bit 8 minor\<rparr>)"

text \<open>\<^verbatim>\<open>for (i = 0; i < *log_count; i++)\<close>, the number of rounds as a \<open>nat\<close>.\<close>

primrec ltssm_decode_gen4 ::
  "(nat \<Rightarrow> 'f) \<Rightarrow> (nat \<Rightarrow> log_dump_out_gen4) \<Rightarrow> nat
     \<Rightarrow> (nat \<Rightarrow> 'f switchtec_diag_ltssm_log) \<Rightarrow> nat \<Rightarrow> 'f switchtec_diag_ltssm_log" where
  "ltssm_decode_gen4 tr buf 0 log_data = log_data"
| "ltssm_decode_gen4 tr buf (Suc i) log_data =
     (ltssm_decode_gen4 tr buf i log_data)(i := ltssm_log_entry_gen4 tr (buf i))"

text \<open>The tail of the function: the decode loop and the unfreeze request.\<close>

definition ltssm_log_gen4_decode_unfreeze ::
  "(nat \<Rightarrow> 'f) \<Rightarrow> switchtec_dev \<Rightarrow> int \<Rightarrow> int \<Rightarrow> (nat \<Rightarrow> log_dump_out_gen4)
     \<Rightarrow> (nat \<Rightarrow> 'f switchtec_diag_ltssm_log)
     \<Rightarrow> int \<times> int \<times> (nat \<Rightarrow> 'f switchtec_diag_ltssm_log) \<times> switchtec_dev" where
  "ltssm_log_gen4_decode_unfreeze tr dev port log_count log_dump_out log_data =
     (let log_data = ltssm_decode_gen4 tr log_dump_out (nat log_count) log_data;
          ((ret, out), dev) =
            switchtec_cmd dev MRPC_DIAG_PORT_LTSSM_LOG (Ltssm_freeze 14 (word_of_int port) 0)
      in (ret, log_count, log_data, dev))"

text \<open>
  The function returns its return code, the updated \<^verbatim>\<open>*log_count\<close>, the updated
  \<^verbatim>\<open>log_data\<close> and the device. The local array \<^verbatim>\<open>log_dump_out[256]\<close> is uninitialised
  in C and starts zeroed here.
\<close>

definition switchtec_diag_ltssm_log_gen4 ::
  "(nat \<Rightarrow> 'f) \<Rightarrow> switchtec_dev \<Rightarrow> int \<Rightarrow> int \<Rightarrow> (nat \<Rightarrow> 'f switchtec_diag_ltssm_log)
     \<Rightarrow> int \<times> int \<times> (nat \<Rightarrow> 'f switchtec_diag_ltssm_log) \<times> switchtec_dev" where
  "switchtec_diag_ltssm_log_gen4 tr dev port log_count log_data =
     (let ((ret, out), dev) =
            switchtec_cmd dev MRPC_DIAG_PORT_LTSSM_LOG (Ltssm_freeze 14 (word_of_int port) 1)
      in if ret \<noteq> 0 then (ret, log_count, log_data, dev)
         else
           let ((ret, out), dev) =
                 switchtec_cmd dev MRPC_DIAG_PORT_LTSSM_LOG (Ltssm_status 13 (word_of_int port))
           in if ret \<noteq> 0 then (ret, log_count, log_data, dev)
              else
                let status_output = as_status_gen4 out;
                    log_count = (if uint (log_num status_output) < log_count
                                 then uint (log_num status_output) else log_count);
                    log_dump_out = (\<lambda>i. \<lparr>dw0 = 0, dw1 = 0\<rparr>);
                    no_of_logs = (word_of_int log_count :: 8 word)
                in if no_of_logs \<le> 126 then
                     let ((ret, out), dev) =
                           switchtec_cmd dev MRPC_DIAG_PORT_LTSSM_LOG
                             (Ltssm_log_dump_gen4 15 (word_of_int port) 0 no_of_logs)
                     in if ret \<noteq> 0 then (ret, log_count, log_data, dev)
                        else ltssm_log_gen4_decode_unfreeze tr dev port log_count
                               (copy_resp 0 (unat no_of_logs) (as_log_dump_gen4 out) log_dump_out)
                               log_data
                   else
                     let no_of_logs = (126 :: 8 word);
                         ((ret, out), dev) =
                           switchtec_cmd dev MRPC_DIAG_PORT_LTSSM_LOG
                             (Ltssm_log_dump_gen4 15 (word_of_int port) 0 no_of_logs)
                     in if ret \<noteq> 0 then (ret, log_count, log_data, dev)
                        else
                          let log_dump_out =
                                copy_resp 0 (unat no_of_logs) (as_log_dump_gen4 out) log_dump_out;
                              no_of_logs = (word_of_int (log_count - 126) :: 8 word);
                              ((ret, out), dev) =
                                switchtec_cmd dev MRPC_DIAG_PORT_LTSSM_LOG
                                  (Ltssm_log_dump_gen4 15 (word_of_int port) 126 no_of_logs)
                          in if ret \<noteq> 0 then (ret, log_count, log_data, dev)
                             else ltssm_log_gen4_decode_unfreeze tr dev port log_count
                                    (copy_resp 126 (unat no_of_logs) (as_log_dump_gen4 out)
                                       log_dump_out)
                                    log_data)"

subsection \<open>Gen5\<close>

definition MAX_LOG_READ :: int where
  "MAX_LOG_READ = 63"

definition ltssm_log_entry_gen5 ::
  "(nat \<Rightarrow> 'f) \<Rightarrow> log_buffer \<Rightarrow> 'f switchtec_diag_ltssm_log" where
  "ltssm_log_entry_gen5 switchtec_gen_transfers b =
     (let link_state = uint (major b) OR push_bit 8 (uint (minor b));
          link_rate = switchtec_gen_transfers (unat (link_rate_f b) + 1)
      in \<lparr>timestamp_high = ucast (ts_high b),
          timestamp = time_stamp b,
          link_rate = link_rate,
          link_state = link_state\<rparr>)"

text \<open>
  \<^verbatim>\<open>for (i = 0; i < log_dump.no_of_logs; i++)\<close>, writing \<^verbatim>\<open>log_data[cur_idx + i]\<close>
  from \<^verbatim>\<open>buf[i]\<close>.
\<close>

primrec ltssm_decode_gen5 ::
  "(nat \<Rightarrow> 'f) \<Rightarrow> (nat \<Rightarrow> log_buffer) \<Rightarrow> nat \<Rightarrow> nat
     \<Rightarrow> (nat \<Rightarrow> 'f switchtec_diag_ltssm_log) \<Rightarrow> nat \<Rightarrow> 'f switchtec_diag_ltssm_log" where
  "ltssm_decode_gen5 tr buf cur_idx 0 log_data = log_data"
| "ltssm_decode_gen5 tr buf cur_idx (Suc i) log_data =
     (ltssm_decode_gen5 tr buf cur_idx i log_data)
       (cur_idx + i := ltssm_log_entry_gen5 tr (buf i))"

text \<open>
  The \<^verbatim>\<open>while ((avail_log > 0))\<close> loop. \<^verbatim>\<open>cur_idx\<close> starts at 0 and only grows, so
  it is a \<open>nat\<close>; the assignment to the \<^verbatim>\<open>uint16_t\<close> field \<^verbatim>\<open>log_index\<close> truncates
  it. The loop returns \<^verbatim>\<open>log_data\<close> and the device; the return code of a failed chunk
  request is overwritten by the unfreeze request that follows the loop.
\<close>

function ltssm_dump_loop_gen5 ::
  "(nat \<Rightarrow> 'f) \<Rightarrow> switchtec_dev \<Rightarrow> int \<Rightarrow> nat \<Rightarrow> int
     \<Rightarrow> (nat \<Rightarrow> 'f switchtec_diag_ltssm_log)
     \<Rightarrow> (nat \<Rightarrow> 'f switchtec_diag_ltssm_log) \<times> switchtec_dev" where
  "ltssm_dump_loop_gen5 tr dev port cur_idx avail_log log_data =
     (if avail_log > 0 then
        let no_of_logs =
              (word_of_int (if avail_log > MAX_LOG_READ then MAX_LOG_READ else avail_log)
                 :: 16 word);
            r = switchtec_cmd dev MRPC_DIAG_PORT_LTSSM_LOG
                  (Ltssm_log_dump_gen5 21 (word_of_int port) (word_of_nat cur_idx) no_of_logs)
        in if fst (fst r) \<noteq> 0 then (log_data, snd r)
           else
             let log_data = ltssm_decode_gen5 tr (as_log_buffer (snd (fst r))) cur_idx
                              (unat no_of_logs) log_data
             in if avail_log > uint no_of_logs
                then ltssm_dump_loop_gen5 tr (snd r) port (cur_idx + unat no_of_logs)
                       (avail_log - uint no_of_logs) log_data
                else (log_data, snd r)
      else (log_data, dev))"
  by pat_completeness auto
termination
  by (relation "measure (\<lambda>(tr, dev, port, cur_idx, avail_log, log_data). nat avail_log)")
    (auto simp: MAX_LOG_READ_def uint_word_of_int take_bit_int_eq_self split: if_splits)

declare ltssm_dump_loop_gen5.simps [simp del]

definition switchtec_diag_ltssm_log_gen5 ::
  "(nat \<Rightarrow> 'f) \<Rightarrow> switchtec_dev \<Rightarrow> int \<Rightarrow> int \<Rightarrow> (nat \<Rightarrow> 'f switchtec_diag_ltssm_log)
     \<Rightarrow> int \<times> int \<times> (nat \<Rightarrow> 'f switchtec_diag_ltssm_log) \<times> switchtec_dev" where
  "switchtec_diag_ltssm_log_gen5 tr dev port log_count log_data =
     (let ((ret, out), dev) =
            switchtec_cmd dev MRPC_DIAG_PORT_LTSSM_LOG (Ltssm_freeze 14 (word_of_int port) 1)
      in if ret \<noteq> 0 then (ret, log_count, log_data, dev)
         else
           let ((ret, out), dev) =
                 switchtec_cmd dev MRPC_DIAG_PORT_LTSSM_LOG (Ltssm_status 20 (word_of_int port))
           in if ret \<noteq> 0 then (ret, log_count, log_data, dev)
              else
                let status_output = as_status_gen5 out;
                    log_count = (if uint (trig_cnt status_output) < log_count
                                 then uint (trig_cnt status_output) else log_count);
                    (log_data, dev) = ltssm_dump_loop_gen5 tr dev port 0 log_count log_data;
                    ((ret, out), dev) =
                      switchtec_cmd dev MRPC_DIAG_PORT_LTSSM_LOG
                        (Ltssm_freeze 14 (word_of_int port) 0)
                in (ret, log_count, log_data, dev))"

section \<open>Eye capture\<close>

text \<open>
  A pixel is a C \<^verbatim>\<open>double\<close>. The model keeps the two values the function can store
  apart: \<open>NaN\<close> is \<^verbatim>\<open>nan("")\<close>, and \<open>Fdiv a b\<close> is the result of the division
  \<^verbatim>\<open>a / b\<close> in \<^verbatim>\<open>double\<close>, both unsigned integers converted to \<^verbatim>\<open>double\<close> first
  (\<^verbatim>\<open>(double)errors / samples\<close>, \<^verbatim>\<open>le32toh(...) / 65536.\<close> and
  \<^verbatim>\<open>le64toh(...) / 281474976710656.\<close>). The number such a quotient denotes is given
  by \<open>double_value\<close> below.
\<close>

datatype double = NaN | Fdiv nat nat

subsection \<open>The value of a double\<close>

text \<open>
  A \<^verbatim>\<open>double\<close> is an IEEE-754 binary64 number: a significand of 53 bits, every result
  rounded to the nearest representable number, a tie to the one with the even
  significand. The operands here are unsigned integers below \<open>2 ^ 64\<close>, so a quotient
  is 0 or lies between \<open>2 ^ - 64\<close> and \<open>2 ^ 64\<close>, far inside the range of the
  exponent, which the model therefore leaves unbounded.
\<close>

text \<open>The number of bits of \<open>n\<close>: the least \<open>k\<close> with \<open>n < 2 ^ k\<close>.\<close>

fun bit_length :: "nat \<Rightarrow> nat" where
  "bit_length n = (if n = 0 then 0 else Suc (bit_length (n div 2)))"

declare bit_length.simps [simp del]

text \<open>The integer nearest to \<open>n / d\<close>, a tie going to the even one.\<close>

definition round_nearest_even :: "nat \<Rightarrow> nat \<Rightarrow> nat" where
  "round_nearest_even n d =
     (let q = n div d; r = n mod d
      in if d < 2 * r \<or> (2 * r = d \<and> odd q) then q + 1 else q)"

text \<open>
  The conversion of an unsigned integer to \<^verbatim>\<open>double\<close>: the bits below the 53 leading
  ones are rounded away. The result is an integer again.
\<close>

definition uint_to_double :: "nat \<Rightarrow> nat" where
  "uint_to_double n = (let s = bit_length n - 53 in round_nearest_even n (2 ^ s) * 2 ^ s)"

text \<open>
  The division of two doubles with the integer values \<open>a\<close> and \<open>b > 0\<close>. The exponent
  \<open>e\<close> is the one that puts \<open>a / (b * 2 ^ e)\<close> between \<open>2 ^ 52\<close> and \<open>2 ^ 53\<close>; that
  number is rounded to an integer, the significand of the result.
\<close>

definition double_div :: "nat \<Rightarrow> nat \<Rightarrow> real" where
  "double_div a b =
     (let e0 = int (bit_length a) - int (bit_length b) - 53;
          e = (if a * 2 ^ nat (- e0) < 2 ^ 53 * (b * 2 ^ nat e0) then e0 else e0 + 1);
          q = round_nearest_even (a * 2 ^ nat (- e)) (b * 2 ^ nat e)
      in real q * 2 powi e)"

text \<open>
  What a \<^verbatim>\<open>double\<close> of the model denotes: not-a-number, infinity (a dividend other
  than 0 over the divisor 0, which none of the functions computes) or a number.
\<close>

datatype ieee_value = Value_NaN | Value_Inf | Value real

fun double_value :: "double \<Rightarrow> ieee_value" where
  "double_value NaN = Value_NaN"
| "double_value (Fdiv a b) =
     (if b = 0 then (if a = 0 then Value_NaN else Value_Inf)
      else Value (double_div (uint_to_double a) (uint_to_double b)))"

subsection \<open>The fetch\<close>

text \<open>
  A wire field is held as the number its little-endian bytes denote, which is what
  \<^verbatim>\<open>le32toh\<close> and \<^verbatim>\<open>le64toh\<close> return on every host.
\<close>

definition le32toh :: "32 word \<Rightarrow> 32 word" where
  "le32toh x = x"

definition le64toh :: "64 word \<Rightarrow> 64 word" where
  "le64toh x = x"

definition hi_lo_to_uint64 :: "32 word \<Rightarrow> 32 word \<Rightarrow> 64 word" where
  "hi_lo_to_uint64 lo hi =
     (let ret = (ucast (le32toh hi) :: 64 word);
          ret = push_bit 32 ret;
          ret = ret OR ucast (le32toh lo)
      in ret)"

text \<open>
  \<^verbatim>\<open>ffs\<close> of the C library: the position of the least significant set bit, counted
  from 1, and 0 when no bit is set.
\<close>

definition ffs :: "32 word \<Rightarrow> int" where
  "ffs w = (case filter (bit w) [0..<32] of [] \<Rightarrow> 0 | n # ns \<Rightarrow> int n + 1)"

definition switchtec_diag_eye_status :: "switchtec_dev \<Rightarrow> int \<Rightarrow> int \<times> switchtec_dev" where
  "switchtec_diag_eye_status dev st =
     (if st = 0 then (0, dev)
      else if st = 2 then (-1, dev\<lparr>errno := EINVAL\<rparr>)
      else if st = 3 then (-1, dev\<lparr>errno := EBUSY\<rparr>)
      else (-1, dev\<lparr>errno := EPROTO\<rparr>))"

text \<open>
  \<^verbatim>\<open>for (i = 0; i < 4; i++) { *lane_id = ffs(out.lane_mask[i]); if (*lane_id) break; }\<close>
  over the indices still to visit.
\<close>

primrec eye_lane_id :: "(nat \<Rightarrow> 32 word) \<Rightarrow> nat list \<Rightarrow> int \<Rightarrow> int" where
  "eye_lane_id lm [] lane = lane"
| "eye_lane_id lm (i # js) lane =
     (let lane = ffs (lm i) in if lane \<noteq> 0 then lane else eye_lane_id lm js lane)"

text \<open>The body of the pixel loop: the \<^verbatim>\<open>switch\<close> has no default case.\<close>

definition eye_fetch_pixel ::
  "switchtec_diag_port_eye_fetch \<Rightarrow> nat \<Rightarrow> (nat \<Rightarrow> double) \<Rightarrow> nat \<Rightarrow> double" where
  "eye_fetch_pixel out i pixels =
     (case data_mode out of
        SWITCHTEC_DIAG_EYE_RAW \<Rightarrow>
          let errors = hi_lo_to_uint64 (error_cnt_lo (raw out i)) (error_cnt_hi (raw out i));
              samples = hi_lo_to_uint64 (sample_cnt_lo (raw out i)) (sample_cnt_hi (raw out i))
          in if samples \<noteq> 0 then pixels(i := Fdiv (unat errors) (unat samples))
             else pixels(i := NaN)
      | SWITCHTEC_DIAG_EYE_RATIO \<Rightarrow>
          pixels(i := Fdiv (unat (le32toh (ratio out i))) 65536)
      | SWITCHTEC_DIAG_EYE_MODE_OTHER \<Rightarrow> pixels)"

primrec eye_fetch_pixels ::
  "switchtec_diag_port_eye_fetch \<Rightarrow> nat \<Rightarrow> (nat \<Rightarrow> double) \<Rightarrow> nat \<Rightarrow> double" where
  "eye_fetch_pixels out 0 pixels = pixels"
| "eye_fetch_pixels out (Suc i) pixels = eye_fetch_pixel out i (eye_fetch_pixels out i pixels)"

text \<open>
  The fetch retries for as long as the device answers busy, so it need not return: it is
  a partial function, \<open>None\<close> standing for the run that never ends. A run that ends
  returns the return code, the pixel array, \<^verbatim>\<open>*lane_id\<close> and the device. The pixel
  loop runs while \<^verbatim>\<open>i < data_count && i < pixel_cnt\<close>; \<^verbatim>\<open>data_count\<close> is assembled
  from two bytes and is not negative. The 5 ms sleep before a retry has no counterpart
  in the model.
\<close>

partial_function (option) switchtec_diag_eye_fetch ::
  "switchtec_dev \<Rightarrow> (nat \<Rightarrow> double) \<Rightarrow> nat \<Rightarrow> int
     \<Rightarrow> (int \<times> (nat \<Rightarrow> double) \<times> int \<times> switchtec_dev) option" where
  "switchtec_diag_eye_fetch dev pixels pixel_cnt lane =
     (let r = switchtec_cmd dev MRPC_EYE_OBSERVE (Port_eye_cmd MRPC_EYE_OBSERVE_FETCH);
          ret = fst (fst r);
          out = as_eye_fetch (snd (fst r));
          dev = snd r
      in if ret \<noteq> 0 then Some (ret, pixels, lane, dev)
         else if status out = 1 then switchtec_diag_eye_fetch dev pixels pixel_cnt lane
         else
           let s = switchtec_diag_eye_status dev (status out);
               ret = fst s;
               dev = snd s
           in if ret \<noteq> 0 then Some (ret, pixels, lane, dev)
              else
                let lane = eye_lane_id (lane_mask out) [0, 1, 2, 3] lane;
                    data_count = uint (data_count_lo out) OR push_bit 8 (uint (data_count_hi out))
                in Some (data_count,
                         eye_fetch_pixels out (min (nat data_count) pixel_cnt) pixels,
                         lane, dev))"

text \<open>The conversion of one BER value in \<^verbatim>\<open>switchtec_gen5_diag_eye_read\<close>.\<close>

definition gen5_eye_ber :: "64 word \<Rightarrow> double" where
  "gen5_eye_ber w = Fdiv (unat (le64toh w)) 281474976710656"

section \<open>Port equalization\<close>

text \<open>
  The C enumerations can hold values other than their enumerators, and the functions
  have a branch for them: the third constructor. An output parameter \<^verbatim>\<open>res\<close> is an
  option, \<open>None\<close> for the null pointer. Each function returns its return code, the
  result structure and the device.
\<close>

datatype switchtec_diag_end =
  SWITCHTEC_DIAG_LOCAL | SWITCHTEC_DIAG_FAR_END | SWITCHTEC_DIAG_END_OTHER

datatype switchtec_diag_link =
  SWITCHTEC_DIAG_LINK_CURRENT | SWITCHTEC_DIAG_LINK_PREVIOUS | SWITCHTEC_DIAG_LINK_OTHER

text \<open>
  \<open>malloc_ok\<close> tells whether the allocation of the request buffer succeeds. An
  \<^verbatim>\<open>end\<close> that is neither enumerator reaches the last \<^verbatim>\<open>else\<close> with \<^verbatim>\<open>ret\<close> still 0.
\<close>

definition switchtec_gen5_diag_port_eq_tx_coeff ::
  "bool \<Rightarrow> switchtec_dev \<Rightarrow> int \<Rightarrow> switchtec_diag_end \<Rightarrow> switchtec_diag_link
     \<Rightarrow> switchtec_port_eq_coeff option
     \<Rightarrow> int \<times> switchtec_port_eq_coeff option \<times> switchtec_dev" where
  "switchtec_gen5_diag_port_eq_tx_coeff malloc_ok dev port_id endp link res =
     (case res of
        None \<Rightarrow> (-1, res, dev\<lparr>errno := - EINVAL\<rparr>)
      | Some r \<Rightarrow>
          let dev = (if endp = SWITCHTEC_DIAG_LOCAL \<or> endp = SWITCHTEC_DIAG_FAR_END then dev
                     else dev\<lparr>errno := - EINVAL\<rparr>)
          in if \<not> malloc_ok then (-1, res, dev\<lparr>errno := - ENOMEM\<rparr>)
             else
               let dump_type = (if link = SWITCHTEC_DIAG_LINK_PREVIOUS
                                then LANE_EQ_DUMP_TYPE_PREV else LANE_EQ_DUMP_TYPE_CURR);
                   prev_rate = (if link = SWITCHTEC_DIAG_LINK_PREVIOUS
                                then Some PCIE_LINK_RATE_GEN5 else None)
               in if endp = SWITCHTEC_DIAG_LOCAL then
                    let ((ret, out), dev) =
                          switchtec_cmd dev MRPC_PORT_EQ_STATUS
                            (Gen5_port_eq_coeff_in MRPC_GEN5_PORT_EQ_LOCAL_TX_COEFF_DUMP
                               DIAG_PORT_EQ_STATUS_OP_PER_PORT port_id 0 dump_type prev_rate)
                    in if ret \<noteq> 0 then (ret, res, dev)
                       else
                         let loc_out = as_eq_coeff out;
                             n = lane_cnt loc_out + 1
                         in (ret,
                             Some \<lparr>lane_cnt = n,
                                   cursors = copy_resp 0 (nat n) (cursors loc_out) (cursors r)\<rparr>,
                             dev)
                  else if endp = SWITCHTEC_DIAG_FAR_END then
                    let ((ret, out), dev) =
                          switchtec_cmd dev MRPC_PORT_EQ_STATUS
                            (Gen5_port_eq_coeff_in MRPC_GEN5_PORT_EQ_FAR_END_TX_COEFF_DUMP
                               DIAG_PORT_EQ_STATUS_OP_PER_PORT port_id 0 dump_type prev_rate)
                    in if ret \<noteq> 0 then (ret, res, dev)
                       else
                         let rem_out = as_rem_eq_coeff out;
                             n = rem_lane_cnt rem_out + 1
                         in (ret,
                             Some \<lparr>lane_cnt = n,
                                   cursors = copy_resp 0 (nat n) (rem_cursors rem_out)
                                               (cursors r)\<rparr>,
                             dev)
                  else (0, res, dev\<lparr>errno := - EINVAL\<rparr>))"

definition switchtec_gen4_diag_port_eq_tx_coeff ::
  "switchtec_dev \<Rightarrow> int \<Rightarrow> switchtec_diag_end \<Rightarrow> switchtec_diag_link
     \<Rightarrow> switchtec_port_eq_coeff option
     \<Rightarrow> int \<times> switchtec_port_eq_coeff option \<times> switchtec_dev" where
  "switchtec_gen4_diag_port_eq_tx_coeff dev port_id endp link res =
     (case res of
        None \<Rightarrow> (-1, res, dev\<lparr>errno := - EINVAL\<rparr>)
      | Some r \<Rightarrow>
          if endp = SWITCHTEC_DIAG_END_OTHER then (-1, res, dev\<lparr>errno := - EINVAL\<rparr>)
          else if link = SWITCHTEC_DIAG_LINK_OTHER then (-1, res, dev\<lparr>errno := - EINVAL\<rparr>)
          else
            let ((ret, out), dev) =
                  (if link = SWITCHTEC_DIAG_LINK_CURRENT then
                     switchtec_cmd dev MRPC_PORT_EQ_STATUS
                       (Port_eq_status_in
                          (if endp = SWITCHTEC_DIAG_LOCAL then MRPC_PORT_EQ_LOCAL_TX_COEFF_DUMP
                           else MRPC_PORT_EQ_FAR_END_TX_COEFF_DUMP)
                          DIAG_PORT_EQ_STATUS_OP_PER_PORT port_id)
                   else
                     switchtec_cmd dev MRPC_EXT_RCVR_OBJ_DUMP
                       (Ext_dump_coeff_prev_in
                          (if endp = SWITCHTEC_DIAG_LOCAL
                           then MRPC_EXT_RCVR_OBJ_DUMP_LOCAL_TX_COEFF_PREV
                           else MRPC_EXT_RCVR_OBJ_DUMP_FAR_END_TX_COEFF_PREV)
                          DIAG_PORT_EQ_STATUS_OP_PER_PORT port_id))
            in if ret \<noteq> 0 then (-1, res, dev)
               else
                 let st = as_eq_status_out out;
                     n = st_lane_id st + 1
                 in (0,
                     Some \<lparr>lane_cnt = n,
                           cursors = copy_resp 0 (nat n) (st_cursors st) (cursors r)\<rparr>,
                     dev))"

definition switchtec_diag_port_eq_tx_coeff ::
  "bool \<Rightarrow> switchtec_dev \<Rightarrow> int \<Rightarrow> switchtec_diag_end \<Rightarrow> switchtec_diag_link
     \<Rightarrow> switchtec_port_eq_coeff option
     \<Rightarrow> int \<times> switchtec_port_eq_coeff option \<times> switchtec_dev" where
  "switchtec_diag_port_eq_tx_coeff malloc_ok dev port_id endp link res =
     (if switchtec_is_gen5 dev
      then switchtec_gen5_diag_port_eq_tx_coeff malloc_ok dev port_id endp link res
      else if switchtec_is_gen4 dev
      then switchtec_gen4_diag_port_eq_tx_coeff dev port_id endp link res
      else (-1, res, dev))"

text \<open>The Gen5 table has no figure of merit and no up-sample cursors: they are stored as 0.\<close>

definition gen5_table_step :: "gen5_eq_table_step \<Rightarrow> eq_table_step" where
  "gen5_table_step st =
     \<lparr>pre_cursor = g5_pre_cursor st, post_cursor = g5_post_cursor st, fom = 0,
      pre_cursor_up = 0, post_cursor_up = 0, error_status = g5_error_status st,
      active_status = g5_active_status st, speed = g5_speed st\<rparr>"

definition switchtec_gen5_diag_port_eq_tx_table ::
  "switchtec_dev \<Rightarrow> int \<Rightarrow> switchtec_diag_link \<Rightarrow> switchtec_port_eq_table option
     \<Rightarrow> int \<times> switchtec_port_eq_table option \<times> switchtec_dev" where
  "switchtec_gen5_diag_port_eq_tx_table dev port_id link res =
     (case res of
        None \<Rightarrow> (-1, res, dev\<lparr>errno := - EINVAL\<rparr>)
      | Some r \<Rightarrow>
          let dump_type = (if link = SWITCHTEC_DIAG_LINK_PREVIOUS
                           then LANE_EQ_DUMP_TYPE_PREV else LANE_EQ_DUMP_TYPE_CURR);
              prev_rate = (if link = SWITCHTEC_DIAG_LINK_PREVIOUS
                           then Some PCIE_LINK_RATE_GEN5 else None);
              ((ret, out), dev) =
                switchtec_cmd dev MRPC_PORT_EQ_STATUS
                  (Gen5_port_eq_table_in MRPC_GEN5_PORT_EQ_FAR_END_TX_EQ_TABLE_DUMP port_id
                     dump_type prev_rate)
          in if ret \<noteq> 0 then (-1, res, dev)
             else
               let t = as_gen5_eq_table out
               in (0,
                   Some \<lparr>lane_id = g5_lane_id t, step_cnt = g5_step_cnt t,
                         steps = copy_resp 0 (nat (g5_step_cnt t))
                                   (\<lambda>i. gen5_table_step (g5_steps t i)) (steps r)\<rparr>,
                   dev))"

definition switchtec_gen4_diag_port_eq_tx_table ::
  "switchtec_dev \<Rightarrow> int \<Rightarrow> switchtec_diag_link \<Rightarrow> switchtec_port_eq_table option
     \<Rightarrow> int \<times> switchtec_port_eq_table option \<times> switchtec_dev" where
  "switchtec_gen4_diag_port_eq_tx_table dev port_id link res =
     (case res of
        None \<Rightarrow> (-1, res, dev\<lparr>errno := - EINVAL\<rparr>)
      | Some r \<Rightarrow>
          if link = SWITCHTEC_DIAG_LINK_OTHER then (-1, res, dev\<lparr>errno := - EINVAL\<rparr>)
          else
            let ((ret, out), dev) =
                  (if link = SWITCHTEC_DIAG_LINK_CURRENT then
                     switchtec_cmd dev MRPC_PORT_EQ_STATUS
                       (Port_eq_status_in2 MRPC_PORT_EQ_FAR_END_TX_EQ_TABLE_DUMP port_id 0)
                   else
                     switchtec_cmd dev MRPC_EXT_RCVR_OBJ_DUMP
                       (Port_eq_status_in2 MRPC_EXT_RCVR_OBJ_DUMP_EQ_TX_TABLE_PREV port_id 0))
            in if ret \<noteq> 0 then (-1, res, dev)
               else
                 let t = as_eq_table_out out
                 in (0,
                     Some \<lparr>lane_id = lane_id t, step_cnt = step_cnt t,
                           steps = copy_resp 0 (nat (step_cnt t)) (steps t) (steps r)\<rparr>,
                     dev))"

definition switchtec_diag_port_eq_tx_table ::
  "switchtec_dev \<Rightarrow> int \<Rightarrow> switchtec_diag_link \<Rightarrow> switchtec_port_eq_table option
     \<Rightarrow> int \<times> switchtec_port_eq_table option \<times> switchtec_dev" where
  "switchtec_diag_port_eq_tx_table dev port_id link res =
     (if switchtec_is_gen5 dev
      then switchtec_gen5_diag_port_eq_tx_table dev port_id link res
      else if switchtec_is_gen4 dev
      then switchtec_gen4_diag_port_eq_tx_table dev port_id link res
      else (-1, res, dev))"

definition switchtec_gen5_diag_port_eq_tx_fslf ::
  "switchtec_dev \<Rightarrow> int \<Rightarrow> int \<Rightarrow> switchtec_diag_end \<Rightarrow> switchtec_diag_link
     \<Rightarrow> switchtec_port_eq_tx_fslf option
     \<Rightarrow> int \<times> switchtec_port_eq_tx_fslf option \<times> switchtec_dev" where
  "switchtec_gen5_diag_port_eq_tx_fslf dev port_id lane endp link res =
     (case res of
        None \<Rightarrow> (-1, res, dev\<lparr>errno := - EINVAL\<rparr>)
      | Some r \<Rightarrow>
          if endp = SWITCHTEC_DIAG_END_OTHER then (-1, res, dev\<lparr>errno := - EINVAL\<rparr>)
          else
            let sub_cmd = (if endp = SWITCHTEC_DIAG_LOCAL
                           then MRPC_GEN5_PORT_EQ_LOCAL_TX_FSLF_DUMP
                           else MRPC_GEN5_PORT_EQ_FAR_END_TX_FSLF_DUMP);
                dump_type = (if link = SWITCHTEC_DIAG_LINK_CURRENT
                             then LANE_EQ_DUMP_TYPE_CURR else LANE_EQ_DUMP_TYPE_PREV);
                prev_rate = (if link = SWITCHTEC_DIAG_LINK_CURRENT
                             then None else Some PCIE_LINK_RATE_GEN5);
                ((ret, out), dev) =
                  switchtec_cmd dev MRPC_PORT_EQ_STATUS
                    (Gen5_port_eq_tx_fslf_in sub_cmd port_id lane dump_type prev_rate)
            in if ret \<noteq> 0 then (-1, res, dev)
               else (0, Some \<lparr>fs = fs (as_fslf_out out), lf = lf (as_fslf_out out)\<rparr>, dev))"

definition switchtec_gen4_diag_port_eq_tx_fslf ::
  "switchtec_dev \<Rightarrow> int \<Rightarrow> int \<Rightarrow> switchtec_diag_end \<Rightarrow> switchtec_diag_link
     \<Rightarrow> switchtec_port_eq_tx_fslf option
     \<Rightarrow> int \<times> switchtec_port_eq_tx_fslf option \<times> switchtec_dev" where
  "switchtec_gen4_diag_port_eq_tx_fslf dev port_id lane endp link res =
     (case res of
        None \<Rightarrow> (-1, res, dev\<lparr>errno := - EINVAL\<rparr>)
      | Some r \<Rightarrow>
          if endp = SWITCHTEC_DIAG_END_OTHER then (-1, res, dev\<lparr>errno := - EINVAL\<rparr>)
          else if link = SWITCHTEC_DIAG_LINK_OTHER then (-1, res, dev\<lparr>errno := - EINVAL\<rparr>)
          else
            let ((ret, out), dev) =
                  (if link = SWITCHTEC_DIAG_LINK_CURRENT then
                     switchtec_cmd dev MRPC_PORT_EQ_STATUS
                       (Port_eq_status_in2
                          (if endp = SWITCHTEC_DIAG_LOCAL then MRPC_PORT_EQ_LOCAL_TX_FSLF_DUMP
                           else MRPC_PORT_EQ_FAR_END_TX_FSLF_DUMP)
                          port_id lane)
                   else
                     switchtec_cmd dev MRPC_EXT_RCVR_OBJ_DUMP
                       (Ext_recv_obj_dump_in
                          (if endp = SWITCHTEC_DIAG_LOCAL
                           then MRPC_EXT_RCVR_OBJ_DUMP_LOCAL_TX_FSLF_PREV
                           else MRPC_EXT_RCVR_OBJ_DUMP_FAR_END_TX_FSLF_PREV)
                          port_id lane))
            in if ret \<noteq> 0 then (-1, res, dev)
               else (0, Some \<lparr>fs = fs (as_fslf_out out), lf = lf (as_fslf_out out)\<rparr>, dev))"

definition switchtec_diag_port_eq_tx_fslf ::
  "switchtec_dev \<Rightarrow> int \<Rightarrow> int \<Rightarrow> switchtec_diag_end \<Rightarrow> switchtec_diag_link
     \<Rightarrow> switchtec_port_eq_tx_fslf option
     \<Rightarrow> int \<times> switchtec_port_eq_tx_fslf option \<times> switchtec_dev" where
  "switchtec_diag_port_eq_tx_fslf dev port_id lane endp link res =
     (if switchtec_is_gen5 dev
      then switchtec_gen5_diag_port_eq_tx_fslf dev port_id lane endp link res
      else if switchtec_is_gen4 dev
      then switchtec_gen4_diag_port_eq_tx_fslf dev port_id lane endp link res
      else (-1, res, dev))"

section \<open>Observing a run\<close>

text \<open>
  The theorems speak about the requests a call has issued and the answers it got. These
  definitions read them off the device before and after the call; none of them is part
  of the program.
\<close>

subsection \<open>The LTSSM requests\<close>

definition ltssm_freeze_call :: "int \<Rightarrow> 8 word \<Rightarrow> mrpc_call" where
  "ltssm_freeze_call port f = (MRPC_DIAG_PORT_LTSSM_LOG, Ltssm_freeze 14 (word_of_int port) f)"

definition ltssm_status_call :: "8 word \<Rightarrow> int \<Rightarrow> mrpc_call" where
  "ltssm_status_call sub port = (MRPC_DIAG_PORT_LTSSM_LOG, Ltssm_status sub (word_of_int port))"

definition ltssm_dump_call_gen4 :: "int \<Rightarrow> 8 word \<Rightarrow> 8 word \<Rightarrow> mrpc_call" where
  "ltssm_dump_call_gen4 port i n =
     (MRPC_DIAG_PORT_LTSSM_LOG, Ltssm_log_dump_gen4 15 (word_of_int port) i n)"

definition ltssm_dump_call_gen5 :: "int \<Rightarrow> 16 word \<Rightarrow> 16 word \<Rightarrow> mrpc_call" where
  "ltssm_dump_call_gen5 port i n =
     (MRPC_DIAG_PORT_LTSSM_LOG, Ltssm_log_dump_gen5 21 (word_of_int port) i n)"

text \<open>The dump request for the chunk \<open>(index, size)\<close>.\<close>

definition chunk_call_gen5 :: "int \<Rightarrow> nat \<times> nat \<Rightarrow> mrpc_call" where
  "chunk_call_gen5 port p = ltssm_dump_call_gen5 port (word_of_nat (fst p)) (word_of_nat (snd p))"

definition is_log_dump :: "mrpc_call \<Rightarrow> bool" where
  "is_log_dump c =
     (case snd c of
        Ltssm_log_dump_gen4 s p i n \<Rightarrow> True
      | Ltssm_log_dump_gen5 s p i n \<Rightarrow> True
      | _ \<Rightarrow> False)"

text \<open>The Gen4 dump request for the chunk \<open>(index, size)\<close>.\<close>

definition chunk_call_gen4 :: "int \<Rightarrow> nat \<times> nat \<Rightarrow> mrpc_call" where
  "chunk_call_gen4 port p = ltssm_dump_call_gen4 port (word_of_nat (fst p)) (word_of_nat (snd p))"

subsection \<open>Requests and answers of a call\<close>

text \<open>The requests issued between the device \<open>dev\<close> and the later device \<open>dev'\<close>.\<close>

definition new_calls :: "switchtec_dev \<Rightarrow> switchtec_dev \<Rightarrow> mrpc_call list" where
  "new_calls dev dev' = drop (length (mrpc_log dev)) (mrpc_log dev')"

text \<open>The \<open>(log_index, no_of_logs)\<close> pairs of the dump requests in a list of requests.\<close>

definition dump_chunk :: "mrpc_call \<Rightarrow> (nat \<times> nat) list" where
  "dump_chunk c =
     (case snd c of
        Ltssm_log_dump_gen4 s p i n \<Rightarrow> [(unat i, unat n)]
      | Ltssm_log_dump_gen5 s p i n \<Rightarrow> [(unat i, unat n)]
      | _ \<Rightarrow> [])"

definition dump_chunks :: "mrpc_call list \<Rightarrow> (nat \<times> nat) list" where
  "dump_chunks cs = concat (map dump_chunk cs)"

text \<open>
  Each request of \<open>cs\<close>, issued in order after the history \<open>h\<close>, with the return code
  the device \<open>r\<close> gives it.
\<close>

fun answers ::
  "(mrpc_call list \<Rightarrow> int) \<Rightarrow> mrpc_call list \<Rightarrow> mrpc_call list \<Rightarrow> (mrpc_call \<times> int) list" where
  "answers r h [] = []"
| "answers r h (c # cs) = (c, r (h @ [c])) # answers r (h @ [c]) cs"

definition transcript :: "switchtec_dev \<Rightarrow> switchtec_dev \<Rightarrow> (mrpc_call \<times> int) list" where
  "transcript dev dev' = answers (mrpc_ret dev) (mrpc_log dev) (new_calls dev dev')"

text \<open>The dump requests of a call that the device answered with a failure.\<close>

definition failed_dumps :: "switchtec_dev \<Rightarrow> switchtec_dev \<Rightarrow> (mrpc_call \<times> int) list" where
  "failed_dumps dev dev' =
     filter (\<lambda>a. is_log_dump (fst a) \<and> snd a \<noteq> 0) (transcript dev dev')"

text \<open>
  The clamped count: the smaller of the caller's \<^verbatim>\<open>*log_count\<close> and the number of
  entries the answer to the status request reports.
\<close>

definition clamp_gen4 :: "switchtec_dev \<Rightarrow> int \<Rightarrow> int \<Rightarrow> int" where
  "clamp_gen4 dev port log_count =
     min log_count
       (uint (log_num (as_status_gen4 (mrpc_out dev
          (mrpc_log dev @ [ltssm_freeze_call port 1, ltssm_status_call 13 port])))))"

definition clamp_gen5 :: "switchtec_dev \<Rightarrow> int \<Rightarrow> int \<Rightarrow> int" where
  "clamp_gen5 dev port log_count =
     min log_count
       (uint (trig_cnt (as_status_gen5 (mrpc_out dev
          (mrpc_log dev @ [ltssm_freeze_call port 1, ltssm_status_call 20 port])))))"

subsection \<open>The Gen4 chunks\<close>

text \<open>
  The chunks of \<open>m\<close> entries as the spec words them: one chunk of \<open>m\<close> entries at index
  0 when \<open>m \<le> 126\<close>, otherwise a chunk of 126 entries at index 0 and one of \<open>m - 126\<close>
  entries at index 126.
\<close>

definition ltssm_chunks_gen4 :: "nat \<Rightarrow> (nat \<times> nat) list" where
  "ltssm_chunks_gen4 m = (if m \<le> 126 then [(0, m)] else [(0, 126), (126, m - 126)])"

subsection \<open>The Gen5 chunks\<close>

text \<open>
  The chunks of \<open>n\<close> entries from index \<open>cur\<close> on, as the spec words them: chunk \<open>k\<close>
  starts at \<open>cur + 63 * k\<close> and has the size \<open>min 63\<close> of what remains.
\<close>

definition ltssm_chunks_gen5 :: "nat \<Rightarrow> nat \<Rightarrow> (nat \<times> nat) list" where
  "ltssm_chunks_gen5 cur n = map (\<lambda>k. (cur + 63 * k, min 63 (n - 63 * k))) [0..<(n + 62) div 63]"

text \<open>
  The dump loop as a recursion over the list of chunks, which the proofs relate the
  \<^verbatim>\<open>while\<close> loop to (\<open>loop_refines\<close>): the chunks are requested in order up to the
  first failure, and the entries of every answered chunk are decoded. \<open>issued\<close> counts
  the requests, the failed one included; \<open>decoded_gen5\<close> counts the entries decoded.
\<close>

fun issue_chunks_gen5 ::
  "(nat \<Rightarrow> 'f) \<Rightarrow> (mrpc_call list \<Rightarrow> int) \<Rightarrow> (mrpc_call list \<Rightarrow> mrpc_output) \<Rightarrow> int
     \<Rightarrow> mrpc_call list \<Rightarrow> (nat \<times> nat) list \<Rightarrow> (nat \<Rightarrow> 'f switchtec_diag_ltssm_log)
     \<Rightarrow> (nat \<Rightarrow> 'f switchtec_diag_ltssm_log) \<times> mrpc_call list" where
  "issue_chunks_gen5 tr r outf port h [] ld = (ld, h)"
| "issue_chunks_gen5 tr r outf port h (p # ps) ld =
     (let h' = h @ [ltssm_dump_call_gen5 port (word_of_nat (fst p)) (word_of_nat (snd p))]
      in if r h' \<noteq> 0 then (ld, h')
         else issue_chunks_gen5 tr r outf port h' ps
                (ltssm_decode_gen5 tr (as_log_buffer (outf h')) (fst p) (snd p) ld))"

fun issued :: "(mrpc_call list \<Rightarrow> int) \<Rightarrow> mrpc_call list \<Rightarrow> mrpc_call list \<Rightarrow> nat" where
  "issued r h [] = 0"
| "issued r h (c # cs) = (if r (h @ [c]) \<noteq> 0 then 1 else Suc (issued r (h @ [c]) cs))"

definition decoded_gen5 ::
  "(mrpc_call list \<Rightarrow> int) \<Rightarrow> mrpc_call list \<Rightarrow> mrpc_call list \<Rightarrow> nat \<Rightarrow> nat" where
  "decoded_gen5 r h cs n =
     (if list_ex (\<lambda>a. snd a \<noteq> 0) (answers r h (take (issued r h cs) cs))
      then 63 * (issued r h cs - 1) else n)"

subsection \<open>The state fields of a Gen4 record\<close>

definition ltssm_major_gen4 :: "log_dump_out_gen4 \<Rightarrow> int" where
  "ltssm_major_gen4 e = uint (drop_bit 7 (dw0 e) AND 0xf)"

definition ltssm_minor_gen4 :: "log_dump_out_gen4 \<Rightarrow> int" where
  "ltssm_minor_gen4 e = uint (drop_bit 3 (dw0 e) AND 0xf)"

subsection \<open>The eye fetch request\<close>

definition eye_fetch_call :: mrpc_call where
  "eye_fetch_call = (MRPC_EYE_OBSERVE, Port_eye_cmd MRPC_EYE_OBSERVE_FETCH)"

section \<open>Concrete devices\<close>

text \<open>The devices and inputs the theorems below are run on.\<close>

definition zero_eye_fetch :: switchtec_diag_port_eye_fetch where
  "zero_eye_fetch =
     \<lparr>data_mode = SWITCHTEC_DIAG_EYE_RAW, status = 0, lane_mask = (\<lambda>i. 0),
      data_count_lo = 0, data_count_hi = 0,
      raw = (\<lambda>i. \<lparr>error_cnt_lo = 0, error_cnt_hi = 0, sample_cnt_lo = 0,
                   sample_cnt_hi = 0\<rparr>),
      ratio = (\<lambda>i. 0)\<rparr>"

definition zero_log_buffer :: log_buffer where
  "zero_log_buffer =
     \<lparr>rx_10s = 0, minor = 0, major = 0, link_rate_f = 0, rlov = 0, time_stamp = 0,
      ts_high = 0, cond = 0\<rparr>"

definition zero_eq_table_step :: eq_table_step where
  "zero_eq_table_step =
     \<lparr>pre_cursor = 0, post_cursor = 0, fom = 0, pre_cursor_up = 0, post_cursor_up = 0,
      error_status = 0, active_status = 0, speed = 0\<rparr>"

definition zero_output :: mrpc_output where
  "zero_output =
     \<lparr>as_eye_fetch = zero_eye_fetch,
      as_status_gen4 = \<lparr>w0_trigger_count4 = 0, w1_trigger_count4 = 0, log_num = 0\<rparr>,
      as_log_dump_gen4 = (\<lambda>i. \<lparr>dw0 = 0, dw1 = 0\<rparr>),
      as_status_gen5 = \<lparr>trig_cnt = 0, w0_trigger_count5 = 0, w1_trigger_count5 = 0,
                         time_stamp5 = 0, trig_src_stat = 0\<rparr>,
      as_log_buffer = (\<lambda>i. zero_log_buffer),
      as_eq_status_out = \<lparr>st_lane_id = 0, st_cursors = (\<lambda>i. \<lparr>pre = 0, post = 0\<rparr>)\<rparr>,
      as_eq_coeff = \<lparr>lane_cnt = 0, cursors = (\<lambda>i. \<lparr>pre = 0, post = 0\<rparr>)\<rparr>,
      as_rem_eq_coeff = \<lparr>rem_lane_cnt = 0, rem_cursors = (\<lambda>i. \<lparr>pre = 0, post = 0\<rparr>)\<rparr>,
      as_eq_table_out = \<lparr>lane_id = 0, step_cnt = 0, steps = (\<lambda>i. zero_eq_table_step)\<rparr>,
      as_gen5_eq_table = \<lparr>g5_lane_id = 0, g5_step_cnt = 0,
                           g5_steps = (\<lambda>i. \<lparr>g5_pre_cursor = 0, g5_post_cursor = 0,
                                              g5_error_status = 0, g5_active_status = 0,
                                              g5_speed = 0\<rparr>)\<rparr>,
      as_fslf_out = \<lparr>fs = 0, lf = 0\<rparr>\<rparr>"

text \<open>A device that fails the second request it is handed, and the loopback flags as bits.\<close>

definition dev_fail_second :: switchtec_dev where
  "dev_fail_second =
     \<lparr>gen = SWITCHTEC_GEN4, mrpc_log = [],
      mrpc_ret = (\<lambda>h. if length h = 2 then -1 else 0),
      mrpc_out = (\<lambda>h. zero_output), errno = 0\<rparr>"

definition loopback_flags :: switchtec_diag_loopback_enable where
  "loopback_flags =
     \<lparr>SWITCHTEC_DIAG_LOOPBACK_RX_TO_TX = 1, SWITCHTEC_DIAG_LOOPBACK_TX_TO_RX = 2,
      SWITCHTEC_DIAG_LOOPBACK_LTSSM = 4\<rparr>"

definition eye_answer_busy_then_done :: switchtec_diag_port_eye_fetch where
  "eye_answer_busy_then_done =
     \<lparr>data_mode = SWITCHTEC_DIAG_EYE_RATIO, status = 0,
      lane_mask = (\<lambda>i. if i = 0 then 4 else 0),
      data_count_lo = 10, data_count_hi = 0,
      raw = raw zero_eye_fetch,
      ratio = (\<lambda>i. 32768)\<rparr>"

definition dev_eye_busy :: switchtec_dev where
  "dev_eye_busy =
     \<lparr>gen = SWITCHTEC_GEN4, mrpc_log = [], mrpc_ret = (\<lambda>h. 0),
      mrpc_out = (\<lambda>h. zero_output\<lparr>as_eye_fetch :=
                   if length h = 1 then zero_eye_fetch\<lparr>status := 1\<rparr>
                   else eye_answer_busy_then_done\<rparr>),
      errno = 0\<rparr>"

definition dev_gen3 :: switchtec_dev where
  "dev_gen3 =
     \<lparr>gen = SWITCHTEC_GEN3, mrpc_log = [], mrpc_ret = (\<lambda>h. 0),
      mrpc_out = (\<lambda>h. zero_output), errno = 0\<rparr>"

definition zero_ltssm_log :: "nat switchtec_diag_ltssm_log" where
  "zero_ltssm_log = \<lparr>timestamp_high = 0, timestamp = 0, link_rate = 0, link_state = 0\<rparr>"

definition ltssm_answer :: mrpc_output where
  "ltssm_answer =
     zero_output
       \<lparr>as_status_gen4 := \<lparr>w0_trigger_count4 = 0, w1_trigger_count4 = 0, log_num = 200\<rparr>,
        as_log_dump_gen4 := (\<lambda>i. \<lparr>dw0 = 280, dw1 = 5\<rparr>),
        as_status_gen5 := \<lparr>trig_cnt = 130, w0_trigger_count5 = 0, w1_trigger_count5 = 0,
                           time_stamp5 = 0, trig_src_stat = 0\<rparr>,
        as_log_buffer := (\<lambda>i. zero_log_buffer\<lparr>major := 2, minor := 3\<rparr>)\<rparr>"

definition dev_ltssm_ok :: switchtec_dev where
  "dev_ltssm_ok =
     \<lparr>gen = SWITCHTEC_GEN5, mrpc_log = [], mrpc_ret = (\<lambda>h. 0),
      mrpc_out = (\<lambda>h. ltssm_answer), errno = 0\<rparr>"

definition dev_ltssm_fail :: switchtec_dev where
  "dev_ltssm_fail =
     \<lparr>gen = SWITCHTEC_GEN5, mrpc_log = [], mrpc_ret = (\<lambda>h. if length h = 4 then -5 else 0),
      mrpc_out = (\<lambda>h. ltssm_answer), errno = 0\<rparr>"

text \<open>The same device, failing the third request it is handed: the first dump request.\<close>

definition dev_ltssm_fail_first :: switchtec_dev where
  "dev_ltssm_fail_first =
     \<lparr>gen = SWITCHTEC_GEN4, mrpc_log = [], mrpc_ret = (\<lambda>h. if length h = 3 then -5 else 0),
      mrpc_out = (\<lambda>h. ltssm_answer), errno = 0\<rparr>"

text \<open>
  A device that answers a fetch with success, 3 pixels and a data mode that is neither
  raw nor ratio; and a raw answer with 1 error in 4 samples.
\<close>

definition dev_eye_other :: switchtec_dev where
  "dev_eye_other =
     \<lparr>gen = SWITCHTEC_GEN4, mrpc_log = [], mrpc_ret = (\<lambda>h. 0),
      mrpc_out = (\<lambda>h. zero_output\<lparr>as_eye_fetch :=
                   zero_eye_fetch\<lparr>data_mode := SWITCHTEC_DIAG_EYE_MODE_OTHER,
                                  data_count_lo := 3\<rparr>\<rparr>),
      errno = 0\<rparr>"

definition eye_answer_raw :: switchtec_diag_port_eye_fetch where
  "eye_answer_raw =
     zero_eye_fetch\<lparr>raw := (\<lambda>i. \<lparr>error_cnt_lo = 1, error_cnt_hi = 0, sample_cnt_lo = 4,
                                     sample_cnt_hi = 0\<rparr>)\<rparr>"

section \<open>Loopback: the order of the requests\<close>

text \<open>
  C4. A loopback-set call issues the RX-to-TX request, the TX-to-RX request and the LTSSM
  request in that order, each with the boolean of its flag in the enable mask. The call
  stops at the first request that fails and returns its code: the requests after it are
  not in the device's log, those before it are, and nothing is sent to undo them. When
  none fails the log grows by exactly the three requests.
\<close>

theorem loopback_set_sequence:
  "switchtec_diag_loopback_set fl dev port_id enable ltssm_speed = (ret, dev') \<Longrightarrow>
   (let c1 = (MRPC_INT_LOOPBACK, Loopback_in MRPC_LOOPBACK_SET_INT_LOOPBACK port_id
                (if enable AND SWITCHTEC_DIAG_LOOPBACK_RX_TO_TX fl \<noteq> 0 then 1 else 0)
                DIAG_LOOPBACK_RX_TO_TX);
        c2 = (MRPC_INT_LOOPBACK, Loopback_in MRPC_LOOPBACK_SET_INT_LOOPBACK port_id
                (if enable AND SWITCHTEC_DIAG_LOOPBACK_TX_TO_RX fl \<noteq> 0 then 1 else 0)
                DIAG_LOOPBACK_TX_TO_RX);
        c3 = (MRPC_INT_LOOPBACK, Loopback_ltssm_in MRPC_LOOPBACK_SET_LTSSM_LOOPBACK port_id
                (if enable AND SWITCHTEC_DIAG_LOOPBACK_LTSSM fl \<noteq> 0 then 1 else 0)
                ltssm_speed);
        h = mrpc_log dev; r = mrpc_ret dev
    in (r (h @ [c1]) \<noteq> 0 \<longrightarrow>
          ret = r (h @ [c1]) \<and> dev' = dev\<lparr>mrpc_log := h @ [c1]\<rparr>) \<and>
       (r (h @ [c1]) = 0 \<and> r (h @ [c1, c2]) \<noteq> 0 \<longrightarrow>
          ret = r (h @ [c1, c2]) \<and> dev' = dev\<lparr>mrpc_log := h @ [c1, c2]\<rparr>) \<and>
       (r (h @ [c1]) = 0 \<and> r (h @ [c1, c2]) = 0 \<longrightarrow>
          ret = r (h @ [c1, c2, c3]) \<and> dev' = dev\<lparr>mrpc_log := h @ [c1, c2, c3]\<rparr>))"
  by (auto simp: switchtec_diag_loopback_set_def switchtec_cmd_def c_bool_def Let_def
      split: if_splits prod.splits)

text \<open>
  Only the RX-to-TX flag set, on a device that fails the second request: the first
  request carries 1, the second 0, and the LTSSM request is never sent.
\<close>

theorem loopback_set_sequence_witness:
  "switchtec_diag_loopback_set loopback_flags dev_fail_second 3 1 0 =
     (-1, dev_fail_second\<lparr>mrpc_log :=
        [(MRPC_INT_LOOPBACK,
          Loopback_in MRPC_LOOPBACK_SET_INT_LOOPBACK 3 1 DIAG_LOOPBACK_RX_TO_TX),
         (MRPC_INT_LOOPBACK,
          Loopback_in MRPC_LOOPBACK_SET_INT_LOOPBACK 3 0 DIAG_LOOPBACK_TX_TO_RX)]\<rparr>)"
  using loopback_set_sequence [of loopback_flags dev_fail_second 3 1 0
      "fst (switchtec_diag_loopback_set loopback_flags dev_fail_second 3 1 0)"
      "snd (switchtec_diag_loopback_set loopback_flags dev_fail_second 3 1 0)"]
  by (simp add: dev_fail_second_def loopback_flags_def Let_def prod_eq_iff)

section \<open>Port equalization: unsupported generations\<close>

text \<open>
  C8. On a device handle that is neither Gen4 nor Gen5, each of the three equalization
  operations (TX coefficients, TX table, FS/LF) returns -1, the failure code of these
  functions, and leaves the device as it was: no request is added to its log, and the
  result structure is not written.
\<close>

theorem eq_unsupported_generation:
  "\<not> switchtec_is_gen4 dev \<Longrightarrow> \<not> switchtec_is_gen5 dev \<Longrightarrow>
   switchtec_diag_port_eq_tx_coeff malloc_ok dev port_id endp link res1 = (-1, res1, dev) \<and>
   switchtec_diag_port_eq_tx_table dev port_id link res2 = (-1, res2, dev) \<and>
   switchtec_diag_port_eq_tx_fslf dev port_id lane endp link res3 = (-1, res3, dev)"
  by (simp add: switchtec_diag_port_eq_tx_coeff_def switchtec_diag_port_eq_tx_table_def
      switchtec_diag_port_eq_tx_fslf_def)

text \<open>The three operations on a Gen3 device.\<close>

theorem eq_unsupported_generation_witness:
  "switchtec_diag_port_eq_tx_coeff True dev_gen3 1 SWITCHTEC_DIAG_LOCAL
     SWITCHTEC_DIAG_LINK_CURRENT (Some (as_eq_coeff zero_output))
     = (-1, Some (as_eq_coeff zero_output), dev_gen3) \<and>
   switchtec_diag_port_eq_tx_table dev_gen3 1 SWITCHTEC_DIAG_LINK_CURRENT
     (Some (as_eq_table_out zero_output))
     = (-1, Some (as_eq_table_out zero_output), dev_gen3) \<and>
   switchtec_diag_port_eq_tx_fslf dev_gen3 1 0 SWITCHTEC_DIAG_LOCAL
     SWITCHTEC_DIAG_LINK_CURRENT (Some (as_fslf_out zero_output))
     = (-1, Some (as_fslf_out zero_output), dev_gen3) \<and>
   mrpc_log dev_gen3 = []"
  using eq_unsupported_generation [of dev_gen3 True 1 SWITCHTEC_DIAG_LOCAL
      SWITCHTEC_DIAG_LINK_CURRENT "Some (as_eq_coeff zero_output)"
      "Some (as_eq_table_out zero_output)" 0 "Some (as_fslf_out zero_output)"]
  by (simp add: dev_gen3_def switchtec_is_gen4_def switchtec_is_gen5_def)

section \<open>Eye capture: the fetch\<close>

subsection \<open>Counts, pixels and lanes\<close>

lemma hi_lo_sum:
  "unat (push_bit 32 (ucast (hi :: 32 word) :: 64 word) + ucast (lo :: 32 word))
     = unat hi * 2 ^ 32 + unat lo"
proof -
  have h: "unat hi < 2 ^ 32" and l: "unat lo < 2 ^ 32"
    using unsigned_less [of hi] unsigned_less [of lo] by simp_all
  have a: "unat (ucast hi :: 64 word) = unat hi" "unat (ucast lo :: 64 word) = unat lo"
    using h l by (simp_all add: unsigned_ucast_eq take_bit_nat_eq_self)
  have "unat (push_bit 32 (ucast hi :: 64 word)) =
          take_bit 64 (push_bit 32 (unat (ucast hi :: 64 word)))"
    by (simp only: unsigned_push_bit_eq) simp
  also have "\<dots> = take_bit 64 (unat hi * 2 ^ 32)"
    by (simp only: a push_bit_eq_mult)
  also have "\<dots> = unat hi * 2 ^ 32"
    using h by (intro take_bit_nat_eq_self) simp
  finally have b: "unat (push_bit 32 (ucast hi :: 64 word)) = unat hi * 2 ^ 32" .
  show ?thesis
    using h l by (simp add: unat_word_ariths a b)
qed

lemma hi_lo_unat: "unat (hi_lo_to_uint64 lo hi) = unat hi * 2 ^ 32 + unat lo"
proof -
  have d: "push_bit 32 (ucast hi :: 64 word) AND ucast lo = 0"
    by (rule bit_eqI) (auto simp: bit_simps dest: bit_imp_le_length)
  have "hi_lo_to_uint64 lo hi = push_bit 32 (ucast hi :: 64 word) + ucast lo"
    by (simp add: hi_lo_to_uint64_def le32toh_def Let_def disjunctive_add_eq_or [OF d])
  then show ?thesis by (simp only: hi_lo_sum)
qed

lemma hi_lo_zero: "hi_lo_to_uint64 lo hi = 0 \<longleftrightarrow> unat hi * 2 ^ 32 + unat lo = 0"
  by (simp only: hi_lo_unat [symmetric] unat_eq_0)

lemma data_count_arith:
  "uint (lo :: 8 word) OR push_bit 8 (uint (hi :: 8 word)) = uint lo + 256 * uint hi"
proof -
  have "uint lo AND push_bit 8 (uint hi) = 0"
    by (rule bit_eqI) (auto simp: bit_simps dest: bit_imp_le_length)
  from disjunctive_add_eq_or [OF this] show ?thesis
    by (simp add: push_bit_eq_mult)
qed

lemma pixels_at:
  "eye_fetch_pixels out n pixels i =
     (if i < n then eye_fetch_pixel out i pixels i else pixels i)"
  by (induction n) (auto simp: eye_fetch_pixel_def Let_def less_Suc_eq split: switchtec_diag_eye_data_mode.splits)

lemma eye_lane_id_4:
  "eye_lane_id lm [0, 1, 2, 3] lane =
     (if ffs (lm 0) \<noteq> 0 then ffs (lm 0)
      else if ffs (lm 1) \<noteq> 0 then ffs (lm 1)
      else if ffs (lm 2) \<noteq> 0 then ffs (lm 2)
      else ffs (lm 3))"
  by (simp add: Let_def)

lemma ffs_0: "ffs 0 = 0"
  by (simp add: ffs_def)

lemma filter_eq_upt: "n < m \<Longrightarrow> filter (\<lambda>k. k = n) [0..<m] = [n]"
  by (induction m) (auto simp: less_Suc_eq)

lemma ffs_single_bit: "n < 32 \<Longrightarrow> ffs (push_bit n 1) = int n + 1"
proof -
  assume n: "n < 32"
  have "filter (bit (push_bit n 1 :: 32 word)) [0..<32] = filter (\<lambda>k. k = n) [0..<32]"
    using n by (intro filter_cong) (auto simp: bit_simps)
  then show ?thesis using n by (simp add: ffs_def filter_eq_upt del: upt_Suc)
qed

subsection \<open>The retry loop\<close>

lemma eye_fetch_retry:
  assumes "mrpc_ret dev (mrpc_log dev @ [eye_fetch_call]) = 0"
    and "status (as_eye_fetch (mrpc_out dev (mrpc_log dev @ [eye_fetch_call]))) = 1"
  shows "switchtec_diag_eye_fetch dev px cnt lane =
         switchtec_diag_eye_fetch (dev\<lparr>mrpc_log := mrpc_log dev @ [eye_fetch_call]\<rparr>) px cnt lane"
  using assms
  by (subst switchtec_diag_eye_fetch.simps)
    (simp add: switchtec_cmd_def eye_fetch_call_def Let_def)

lemma eye_fetch_retries:
  assumes "\<forall>j<k. mrpc_ret dev (mrpc_log dev @ replicate (Suc j) eye_fetch_call) = 0 \<and>
      status (as_eye_fetch (mrpc_out dev (mrpc_log dev @ replicate (Suc j) eye_fetch_call))) = 1"
  shows "switchtec_diag_eye_fetch dev px cnt lane =
         switchtec_diag_eye_fetch
           (dev\<lparr>mrpc_log := mrpc_log dev @ replicate k eye_fetch_call\<rparr>) px cnt lane"
  using assms
proof (induction k arbitrary: dev)
  case 0
  then show ?case by simp
next
  case (Suc k)
  let ?dev1 = "dev\<lparr>mrpc_log := mrpc_log dev @ [eye_fetch_call]\<rparr>"
  from Suc.prems [rule_format, of 0]
  have first: "switchtec_diag_eye_fetch dev px cnt lane = switchtec_diag_eye_fetch ?dev1 px cnt lane"
    by (intro eye_fetch_retry) simp_all
  have "\<forall>j<k. mrpc_ret ?dev1 (mrpc_log ?dev1 @ replicate (Suc j) eye_fetch_call) = 0 \<and>
      status (as_eye_fetch (mrpc_out ?dev1 (mrpc_log ?dev1 @ replicate (Suc j) eye_fetch_call))) = 1"
    using Suc.prems [rule_format, of "Suc j" for j] by simp
  from Suc.IH [OF this] first show ?case by simp
qed

lemma eye_fetch_answer:
  assumes "mrpc_ret dev (mrpc_log dev @ [eye_fetch_call]) = 0"
    and "status (as_eye_fetch (mrpc_out dev (mrpc_log dev @ [eye_fetch_call]))) = 0"
  shows "switchtec_diag_eye_fetch dev px cnt lane =
     (let out = as_eye_fetch (mrpc_out dev (mrpc_log dev @ [eye_fetch_call]));
          data_count = uint (data_count_lo out) OR push_bit 8 (uint (data_count_hi out))
      in Some (data_count, eye_fetch_pixels out (min (nat data_count) cnt) px,
               eye_lane_id (lane_mask out) [0, 1, 2, 3] lane,
               dev\<lparr>mrpc_log := mrpc_log dev @ [eye_fetch_call]\<rparr>))"
  using assms
  by (subst switchtec_diag_eye_fetch.simps)
    (simp add: switchtec_cmd_def eye_fetch_call_def Let_def switchtec_diag_eye_status_def)

subsection \<open>The result of a fetch\<close>

text \<open>
  C2, as amended. Let the device answer \<open>k\<close> fetch requests with busy (status 1) and
  the next one with success (return code 0, status 0), reporting \<open>data_count\<close> pixels
  (the low byte plus 256 times the high byte). Then the fetch returns, and it returns the
  full \<open>data_count\<close>, also when that exceeds \<open>pixel_cnt\<close>. When the data mode of the
  answer is raw or ratio, the entries below \<open>min data_count pixel_cnt\<close> of the pixel
  array hold the decoded pixels and every other entry is what it was before the call:
  exactly \<open>min data_count pixel_cnt\<close> entries are written. When the data mode is any
  other value, the \<^verbatim>\<open>switch\<close> has no case for it and no entry is written. A raw pixel
  is the quotient of the error count by the sample count, each assembled as high word
  times \<open>2 ^ 32\<close> plus low word, and not-a-number when the sample count is 0; a ratio
  pixel is the wire value over 65536.
\<close>

theorem eye_fetch_count:
  fixes dev :: switchtec_dev and pixel_cnt k :: nat
  defines "h \<equiv> mrpc_log dev @ replicate (Suc k) eye_fetch_call"
  defines "out \<equiv> as_eye_fetch (mrpc_out dev h)"
  defines "data_count \<equiv> unat (data_count_lo out) + 256 * unat (data_count_hi out)"
  assumes busy: "\<forall>j<k. mrpc_ret dev (mrpc_log dev @ replicate (Suc j) eye_fetch_call) = 0 \<and>
      status (as_eye_fetch (mrpc_out dev (mrpc_log dev @ replicate (Suc j) eye_fetch_call))) = 1"
    and ok: "mrpc_ret dev h = 0" "status out = 0"
  shows "switchtec_diag_eye_fetch dev pixels pixel_cnt lane =
    Some (int data_count,
          (\<lambda>i. if i < min data_count pixel_cnt
               then case data_mode out of
                      SWITCHTEC_DIAG_EYE_RAW \<Rightarrow>
                        let errors = unat (error_cnt_hi (raw out i)) * 2 ^ 32
                                       + unat (error_cnt_lo (raw out i));
                            samples = unat (sample_cnt_hi (raw out i)) * 2 ^ 32
                                        + unat (sample_cnt_lo (raw out i))
                        in if samples = 0 then NaN else Fdiv errors samples
                    | SWITCHTEC_DIAG_EYE_RATIO \<Rightarrow> Fdiv (unat (ratio out i)) 65536
                    | SWITCHTEC_DIAG_EYE_MODE_OTHER \<Rightarrow> pixels i
               else pixels i),
          eye_lane_id (lane_mask out) [0, 1, 2, 3] lane,
          dev\<lparr>mrpc_log := h\<rparr>)"
proof -
  let ?dev = "dev\<lparr>mrpc_log := mrpc_log dev @ replicate k eye_fetch_call\<rparr>"
  have hh: "mrpc_log ?dev @ [eye_fetch_call] = h"
    by (simp add: h_def replicate_append_same)
  have dc: "uint (data_count_lo out) OR push_bit 8 (uint (data_count_hi out)) = int data_count"
    by (simp add: data_count_arith data_count_def)
  have px: "eye_fetch_pixels out n pixels =
      (\<lambda>i. if i < n
           then case data_mode out of
                  SWITCHTEC_DIAG_EYE_RAW \<Rightarrow>
                    let errors = unat (error_cnt_hi (raw out i)) * 2 ^ 32
                                   + unat (error_cnt_lo (raw out i));
                        samples = unat (sample_cnt_hi (raw out i)) * 2 ^ 32
                                    + unat (sample_cnt_lo (raw out i))
                    in if samples = 0 then NaN else Fdiv errors samples
                | SWITCHTEC_DIAG_EYE_RATIO \<Rightarrow> Fdiv (unat (ratio out i)) 65536
                | SWITCHTEC_DIAG_EYE_MODE_OTHER \<Rightarrow> pixels i
           else pixels i)" for n
    by (intro ext)
      (auto simp: pixels_at eye_fetch_pixel_def Let_def hi_lo_unat hi_lo_zero le32toh_def
        split: switchtec_diag_eye_data_mode.splits)
  have r: "mrpc_ret ?dev = mrpc_ret dev" "mrpc_out ?dev = mrpc_out dev"
    by simp_all
  have p1: "mrpc_ret ?dev (mrpc_log ?dev @ [eye_fetch_call]) = 0"
    unfolding hh r using ok(1) .
  have p2: "status (as_eye_fetch (mrpc_out ?dev (mrpc_log ?dev @ [eye_fetch_call]))) = 0"
    unfolding hh r using ok(2) by (simp only: out_def)
  note ans = eye_fetch_answer [OF p1 p2, unfolded hh r, folded out_def, unfolded dc Let_def]
  have "switchtec_diag_eye_fetch dev pixels pixel_cnt lane =
        switchtec_diag_eye_fetch ?dev pixels pixel_cnt lane"
    by (rule eye_fetch_retries [OF busy])
  also have "\<dots> = Some (int data_count,
      eye_fetch_pixels out (min data_count pixel_cnt) pixels,
      eye_lane_id (lane_mask out) [0, 1, 2, 3] lane, dev\<lparr>mrpc_log := h\<rparr>)"
    unfolding ans by simp
  finally show ?thesis by (simp only: px)
qed

text \<open>
  The claim as stated fails for an answer whose data mode is neither raw nor ratio: the
  fetch succeeds and returns 3 for a buffer of 5 pixels, and it writes none of them.
\<close>

theorem eye_fetch_count_counterexample:
  "switchtec_diag_eye_fetch dev_eye_other (\<lambda>i. Fdiv 7 2) 5 0 =
     Some (3, (\<lambda>i. Fdiv 7 2), 0, dev_eye_other\<lparr>mrpc_log := [eye_fetch_call]\<rparr>)"
proof -
  have a: "mrpc_ret dev_eye_other (mrpc_log dev_eye_other @ [eye_fetch_call]) = 0"
    by (simp add: dev_eye_other_def)
  have out: "as_eye_fetch (mrpc_out dev_eye_other (mrpc_log dev_eye_other @ [eye_fetch_call])) =
      zero_eye_fetch\<lparr>data_mode := SWITCHTEC_DIAG_EYE_MODE_OTHER, data_count_lo := 3\<rparr>"
    by (simp add: dev_eye_other_def)
  have b: "status (as_eye_fetch (mrpc_out dev_eye_other
      (mrpc_log dev_eye_other @ [eye_fetch_call]))) = 0"
    unfolding out by (simp add: zero_eye_fetch_def)
  have px: "eye_fetch_pixels
      (zero_eye_fetch\<lparr>data_mode := SWITCHTEC_DIAG_EYE_MODE_OTHER, data_count_lo := 3\<rparr>) n
      (\<lambda>i. Fdiv 7 2) = (\<lambda>i. Fdiv 7 2)" for n
    by (intro ext) (simp add: pixels_at eye_fetch_pixel_def)
  have lane: "eye_lane_id (lane_mask
      (zero_eye_fetch\<lparr>data_mode := SWITCHTEC_DIAG_EYE_MODE_OTHER, data_count_lo := 3\<rparr>))
      [0, 1, 2, 3] 0 = 0"
    by (simp add: eye_lane_id_4 zero_eye_fetch_def ffs_0)
  have dc: "data_count_lo
      (zero_eye_fetch\<lparr>data_mode := SWITCHTEC_DIAG_EYE_MODE_OTHER, data_count_lo := 3\<rparr>) = 3"
    "data_count_hi
      (zero_eye_fetch\<lparr>data_mode := SWITCHTEC_DIAG_EYE_MODE_OTHER, data_count_lo := 3\<rparr>) = 0"
    by (simp_all add: zero_eye_fetch_def)
  have log: "mrpc_log dev_eye_other = []" by (simp add: dev_eye_other_def)
  show ?thesis
    unfolding eye_fetch_answer [OF a b] out
    using lane by (simp add: Let_def px dc log del: eye_lane_id.simps)
qed

text \<open>
  The boundary case: one busy answer, then 10 ratio pixels into a buffer of 9. The call
  returns 10, writes the entries 0 to 8 and leaves entry 9 alone.
\<close>

theorem eye_fetch_count_witness:
  "switchtec_diag_eye_fetch dev_eye_busy (\<lambda>i. NaN) 9 0 =
     Some (10, (\<lambda>i. if i < 9 then Fdiv 32768 65536 else NaN), 3,
           dev_eye_busy\<lparr>mrpc_log := [eye_fetch_call, eye_fetch_call]\<rparr>)"
proof -
  have busy: "\<forall>j<1. mrpc_ret dev_eye_busy (mrpc_log dev_eye_busy @ replicate (Suc j) eye_fetch_call) = 0 \<and>
      status (as_eye_fetch (mrpc_out dev_eye_busy
        (mrpc_log dev_eye_busy @ replicate (Suc j) eye_fetch_call))) = 1"
    by (simp add: dev_eye_busy_def zero_output_def)
  have out: "as_eye_fetch (mrpc_out dev_eye_busy
      (mrpc_log dev_eye_busy @ replicate (Suc 1) eye_fetch_call)) = eye_answer_busy_then_done"
    by (simp add: dev_eye_busy_def zero_output_def)
  have ok: "mrpc_ret dev_eye_busy (mrpc_log dev_eye_busy @ replicate (Suc 1) eye_fetch_call) = 0"
    "status (as_eye_fetch (mrpc_out dev_eye_busy
        (mrpc_log dev_eye_busy @ replicate (Suc 1) eye_fetch_call))) = 0"
    unfolding out by (simp_all add: dev_eye_busy_def eye_answer_busy_then_done_def)
  have dc: "data_count_lo eye_answer_busy_then_done = 10"
    "data_count_hi eye_answer_busy_then_done = 0"
    by (simp_all add: eye_answer_busy_then_done_def)
  have lane: "eye_lane_id (lane_mask eye_answer_busy_then_done) [0, 1, 2, 3] 0 = 3"
    using ffs_single_bit [of 2] by (simp add: eye_lane_id_4 eye_answer_busy_then_done_def ffs_0)
  have log: "mrpc_log dev_eye_busy = []" by (simp add: dev_eye_busy_def)
  show ?thesis
    unfolding eye_fetch_count [OF busy ok, of "\<lambda>i. NaN" 9 0] out lane
    by (simp add: eye_answer_busy_then_done_def log cong: if_cong)
qed

text \<open>
  C9. The scenario of the claim: ratio mode, a first answer with busy status 1, a second
  answer with status 0, \<open>data_count = 10\<close> and a lane mask that selects lane 2 (bit 2 of
  the first word, the value 4), and a buffer of 10 pixels. The fetch retries once and
  decodes exactly 10 ratio pixels, but it reports lane 3: \<^verbatim>\<open>ffs\<close> counts bit positions
  from 1 (\<open>ffs_single_bit\<close>: the mask of lane \<open>n\<close> gives \<open>n + 1\<close>), and the loop never
  adds 32 for a later word of the mask.
\<close>

theorem eye_fetch_lane_id_off_by_one:
  "switchtec_diag_eye_fetch dev_eye_busy (\<lambda>i. NaN) 10 0 =
     Some (10, (\<lambda>i. if i < 10 then Fdiv 32768 65536 else NaN), 3,
           dev_eye_busy\<lparr>mrpc_log := [eye_fetch_call, eye_fetch_call]\<rparr>)"
proof -
  have busy: "\<forall>j<1. mrpc_ret dev_eye_busy (mrpc_log dev_eye_busy @ replicate (Suc j) eye_fetch_call) = 0 \<and>
      status (as_eye_fetch (mrpc_out dev_eye_busy
        (mrpc_log dev_eye_busy @ replicate (Suc j) eye_fetch_call))) = 1"
    by (simp add: dev_eye_busy_def zero_output_def)
  let ?dev = "dev_eye_busy\<lparr>mrpc_log := mrpc_log dev_eye_busy @ replicate 1 eye_fetch_call\<rparr>"
  have a: "mrpc_ret ?dev (mrpc_log ?dev @ [eye_fetch_call]) = 0"
    by (simp add: dev_eye_busy_def)
  have out: "as_eye_fetch (mrpc_out ?dev (mrpc_log ?dev @ [eye_fetch_call])) = eye_answer_busy_then_done"
    by (simp add: dev_eye_busy_def zero_output_def)
  have b: "status (as_eye_fetch (mrpc_out ?dev (mrpc_log ?dev @ [eye_fetch_call]))) = 0"
    unfolding out by (simp add: eye_answer_busy_then_done_def)
  have dc: "data_count_lo eye_answer_busy_then_done = 10"
    "data_count_hi eye_answer_busy_then_done = 0"
    by (simp_all add: eye_answer_busy_then_done_def)
  have lane: "eye_lane_id (lane_mask eye_answer_busy_then_done) [0, 1, 2, 3] 0 = 3"
    using ffs_single_bit [of 2] by (simp add: eye_lane_id_4 eye_answer_busy_then_done_def ffs_0)
  have px: "eye_fetch_pixels eye_answer_busy_then_done 10 (\<lambda>i. NaN) =
      (\<lambda>i. if i < 10 then Fdiv 32768 65536 else NaN)"
    by (intro ext)
      (simp add: pixels_at eye_fetch_pixel_def eye_answer_busy_then_done_def le32toh_def
        cong: if_cong)
  show ?thesis
    unfolding eye_fetch_retries [OF busy] eye_fetch_answer [OF a b] out
    using lane by (simp add: Let_def px dc dev_eye_busy_def del: eye_lane_id.simps)
qed

section \<open>Eye capture: the value of a pixel\<close>

subsection \<open>Rounding\<close>

lemma bl_0: "bit_length 0 = 0"
  by (simp add: bit_length.simps)

lemma bl_upper: "n < 2 ^ bit_length n"
proof (induction n rule: bit_length.induct)
  case (1 n)
  show ?case
  proof (cases "n = 0")
    case True
    then show ?thesis by simp
  next
    case False
    from 1 [OF False] have "n div 2 < 2 ^ bit_length (n div 2)" .
    then have "n < 2 * 2 ^ bit_length (n div 2)" by linarith
    then show ?thesis using False by (subst bit_length.simps) simp
  qed
qed

lemma bl_lower: "0 < n \<Longrightarrow> 2 ^ bit_length n \<le> 2 * n"
proof (induction n rule: bit_length.induct)
  case (1 n)
  then have n: "n \<noteq> 0" by simp
  show ?case
  proof (cases "n div 2 = 0")
    case True
    with n have "n = 1" by linarith
    then show ?thesis by (simp add: bit_length.simps)
  next
    case False
    then have "2 ^ bit_length (n div 2) \<le> 2 * (n div 2)" using 1(1) [OF n] by simp
    also have "\<dots> \<le> n" by simp
    finally show ?thesis using n by (subst bit_length.simps) simp
  qed
qed

lemma bl_eqI: "2 ^ k \<le> n \<Longrightarrow> n < 2 ^ Suc k \<Longrightarrow> bit_length n = Suc k"
proof -
  assume a: "2 ^ k \<le> n" "n < 2 ^ Suc k"
  then have pos: "0 < n" by (metis less_le_trans zero_less_numeral zero_less_power)
  have "(2::nat) ^ k < 2 ^ bit_length n" using a(1) bl_upper [of n] by linarith
  then have 1: "k < bit_length n" by (simp add: power_strict_increasing_iff)
  have "(2::nat) ^ bit_length n < 2 ^ Suc (Suc k)" using bl_lower [OF pos] a(2) by simp
  then have 2: "bit_length n < Suc (Suc k)" by (simp only: power_strict_increasing_iff) 
  from 1 2 show ?thesis by simp
qed

lemma bl_le: "n < 2 ^ k \<Longrightarrow> bit_length n \<le> k"
proof (cases "n = 0")
  case True
  then show ?thesis by (simp add: bl_0)
next
  case False
  assume a: "n < 2 ^ k"
  have "(2::nat) ^ bit_length n \<le> 2 * n" using False by (intro bl_lower) simp
  also have "\<dots> < 2 ^ Suc k" using a by simp
  finally have "bit_length n < Suc k" by (simp only: power_strict_increasing_iff)
  then show ?thesis by simp
qed

lemma rne_exact: "0 < d \<Longrightarrow> d dvd n \<Longrightarrow> round_nearest_even n d = n div d"
  by (auto simp: round_nearest_even_def Let_def)

lemma rne_near: "0 < d \<Longrightarrow> 2 * \<bar>int (round_nearest_even n d * d) - int n\<bar> \<le> int d"
proof -
  assume d: "0 < d"
  have n: "n = n div d * d + n mod d" by simp
  have r: "n mod d < d" using d by simp
  show ?thesis
  proof (cases "d < 2 * (n mod d) \<or> (2 * (n mod d) = d \<and> odd (n div d))")
    case True
    then have q: "round_nearest_even n d = n div d + 1"
      by (simp add: round_nearest_even_def Let_def)
    have "int (round_nearest_even n d * d) - int n = int d - int (n mod d)"
      unfolding q using n by (simp add: algebra_simps) (metis add.commute n of_nat_add of_nat_mult mult.commute)
    then show ?thesis using True r by auto
  next
    case False
    then have q: "round_nearest_even n d = n div d"
      by (simp add: round_nearest_even_def Let_def)
    have "int (round_nearest_even n d * d) - int n = - int (n mod d)"
      unfolding q by (simp add: algebra_simps) (metis add.commute n of_nat_add of_nat_mult mult.commute add_diff_cancel_left' diff_add_cancel)
    then show ?thesis using False r by auto
  qed
qed


lemma u2d_exact: "n < 2 ^ 53 \<Longrightarrow> uint_to_double n = n"
proof -
  assume "n < 2 ^ 53"
  from bl_le [OF this] have "bit_length n - 53 = 0" by simp
  then show ?thesis by (simp add: uint_to_double_def rne_exact)
qed

lemma u2d_near: "2 ^ 53 * \<bar>int (uint_to_double n) - int n\<bar> \<le> int n"
proof (cases "bit_length n \<le> 53")
  case True
  then have "bit_length n - 53 = 0" by simp
  then have "uint_to_double n = n" by (simp add: uint_to_double_def rne_exact)
  then show ?thesis by simp
next
  case False
  define s where "s = bit_length n - 53"
  have bl: "bit_length n = s + 53" using False by (simp add: s_def)
  have pos: "0 < n" using False by (cases "n = 0") (simp_all add: bl_0)
  have u: "uint_to_double n = round_nearest_even n (2 ^ s) * 2 ^ s"
    by (simp add: uint_to_double_def s_def Let_def)
  have "2 * \<bar>int (uint_to_double n) - int n\<bar> \<le> int (2 ^ s)"
    unfolding u by (rule rne_near) simp
  then have "2 ^ 52 * (2 * \<bar>int (uint_to_double n) - int n\<bar>) \<le> 2 ^ 52 * int (2 ^ s)"
    by (intro mult_left_mono) simp_all
  also have "2 ^ 52 * int (2 ^ s) = int (2 ^ (s + 52))"
    by (simp add: power_add)
  also have "\<dots> \<le> int n"
  proof -
    have "(2::nat) ^ (s + 53) \<le> 2 * n" using bl_lower [OF pos] by (simp only: bl)
    moreover have "s + 53 = Suc (s + 52)" by simp
    then have "(2::nat) ^ (s + 53) = 2 * 2 ^ (s + 52)" by (simp only: power_Suc)
    ultimately have "(2::nat) ^ (s + 52) \<le> n" by linarith
    then show ?thesis by (simp only: of_nat_le_iff)
  qed
  finally show ?thesis by simp
qed

lemma u2d_pos: "0 < n \<Longrightarrow> 0 < uint_to_double n"
proof -
  assume pos: "0 < n"
  show ?thesis
  proof (cases "uint_to_double n = 0")
    case True
    with u2d_near [of n] have "2 ^ 53 * int n \<le> int n" by simp
    with pos show ?thesis by simp
  next
    case False
    then show ?thesis by simp
  qed
qed

lemma rne_le: "0 < d \<Longrightarrow> round_nearest_even n d \<le> n div d + 1"
  by (simp add: round_nearest_even_def Let_def)

lemma u2d_repr: "\<exists>m j. uint_to_double n = m * 2 ^ j \<and> m < 2 ^ 53"
proof (cases "bit_length n \<le> 53")
  case True
  have "n < 2 ^ bit_length n" by (rule bl_upper)
  also have "(2::nat) ^ bit_length n \<le> 2 ^ 53" using True by (intro power_increasing) simp_all
  finally have n: "n < 2 ^ 53" .
  then have "uint_to_double n = n * 2 ^ 0" by (simp add: u2d_exact)
  with n show ?thesis by blast
next
  case False
  define s where "s = bit_length n - 53"
  have bl: "bit_length n = s + 53" using False by (simp add: s_def)
  define q where "q = round_nearest_even n (2 ^ s)"
  have u: "uint_to_double n = q * 2 ^ s"
    by (simp add: uint_to_double_def s_def q_def Let_def)
  have "n < 2 ^ (s + 53)" using bl_upper [of n] by (simp only: bl)
  then have "n < 2 ^ 53 * 2 ^ s" by (simp add: power_add mult.commute)
  then have "n div 2 ^ s < 2 ^ 53" by (simp add: less_mult_imp_div_less)
  then have q: "q \<le> 2 ^ 53" using rne_le [of "2 ^ s" n] by (simp add: q_def)
  show ?thesis
  proof (cases "q = 2 ^ 53")
    case True
    then have "uint_to_double n = 1 * 2 ^ (53 + s)" by (simp add: u power_add)
    then show ?thesis by (intro exI [of _ 1] exI [of _ "53 + s"]) simp
  next
    case False
    with q have "q < 2 ^ 53" by simp
    with u show ?thesis by blast
  qed
qed

lemma scale_quot:
  assumes "0 < b"
  shows "real (a * 2 ^ nat (- e)) / real (b * 2 ^ nat e) = real a / real b * 2 powi (- e)"
proof (cases "0 \<le> e")
  case True
  then have "nat (- e) = 0" by simp
  then show ?thesis using True by (simp add: power_int_minus power_int_def field_simps)
next
  case False
  then have "nat e = 0" by simp
  then show ?thesis using False by (simp add: power_int_def field_simps)
qed

lemma pw: "(2::real) powi x * 2 powi y = 2 powi (x + y)"
  by (simp add: power_int_add)

lemma bl_real: "0 < n \<Longrightarrow> 2 powi (int (bit_length n) - 1) \<le> real n \<and> real n < 2 powi (int (bit_length n))"
proof -
  assume pos: "0 < n"
  have u: "real n < 2 ^ bit_length n"
    using bl_upper [of n] by (metis of_nat_less_iff of_nat_numeral of_nat_power)
  have "real (2 ^ bit_length n) \<le> real (2 * n)"
    using bl_lower [OF pos] by (simp only: of_nat_le_iff)
  then have l: "2 ^ bit_length n \<le> 2 * real n" by simp
  have "(2::real) powi (int (bit_length n) - 1) = 2 ^ bit_length n / 2"
    by (simp add: power_int_diff)
  then show ?thesis using u l by simp
qed

lemma div_norm:
  assumes a: "0 < a" and b: "0 < b"
  defines "e0 \<equiv> int (bit_length a) - int (bit_length b) - 53"
  defines "e \<equiv> (if a * 2 ^ nat (- e0) < 2 ^ 53 * (b * 2 ^ nat e0) then e0 else e0 + 1)"
  shows "2 ^ 52 \<le> real a / real b * 2 powi (- e)" "real a / real b * 2 powi (- e) < 2 ^ 53"
proof -
  let ?x = "real a / real b"
  have xpos: "0 < ?x" using a b by simp
  note A = bl_real [OF a] and B = bl_real [OF b]
  have bpos: "0 < real b" using b by simp
  have lo: "2 powi (int (bit_length a) - int (bit_length b) - 1) < ?x"
  proof -
    have "2 powi (int (bit_length a) - int (bit_length b) - 1) * real b
        < 2 powi (int (bit_length a) - int (bit_length b) - 1) * 2 powi (int (bit_length b))"
      using B by (intro mult_strict_left_mono) simp_all
    also have "\<dots> = 2 powi (int (bit_length a) - 1)"
      unfolding pw by simp
    also have "\<dots> \<le> real a" using A by simp
    finally show ?thesis using bpos by (simp add: pos_less_divide_eq)
  qed
  have hi: "?x < 2 powi (int (bit_length a) - int (bit_length b) + 1)"
  proof -
    have "real a < 2 powi (int (bit_length a))" using A by simp
    also have "\<dots> = 2 powi (int (bit_length a) - int (bit_length b) + 1) * 2 powi (int (bit_length b) - 1)"
      unfolding pw by simp
    also have "\<dots> \<le> 2 powi (int (bit_length a) - int (bit_length b) + 1) * real b"
      using B by (intro mult_left_mono) simp_all
    finally show ?thesis using bpos by (simp add: pos_divide_less_eq)
  qed
  have p0: "(2::real) powi (int (bit_length a) - int (bit_length b) - 1) = 2 ^ 52 * 2 powi e0"
    by (simp add: e0_def power_int_diff power_int_add field_simps)
  have p1: "(2::real) powi (int (bit_length a) - int (bit_length b) + 1) = 2 ^ 54 * 2 powi e0"
    by (simp add: e0_def power_int_diff power_int_add field_simps)
  have P: "0 < (2::real) powi e0" by simp
  have inv: "?x * 2 powi (- e0) = ?x / 2 powi e0"
    by (simp add: power_int_minus divide_inverse)
  have y0: "2 ^ 52 < ?x * 2 powi (- e0)" "?x * 2 powi (- e0) < 2 ^ 54"
    using lo hi unfolding p0 p1 inv
    by (simp_all only: pos_less_divide_eq [OF P] pos_divide_less_eq [OF P])
  have test: "a * 2 ^ nat (- e0) < 2 ^ 53 * (b * 2 ^ nat e0) \<longleftrightarrow> ?x * 2 powi (- e0) < 2 ^ 53"
  proof -
    have d: "0 < real (b * 2 ^ nat e0)" using b by simp
    have "a * 2 ^ nat (- e0) < 2 ^ 53 * (b * 2 ^ nat e0) \<longleftrightarrow>
          real (a * 2 ^ nat (- e0)) < real (2 ^ 53 * (b * 2 ^ nat e0))"
      by (simp only: of_nat_less_iff)
    also have "\<dots> \<longleftrightarrow> real (a * 2 ^ nat (- e0)) / real (b * 2 ^ nat e0) < 2 ^ 53"
      using d by (simp add: pos_divide_less_eq)
    finally show ?thesis by (simp only: scale_quot [OF b])
  qed
  show "2 ^ 52 \<le> ?x * 2 powi (- e)" "?x * 2 powi (- e) < 2 ^ 53"
  proof -
    have "2 ^ 52 \<le> ?x * 2 powi (- e) \<and> ?x * 2 powi (- e) < 2 ^ 53"
    proof (cases "a * 2 ^ nat (- e0) < 2 ^ 53 * (b * 2 ^ nat e0)")
      case True
      then have "e = e0" by (simp add: e_def)
      then show ?thesis using y0 True test by simp
    next
      case False
      then have e: "e = e0 + 1" by (simp add: e_def)
      have me: "- e = - e0 + (- 1)" by (simp add: e)
      have "(2::real) powi (- e0 + (- 1)) = 2 powi (- e0) * 2 powi (- 1)"
        by (rule pw [symmetric])
      also have "\<dots> = 2 powi (- e0) / 2"
        by (simp only: power_int_minus1_right divide_inverse)
      finally have pe: "(2::real) powi (- e) = 2 powi (- e0) / 2"
        by (simp only: me)
      have h: "?x * 2 powi (- e) = ?x * 2 powi (- e0) / 2"
        by (simp only: pe times_divide_eq_right)
      have ge: "\<not> ?x * 2 powi (- e0) < 2 ^ 53" using False test by simp
      have "2 ^ 52 \<le> y / 2 \<and> y / 2 < 2 ^ 53"
        if "2 ^ 52 < y" "y < 2 ^ 54" "\<not> y < 2 ^ 53" for y :: real
        using that by simp
      from this [OF y0 ge] show ?thesis unfolding h .
    qed
    then show "2 ^ 52 \<le> ?x * 2 powi (- e)" "?x * 2 powi (- e) < 2 ^ 53" by simp_all
  qed
qed


lemma rne_0: "0 < d \<Longrightarrow> round_nearest_even 0 d = 0"
  by (simp add: round_nearest_even_def)

lemma dd_0: "0 < b \<Longrightarrow> double_div 0 b = 0"
  by (simp add: double_div_def Let_def rne_0)

lemma rne_near_real:
  assumes "0 < d"
  shows "\<bar>real (round_nearest_even n d) - real n / real d\<bar> \<le> 1 / 2"
proof -
  have "real_of_int (2 * \<bar>int (round_nearest_even n d * d) - int n\<bar>) \<le> real_of_int (int d)"
    by (simp only: of_int_le_iff) (rule rne_near [OF assms])
  then have a: "2 * \<bar>real (round_nearest_even n d) * real d - real n\<bar> \<le> real d"
    by simp
  have d: "0 < real d" using assms by simp
  have "real (round_nearest_even n d) - real n / real d =
        (real (round_nearest_even n d) * real d - real n) / real d"
    using d by (simp add: field_simps)
  then have "\<bar>real (round_nearest_even n d) - real n / real d\<bar> =
        \<bar>real (round_nearest_even n d) * real d - real n\<bar> / real d"
    using d by (simp add: abs_divide)
  also have "\<dots> \<le> (real d / 2) / real d"
    using a d by (intro divide_right_mono) simp_all
  also have "\<dots> = 1 / 2" using d by simp
  finally show ?thesis .
qed

lemma dd_unfold:
  assumes a: "0 < a" and b: "0 < b"
  obtains e where
    "double_div a b = real (round_nearest_even (a * 2 ^ nat (- e)) (b * 2 ^ nat e)) * 2 powi e"
    "2 ^ 52 \<le> real a / real b * 2 powi (- e)" "real a / real b * 2 powi (- e) < 2 ^ 53"
proof -
  define e0 where "e0 = int (bit_length a) - int (bit_length b) - 53"
  define e where "e = (if a * 2 ^ nat (- e0) < 2 ^ 53 * (b * 2 ^ nat e0) then e0 else e0 + 1)"
  have 1: "double_div a b = real (round_nearest_even (a * 2 ^ nat (- e)) (b * 2 ^ nat e)) * 2 powi e"
    by (simp only: double_div_def Let_def e_def e0_def)
  note 2 = div_norm [OF a b, folded e0_def, folded e_def]
  from 1 2 show ?thesis by (rule that)
qed

lemma dd_near:
  assumes b: "0 < b"
  shows "\<bar>double_div a b - real a / real b\<bar> \<le> real a / real b / 2 ^ 53"
proof (cases "a = 0")
  case True
  then show ?thesis by (simp add: dd_0 [OF b])
next
  case False
  then have a: "0 < a" by simp
  from dd_unfold [OF a b] obtain e where
    v: "double_div a b = real (round_nearest_even (a * 2 ^ nat (- e)) (b * 2 ^ nat e)) * 2 powi e"
    and lo: "2 ^ 52 \<le> real a / real b * 2 powi (- e)"
    by blast
  let ?N = "a * 2 ^ nat (- e)" and ?D = "b * 2 ^ nat e"
  let ?q = "real (round_nearest_even ?N ?D)"
  let ?x = "real a / real b"
  define P :: real where "P = 2 powi e"
  have P: "0 < P" by (simp add: P_def)
  have inv: "(2::real) powi (- e) = 1 / P" by (simp add: P_def power_int_minus divide_inverse)
  have D: "0 < ?D" using b by simp
  have y: "real ?N / real ?D = ?x / P"
    unfolding scale_quot [OF b] inv by simp
  have "\<bar>?q - ?x / P\<bar> \<le> 1 / 2"
    using rne_near_real [OF D, of ?N] unfolding y .
  then have "\<bar>?q - ?x / P\<bar> * P \<le> 1 / 2 * P"
    using P by (intro mult_right_mono) simp_all
  moreover have "\<bar>?q - ?x / P\<bar> * P = \<bar>?q * P - ?x\<bar>"
  proof -
    have "\<bar>?q - ?x / P\<bar> * P = \<bar>(?q - ?x / P) * P\<bar>" using P by (simp add: abs_mult)
    also have "(?q - ?x / P) * P = ?q * P - ?x" using P by (simp add: field_simps)
    finally show ?thesis .
  qed
  ultimately have 1: "\<bar>?q * P - ?x\<bar> \<le> P / 2" by simp
  have "2 ^ 52 \<le> ?x / P" using lo unfolding inv by simp
  then have "2 ^ 52 * P \<le> ?x" by (simp only: pos_le_divide_eq [OF P])
  then have 2: "P / 2 \<le> ?x / 2 ^ 53" by simp
  show ?thesis unfolding v P_def [symmetric] using 1 2 by linarith
qed

lemma dd_pow2:
  assumes m: "a = m * 2 ^ j" "m < 2 ^ 53"
  shows "double_div a (2 ^ k) = real a / 2 ^ k"
proof (cases "a = 0")
  case True
  then show ?thesis by (simp add: dd_0)
next
  case False
  then have a: "0 < a" by simp
  have b: "0 < (2::nat) ^ k" by simp
  from dd_unfold [OF a b] obtain e where
    v: "double_div a (2 ^ k) =
          real (round_nearest_even (a * 2 ^ nat (- e)) (2 ^ k * 2 ^ nat e)) * 2 powi e"
    and lo: "2 ^ 52 \<le> real a / real (2 ^ k) * 2 powi (- e)"
    by blast
  let ?N = "a * 2 ^ nat (- e)" and ?D = "(2::nat) ^ k * 2 ^ nat e"
  have D: "0 < ?D" by simp
  have y: "real ?N / real ?D = real a / real (2 ^ k) * 2 powi (- e)"
    by (rule scale_quot [OF b])
  have "2 ^ 52 * real ?D \<le> real ?N"
    using lo D unfolding y [symmetric] by (simp add: pos_le_divide_eq)
  then have "real (2 ^ 52 * ?D) \<le> real ?N" by simp
  then have le: "2 ^ 52 * ?D \<le> ?N" by (simp only: of_nat_le_iff)
  have N: "?N = m * 2 ^ (j + nat (- e))" by (simp add: m(1) power_add)
  have Dp: "?D = 2 ^ (k + nat e)" by (simp add: power_add)
  have "(2::nat) ^ (52 + (k + nat e)) \<le> m * 2 ^ (j + nat (- e))"
    using le unfolding N Dp by (simp add: power_add)
  also have "\<dots> < 2 ^ 53 * 2 ^ (j + nat (- e))"
    using m(2) by simp
  also have "\<dots> = 2 ^ (53 + (j + nat (- e)))" by (simp add: power_add)
  finally have "52 + (k + nat e) < 53 + (j + nat (- e))"
    by (simp only: power_strict_increasing_iff) 
  then have "k + nat e \<le> j + nat (- e)" by simp
  then have "(2::nat) ^ (k + nat e) dvd 2 ^ (j + nat (- e))" by (rule le_imp_power_dvd)
  then have dvd: "?D dvd ?N" unfolding N Dp by (rule dvd_mult)
  have "real (round_nearest_even ?N ?D) = real (?N div ?D)"
    by (simp only: rne_exact [OF D dvd])
  also have "\<dots> = real ?N / real ?D" using dvd by (rule real_of_nat_div)
  finally have q: "real (round_nearest_even ?N ?D) = real a / real (2 ^ k) * 2 powi (- e)"
    by (simp only: y)
  have "real a / real (2 ^ k) * 2 powi (- e) * 2 powi e = real a / real (2 ^ k)"
    by (simp add: power_int_minus)
  then show ?thesis unfolding v q by simp
qed


subsection \<open>The decoded values\<close>

lemma bl_2_53_1: "bit_length 9007199254740993 = 54"
  using bl_eqI [of 53 9007199254740993] by simp

lemma u2d_2_53_1: "uint_to_double 9007199254740993 = 9007199254740992"
  by (simp add: uint_to_double_def bl_2_53_1 round_nearest_even_def Let_def)

lemma dv_raw:
  "double_value (eye_fetch_pixel out i pixels i) =
     (case data_mode out of
        SWITCHTEC_DIAG_EYE_RAW \<Rightarrow>
          (let errors = unat (error_cnt_hi (raw out i)) * 2 ^ 32 + unat (error_cnt_lo (raw out i));
               samples = unat (sample_cnt_hi (raw out i)) * 2 ^ 32 + unat (sample_cnt_lo (raw out i))
           in if samples = 0 then Value_NaN
              else Value (double_div (uint_to_double errors) (uint_to_double samples)))
      | SWITCHTEC_DIAG_EYE_RATIO \<Rightarrow> Value (real (unat (ratio out i)) / 65536)
      | SWITCHTEC_DIAG_EYE_MODE_OTHER \<Rightarrow> double_value (pixels i))"
proof (cases "data_mode out")
  case SWITCHTEC_DIAG_EYE_RAW
  then show ?thesis
    by (auto simp: eye_fetch_pixel_def Let_def hi_lo_unat hi_lo_zero)
next
  case SWITCHTEC_DIAG_EYE_RATIO
  have r: "unat (ratio out i) < 2 ^ 53"
    using unsigned_less [of "ratio out i", where 'a = nat] by simp
  have "uint_to_double 65536 = 2 ^ 16" by (simp add: u2d_exact)
  moreover have "double_div (unat (ratio out i)) (2 ^ 16) = real (unat (ratio out i)) / 2 ^ 16"
    using r by (intro dd_pow2 [of _ "unat (ratio out i)" 0]) simp_all
  ultimately show ?thesis
    using SWITCHTEC_DIAG_EYE_RATIO r
    by (simp add: eye_fetch_pixel_def le32toh_def u2d_exact)
next
  case SWITCHTEC_DIAG_EYE_MODE_OTHER
  then show ?thesis by (simp add: eye_fetch_pixel_def)
qed

lemma dv_ber:
  "double_value (gen5_eye_ber w) = Value (real (uint_to_double (unat w)) / 2 ^ 48)"
proof -
  from u2d_repr [of "unat w"] obtain m j where
    m: "uint_to_double (unat w) = m * 2 ^ j" "m < 2 ^ 53" by blast
  have "uint_to_double 281474976710656 = 2 ^ 48" by (simp add: u2d_exact)
  moreover have "double_div (uint_to_double (unat w)) (2 ^ 48) =
      real (uint_to_double (unat w)) / 2 ^ 48"
    by (rule dd_pow2 [OF m])
  ultimately show ?thesis by (simp add: gen5_eye_ber_def le64toh_def)
qed

text \<open>
  C7, as amended. A raw pixel is not-a-number exactly when the sample count is 0.
  Otherwise it is the \<^verbatim>\<open>double\<close> quotient of the error count and the sample count (each
  assembled as high word times \<open>2 ^ 32\<close> plus low word), both converted to \<^verbatim>\<open>double\<close>:
  a conversion changes a count \<open>c\<close> by at most \<open>c / 2 ^ 53\<close>, and the division is off the
  exact quotient of its operands by at most that quotient over \<open>2 ^ 53\<close>. When both
  counts are below \<open>2 ^ 53\<close> they are converted exactly, so the pixel is within that
  bound of \<open>errors / samples\<close>. A ratio pixel is exactly the wire value over 65536. A
  Gen5 BER value is exactly the wire value, converted to \<^verbatim>\<open>double\<close>, over \<open>2 ^ 48\<close>;
  it is the wire value over \<open>2 ^ 48\<close> when the wire value is below \<open>2 ^ 53\<close>.
\<close>

theorem eye_pixel_values:
  fixes out :: switchtec_diag_port_eye_fetch and i n :: nat and w :: "64 word"
    and pixels :: "nat \<Rightarrow> double"
  defines "errors \<equiv> unat (error_cnt_hi (raw out i)) * 2 ^ 32 + unat (error_cnt_lo (raw out i))"
  defines "samples \<equiv> unat (sample_cnt_hi (raw out i)) * 2 ^ 32 + unat (sample_cnt_lo (raw out i))"
  defines "px \<equiv> eye_fetch_pixels out n pixels i"
  assumes i: "i < n"
  shows "(data_mode out = SWITCHTEC_DIAG_EYE_RAW \<longrightarrow>
            (double_value px = Value_NaN \<longleftrightarrow> samples = 0) \<and>
            (samples \<noteq> 0 \<longrightarrow>
               double_value px =
                 Value (double_div (uint_to_double errors) (uint_to_double samples)) \<and>
               \<bar>double_div (uint_to_double errors) (uint_to_double samples)
                  - real (uint_to_double errors) / real (uint_to_double samples)\<bar>
                 \<le> real (uint_to_double errors) / real (uint_to_double samples) / 2 ^ 53 \<and>
               2 ^ 53 * \<bar>int (uint_to_double errors) - int errors\<bar> \<le> int errors \<and>
               2 ^ 53 * \<bar>int (uint_to_double samples) - int samples\<bar> \<le> int samples) \<and>
            (samples \<noteq> 0 \<and> errors < 2 ^ 53 \<and> samples < 2 ^ 53 \<longrightarrow>
               double_value px = Value (double_div errors samples) \<and>
               \<bar>double_div errors samples - real errors / real samples\<bar>
                 \<le> real errors / real samples / 2 ^ 53)) \<and>
         (data_mode out = SWITCHTEC_DIAG_EYE_RATIO \<longrightarrow>
            double_value px = Value (real (unat (ratio out i)) / 65536)) \<and>
         double_value (gen5_eye_ber w) = Value (real (uint_to_double (unat w)) / 2 ^ 48) \<and>
         2 ^ 53 * \<bar>int (uint_to_double (unat w)) - int (unat w)\<bar> \<le> int (unat w) \<and>
         (unat w < 2 ^ 53 \<longrightarrow> double_value (gen5_eye_ber w) = Value (real (unat w) / 2 ^ 48))"
proof -
  have px: "px = eye_fetch_pixel out i pixels i"
    using i by (simp add: px_def pixels_at)
  note v = dv_raw [of out i pixels, folded px, folded errors_def samples_def]
  have raw: "(double_value px = Value_NaN \<longleftrightarrow> samples = 0) \<and>
            (samples \<noteq> 0 \<longrightarrow>
               double_value px =
                 Value (double_div (uint_to_double errors) (uint_to_double samples)) \<and>
               \<bar>double_div (uint_to_double errors) (uint_to_double samples)
                  - real (uint_to_double errors) / real (uint_to_double samples)\<bar>
                 \<le> real (uint_to_double errors) / real (uint_to_double samples) / 2 ^ 53 \<and>
               2 ^ 53 * \<bar>int (uint_to_double errors) - int errors\<bar> \<le> int errors \<and>
               2 ^ 53 * \<bar>int (uint_to_double samples) - int samples\<bar> \<le> int samples) \<and>
            (samples \<noteq> 0 \<and> errors < 2 ^ 53 \<and> samples < 2 ^ 53 \<longrightarrow>
               double_value px = Value (double_div errors samples) \<and>
               \<bar>double_div errors samples - real errors / real samples\<bar>
                 \<le> real errors / real samples / 2 ^ 53)"
    if mode: "data_mode out = SWITCHTEC_DIAG_EYE_RAW"
  proof (cases "samples = 0")
    case True
    then show ?thesis using v mode by (simp add: Let_def)
  next
    case False
    then have pos: "0 < samples" by simp
    have val: "double_value px =
        Value (double_div (uint_to_double errors) (uint_to_double samples))"
      using v mode False by (simp add: Let_def)
    have n1: "\<bar>double_div (uint_to_double errors) (uint_to_double samples)
                  - real (uint_to_double errors) / real (uint_to_double samples)\<bar>
                 \<le> real (uint_to_double errors) / real (uint_to_double samples) / 2 ^ 53"
      by (rule dd_near [OF u2d_pos [OF pos]])
    have n2: "\<bar>double_div errors samples - real errors / real samples\<bar>
                 \<le> real errors / real samples / 2 ^ 53"
      by (rule dd_near [OF pos])
    have ex: "double_value px = Value (double_div errors samples)"
      if "errors < 2 ^ 53" "samples < 2 ^ 53"
      using that val by (simp add: u2d_exact)
    show ?thesis using False val n1 n2 ex u2d_near [of errors] u2d_near [of samples] by simp
  qed
  have ratio: "double_value px = Value (real (unat (ratio out i)) / 65536)"
    if "data_mode out = SWITCHTEC_DIAG_EYE_RATIO"
    using v that by simp
  have ber: "double_value (gen5_eye_ber w) = Value (real (unat w) / 2 ^ 48)"
    if "unat w < 2 ^ 53"
    using that by (simp add: dv_ber u2d_exact)
  show ?thesis using raw ratio ber dv_ber [of w] u2d_near [of "unat w"] by blast
qed

text \<open>
  The claim as stated fails for the BER value: the wire value \<open>2 ^ 53 + 1\<close> is
  converted to \<open>2 ^ 53\<close>, so the value is 32 and not \<open>(2 ^ 53 + 1) / 2 ^ 48\<close>.
\<close>

theorem eye_pixel_values_counterexample:
  "double_value (gen5_eye_ber 9007199254740993) = Value 32 \<and>
   real (unat (9007199254740993 :: 64 word)) / 2 ^ 48 \<noteq> 32"
  by (simp add: dv_ber u2d_2_53_1)

text \<open>
  One error in four samples is the pixel 1/4, no samples give not-a-number, the ratio
  32768 and the BER wire value \<open>2 ^ 47\<close> are both 1/2.
\<close>

theorem eye_pixel_values_witness:
  "double_value (eye_fetch_pixels eye_answer_raw 1 (\<lambda>i. NaN) 0) = Value (1 / 4) \<and>
   double_value (eye_fetch_pixels zero_eye_fetch 1 (\<lambda>i. Fdiv 1 1) 0) = Value_NaN \<and>
   double_value (eye_fetch_pixels eye_answer_busy_then_done 10 (\<lambda>i. NaN) 9) = Value (1 / 2) \<and>
   double_value (gen5_eye_ber 140737488355328) = Value (1 / 2)"
proof -
  have d: "double_div (Suc 0) 4 = 1 / 4"
    using dd_pow2 [of 1 1 0 2] by simp
  have 1: "double_value (eye_fetch_pixels eye_answer_raw 1 (\<lambda>i. NaN) 0) = Value (1 / 4)"
    using eye_pixel_values [of 0 1 eye_answer_raw "\<lambda>i. NaN" 0]
    by (simp add: eye_answer_raw_def zero_eye_fetch_def d u2d_exact)
  have 2: "double_value (eye_fetch_pixels zero_eye_fetch 1 (\<lambda>i. Fdiv 1 1) 0) = Value_NaN"
    using eye_pixel_values [of 0 1 zero_eye_fetch "\<lambda>i. Fdiv 1 1"]
    by (simp add: zero_eye_fetch_def)
  have 3: "double_value (eye_fetch_pixels eye_answer_busy_then_done 10 (\<lambda>i. NaN) 9) = Value (1 / 2)"
    using eye_pixel_values [of 9 10 eye_answer_busy_then_done "\<lambda>i. NaN"]
    by (simp add: eye_answer_busy_then_done_def)
  have "unat (140737488355328 :: 64 word) < 2 ^ 53 \<longrightarrow>
      double_value (gen5_eye_ber 140737488355328) =
        Value (real (unat (140737488355328 :: 64 word)) / 2 ^ 48)"
    using eye_pixel_values [where i = 0 and n = 1 and out = zero_eye_fetch
        and pixels = "\<lambda>i. NaN" and w = 140737488355328, OF zero_less_one]
    by blast
  then have 4: "double_value (gen5_eye_ber 140737488355328) = Value (1 / 2)"
    by simp
  from 1 2 3 4 show ?thesis by simp
qed

section \<open>LTSSM log: decoding\<close>

lemma or_push_bit_8:
  fixes a b :: int
  assumes "0 \<le> a" "a < 256"
  shows "a OR push_bit 8 b = a + 256 * b"
proof -
  have a: "take_bit 8 a = a" using assms by (simp add: take_bit_int_eq_self)
  have "take_bit 8 a AND push_bit 8 b = 0"
    by (rule bit_eqI) (auto simp: bit_simps)
  then have "a AND push_bit 8 b = 0" by (simp only: a)
  from disjunctive_add_eq_or [OF this] show ?thesis by (simp add: push_bit_eq_mult)
qed

lemma nibble_bound: "uint ((x :: 32 word) AND 0xf) < 16"
proof -
  have "x AND 0xf \<le> 0xf" by (rule word_and_le1)
  then have "uint (x AND 0xf) \<le> uint (0xf :: 32 word)" by (simp only: word_le_def)
  then show ?thesis by simp
qed

lemma nibble_arith:
  "uint (drop_bit k (w :: 32 word) AND 0xf) = (uint w div 2 ^ k) mod 16"
proof -
  have m: "(0xf :: 32 word) = mask 4" by (simp add: mask_eq_exp_minus_1)
  have "uint (drop_bit k w AND 0xf) = uint (take_bit 4 (drop_bit k w))"
    by (simp only: m take_bit_eq_mask)
  also have "\<dots> = take_bit 4 (drop_bit k (uint w))"
  proof -
    have "take_bit 32 (uint w) = uint w"
      using uint_bounded [of w] by (simp add: take_bit_int_eq_self)
    then show ?thesis by (simp add: unsigned_take_bit_eq unsigned_drop_bit_eq)
  qed
  also have "\<dots> = (uint w div 2 ^ k) mod 16"
    by (simp add: take_bit_eq_mod drop_bit_eq_div)
  finally show ?thesis .
qed

lemma decode4_nth:
  "i < n \<Longrightarrow> ltssm_decode_gen4 tr buf n ld i = ltssm_log_entry_gen4 tr (buf i)"
  by (induction n) (auto simp: less_Suc_eq)

lemma decode5_at:
  "ltssm_decode_gen5 tr buf c n ld k =
     (if c \<le> k \<and> k < c + n then ltssm_log_entry_gen5 tr (buf (k - c)) else ld k)"
  by (induction n) (auto simp: less_Suc_eq)

lemma decode5_nth:
  "i < n \<Longrightarrow> ltssm_decode_gen5 tr buf c n ld (c + i) = ltssm_log_entry_gen5 tr (buf i)"
  by (simp add: decode5_at)

text \<open>
  C3, as amended. Every entry the decode loops write has, in both generations,
  \<open>link_state = major OR (minor << 8)\<close>: the major state is the low byte and the
  minor state the byte above it (\<open>major + 256 * minor\<close>), not \<open>major << 8 OR minor\<close>.
  For Gen4 the major state is bits 7 to 10 and the minor state bits 3 to 6 of the first
  word of the wire record; for Gen5 they are the bit-fields of the record.
\<close>

theorem ltssm_link_state:
  "(i < n \<longrightarrow>
      link_state (ltssm_decode_gen4 tr buf4 n ld i)
        = ltssm_major_gen4 (buf4 i) OR push_bit 8 (ltssm_minor_gen4 (buf4 i)) \<and>
      link_state (ltssm_decode_gen4 tr buf4 n ld i)
        = ltssm_major_gen4 (buf4 i) + 256 * ltssm_minor_gen4 (buf4 i) \<and>
      ltssm_major_gen4 (buf4 i) = (uint (dw0 (buf4 i)) div 128) mod 16 \<and>
      ltssm_minor_gen4 (buf4 i) = (uint (dw0 (buf4 i)) div 8) mod 16) \<and>
   (i < n \<longrightarrow>
      link_state (ltssm_decode_gen5 tr buf5 cur n ld (cur + i))
        = uint (major (buf5 i)) OR push_bit 8 (uint (minor (buf5 i))) \<and>
      link_state (ltssm_decode_gen5 tr buf5 cur n ld (cur + i))
        = uint (major (buf5 i)) + 256 * uint (minor (buf5 i)))"
proof -
  have m4: "0 \<le> ltssm_major_gen4 (buf4 i)" "ltssm_major_gen4 (buf4 i) < 256"
    using nibble_bound [of "drop_bit 7 (dw0 (buf4 i))"] by (simp_all add: ltssm_major_gen4_def)
  have "uint (major (buf5 i)) < 2 ^ 6"
    using uint_bounded [of "major (buf5 i)"] by simp
  then have m5: "0 \<le> uint (major (buf5 i))" "uint (major (buf5 i)) < 256" by simp_all
  have a4: "ltssm_major_gen4 (buf4 i) = (uint (dw0 (buf4 i)) div 128) mod 16"
    "ltssm_minor_gen4 (buf4 i) = (uint (dw0 (buf4 i)) div 8) mod 16"
    using nibble_arith [of 7 "dw0 (buf4 i)"] nibble_arith [of 3 "dw0 (buf4 i)"]
    by (simp_all add: ltssm_major_gen4_def ltssm_minor_gen4_def)
  have g4: "i < n \<Longrightarrow> link_state (ltssm_decode_gen4 tr buf4 n ld i)
        = ltssm_major_gen4 (buf4 i) OR push_bit 8 (ltssm_minor_gen4 (buf4 i))"
    by (simp add: decode4_nth ltssm_log_entry_gen4_def Let_def
        ltssm_major_gen4_def ltssm_minor_gen4_def)
  have g5: "i < n \<Longrightarrow> link_state (ltssm_decode_gen5 tr buf5 cur n ld (cur + i))
        = uint (major (buf5 i)) OR push_bit 8 (uint (minor (buf5 i)))"
    by (simp add: decode5_nth ltssm_log_entry_gen5_def Let_def)
  show ?thesis
    using g4 g5 a4 or_push_bit_8 [OF m4] or_push_bit_8 [OF m5] by simp
qed

text \<open>
  The claim as stated fails on a record with major state 2 and minor state 3 (for Gen4
  the word 280): the code stores 770, the claim's formula gives 515.
\<close>

theorem ltssm_link_state_counterexample:
  "link_state (ltssm_decode_gen4 (\<lambda>i. i) (\<lambda>i. \<lparr>dw0 = 280, dw1 = 5\<rparr>) 1 (\<lambda>i. zero_ltssm_log) 0)
     \<noteq> push_bit 8 (ltssm_major_gen4 \<lparr>dw0 = 280, dw1 = 5\<rparr>)
         OR ltssm_minor_gen4 \<lparr>dw0 = 280, dw1 = 5\<rparr> \<and>
   link_state (ltssm_decode_gen5 (\<lambda>i. i) (\<lambda>i. zero_log_buffer\<lparr>major := 2, minor := 3\<rparr>) 0 1
                 (\<lambda>i. zero_ltssm_log) 0)
     \<noteq> push_bit 8 (uint (major (zero_log_buffer\<lparr>major := 2, minor := 3\<rparr>)))
         OR uint (minor (zero_log_buffer\<lparr>major := 2, minor := 3\<rparr>))"
  by (simp add: ltssm_log_entry_gen4_def ltssm_log_entry_gen5_def ltssm_major_gen4_def
      ltssm_minor_gen4_def zero_log_buffer_def Let_def)

text \<open>The same two records under the amended claim.\<close>

theorem ltssm_link_state_witness:
  "link_state (ltssm_decode_gen4 (\<lambda>i. i) (\<lambda>i. \<lparr>dw0 = 280, dw1 = 5\<rparr>) 1 (\<lambda>i. zero_ltssm_log) 0)
     = 770 \<and>
   link_state (ltssm_decode_gen5 (\<lambda>i. i) (\<lambda>i. zero_log_buffer\<lparr>major := 2, minor := 3\<rparr>) 0 1
                 (\<lambda>i. zero_ltssm_log) 0) = 770"
  using ltssm_link_state [of 0 1 "\<lambda>i. i" "\<lambda>i. \<lparr>dw0 = 280, dw1 = 5\<rparr>" "\<lambda>i. zero_ltssm_log"
      "\<lambda>i. zero_log_buffer\<lparr>major := 2, minor := 3\<rparr>" 0]
  by (simp add: ltssm_major_gen4_def ltssm_minor_gen4_def zero_log_buffer_def)

section \<open>LTSSM log: the requests of a retrieval\<close>

subsection \<open>Requests and answers\<close>

lemma not_dump [simp]:
  "\<not> is_log_dump (ltssm_freeze_call port f)" "\<not> is_log_dump (ltssm_status_call s port)"
  "is_log_dump (chunk_call_gen5 port p)" "is_log_dump (ltssm_dump_call_gen4 port i n)"
  by (simp_all add: is_log_dump_def ltssm_freeze_call_def ltssm_status_call_def
      chunk_call_gen5_def ltssm_dump_call_gen5_def ltssm_dump_call_gen4_def)

lemma freeze_neq [simp]:
  "ltssm_freeze_call port 0 \<noteq> ltssm_freeze_call port 1"
  "ltssm_freeze_call port f \<noteq> ltssm_status_call s port"
  "ltssm_freeze_call port f \<noteq> ltssm_dump_call_gen4 port i n"
  "ltssm_freeze_call port f \<noteq> chunk_call_gen5 port p"
  by (simp_all add: ltssm_freeze_call_def ltssm_status_call_def ltssm_dump_call_gen4_def
      chunk_call_gen5_def ltssm_dump_call_gen5_def)

lemma answers_append: "answers r h (xs @ ys) = answers r h xs @ answers r (h @ xs) ys"
  by (induction xs arbitrary: h) auto

lemma answers_all_ok:
  "(\<And>h. r h = 0) \<Longrightarrow> filter (\<lambda>a. P a \<and> snd a \<noteq> 0) (answers r h cs) = []"
  by (induction cs arbitrary: h) auto

lemma no_failed_dumps: "(\<And>h. mrpc_ret dev h = 0) \<Longrightarrow> failed_dumps dev dev' = []"
  by (simp add: failed_dumps_def transcript_def answers_all_ok)

lemma failed_iff:
  "filter (\<lambda>a. snd a \<noteq> 0) xs = [] \<longleftrightarrow> \<not> list_ex (\<lambda>a. snd a \<noteq> 0) xs"
  by (simp add: filter_empty_conv list_ex_iff)

lemma filter_answers_dumps:
  "\<forall>c \<in> set cs. is_log_dump c \<Longrightarrow>
   filter (\<lambda>a. is_log_dump (fst a) \<and> snd a \<noteq> 0) (answers r h cs) =
   filter (\<lambda>a. snd a \<noteq> 0) (answers r h cs)"
  by (induction cs arbitrary: h) auto

lemma dump_chunks_append: "dump_chunks (xs @ ys) = dump_chunks xs @ dump_chunks ys"
  by (simp add: dump_chunks_def)

lemma dump_chunks_simps [simp]:
  "dump_chunks [] = []"
  "dump_chunks (ltssm_freeze_call port f # cs) = dump_chunks cs"
  "dump_chunks (ltssm_status_call s port # cs) = dump_chunks cs"
  "dump_chunks (ltssm_dump_call_gen4 port i n # cs) = (unat i, unat n) # dump_chunks cs"
  "dump_chunks (ltssm_dump_call_gen5 port j m # cs) = (unat j, unat m) # dump_chunks cs"
  by (simp_all add: dump_chunks_def dump_chunk_def ltssm_freeze_call_def ltssm_status_call_def
      ltssm_dump_call_gen4_def ltssm_dump_call_gen5_def)

lemma dump_chunks_calls:
  "\<forall>p \<in> set ps. fst p < 65536 \<and> snd p < 65536 \<Longrightarrow>
   dump_chunks (map (chunk_call_gen5 port) ps) = ps"
  by (induction ps) (auto simp: chunk_call_gen5_def unat_of_nat)

subsection \<open>Gen4\<close>

text \<open>What a Gen4 retrieval does once the freeze and the status request have succeeded.\<close>

lemma gen4_unfold:
  fixes log_count :: int and dev :: switchtec_dev and port :: int
  assumes fz: "mrpc_ret dev (mrpc_log dev @ [ltssm_freeze_call port 1]) = 0"
    and st: "mrpc_ret dev (mrpc_log dev @ [ltssm_freeze_call port 1, ltssm_status_call 13 port]) = 0"
  defines "h \<equiv> mrpc_log dev @ [ltssm_freeze_call port 1, ltssm_status_call 13 port]"
  defines "n \<equiv> (let k = uint (log_num (as_status_gen4 (mrpc_out dev h)))
                 in if k < log_count then k else log_count)"
  defines "w \<equiv> (word_of_int n :: 8 word)"
  defines "w2 \<equiv> (word_of_int (n - 126) :: 8 word)"
  shows "switchtec_diag_ltssm_log_gen4 tr dev port log_count ld =
    (if w \<le> 126 then
       (let h1 = h @ [ltssm_dump_call_gen4 port 0 w] in
        if mrpc_ret dev h1 \<noteq> 0 then (mrpc_ret dev h1, n, ld, dev\<lparr>mrpc_log := h1\<rparr>)
        else (mrpc_ret dev (h1 @ [ltssm_freeze_call port 0]), n,
              ltssm_decode_gen4 tr
                (copy_resp 0 (unat w) (as_log_dump_gen4 (mrpc_out dev h1))
                   (\<lambda>i. \<lparr>dw0 = 0, dw1 = 0\<rparr>)) (nat n) ld,
              dev\<lparr>mrpc_log := h1 @ [ltssm_freeze_call port 0]\<rparr>))
     else
       (let h1 = h @ [ltssm_dump_call_gen4 port 0 126];
            h2 = h1 @ [ltssm_dump_call_gen4 port 126 w2] in
        if mrpc_ret dev h1 \<noteq> 0 then (mrpc_ret dev h1, n, ld, dev\<lparr>mrpc_log := h1\<rparr>)
        else if mrpc_ret dev h2 \<noteq> 0 then (mrpc_ret dev h2, n, ld, dev\<lparr>mrpc_log := h2\<rparr>)
        else (mrpc_ret dev (h2 @ [ltssm_freeze_call port 0]), n,
              ltssm_decode_gen4 tr
                (copy_resp 126 (unat w2) (as_log_dump_gen4 (mrpc_out dev h2))
                   (copy_resp 0 126 (as_log_dump_gen4 (mrpc_out dev h1))
                      (\<lambda>i. \<lparr>dw0 = 0, dw1 = 0\<rparr>))) (nat n) ld,
              dev\<lparr>mrpc_log := h2 @ [ltssm_freeze_call port 0]\<rparr>)))"
  using fz st unfolding h_def n_def w_def w2_def
  by (simp add: switchtec_diag_ltssm_log_gen4_def ltssm_log_gen4_decode_unfreeze_def
      switchtec_cmd_def ltssm_freeze_call_def ltssm_status_call_def ltssm_dump_call_gen4_def
      Let_def)



subsection \<open>Gen5: the loop and the list of chunks\<close>

lemma chunks_0: "ltssm_chunks_gen5 cur 0 = []"
  by (simp add: ltssm_chunks_gen5_def)

lemma chunks_small: "0 < n \<Longrightarrow> n \<le> 63 \<Longrightarrow> ltssm_chunks_gen5 cur n = [(cur, n)]"
proof -
  assume a: "0 < n" "n \<le> 63"
  then have "(n + 62) div 63 = 1" by simp
  then show ?thesis using a by (simp add: ltssm_chunks_gen5_def)
qed

lemma chunks_big:
  assumes "63 < n"
  shows "ltssm_chunks_gen5 cur n = (cur, 63) # ltssm_chunks_gen5 (cur + 63) (n - 63)"
proof -
  have d: "(n + 62) div 63 = Suc ((n - 63 + 62) div 63)"
    using assms by (simp add: div_eq_dividend_iff)
  have "[0..<Suc ((n - 63 + 62) div 63)] = 0 # map Suc [0..<(n - 63 + 62) div 63]"
    by (simp add: upt_conv_Cons map_Suc_upt del: upt_Suc)
  then show ?thesis
    using assms by (simp add: ltssm_chunks_gen5_def d comp_def del: upt_Suc)
qed

lemma chunk_bounds:
  "p \<in> set (ltssm_chunks_gen5 0 n) \<Longrightarrow> fst p < n \<and> snd p \<le> 63"
  by (auto simp: ltssm_chunks_gen5_def)

lemma chunk_nth:
  "k < length (ltssm_chunks_gen5 cur n) \<Longrightarrow>
   ltssm_chunks_gen5 cur n ! k = (cur + 63 * k, min 63 (n - 63 * k))"
  by (simp add: ltssm_chunks_gen5_def)

lemma chunks_130: "ltssm_chunks_gen5 0 130 = [(0, 63), (63, 63), (126, 4)]"
  by (simp add: ltssm_chunks_gen5_def upt_conv_Cons)

lemma loop_refines:
  "ltssm_dump_loop_gen5 tr dev port cur avail ld =
     (let res = issue_chunks_gen5 tr (mrpc_ret dev) (mrpc_out dev) port (mrpc_log dev)
                  (ltssm_chunks_gen5 cur (nat avail)) ld
      in (fst res, dev\<lparr>mrpc_log := snd res\<rparr>))"
proof (induction tr dev port cur avail ld rule: ltssm_dump_loop_gen5.induct)
  case (1 tr dev port cur avail ld)
  show ?case
  proof (cases "avail \<le> 0")
    case True
    then show ?thesis
      by (subst ltssm_dump_loop_gen5.simps) (simp add: chunks_0)
  next
    case False
    then have pos: "0 < avail" by simp
    show ?thesis
    proof (cases "63 < avail")
      case True
      then have big: "63 < nat avail" by simp
      have w: "uint (63 :: 16 word) = 63" "unat (63 :: 16 word) = 63" by simp_all
      show ?thesis
        using True pos "1.IH" [OF pos refl refl]
        apply (subst ltssm_dump_loop_gen5.simps)
        apply (simp add: chunks_big [OF big] MAX_LOG_READ_def Let_def switchtec_cmd_def
            ltssm_dump_call_gen5_def nat_diff_distrib)
        done
    next
      case False
      with pos have small: "0 < nat avail" "nat avail \<le> 63" by simp_all
      have u: "uint (word_of_int avail :: 16 word) = avail"
        using pos False by (simp add: uint_word_of_int take_bit_int_eq_self)
      have n: "(word_of_nat (nat avail) :: 16 word) = word_of_int avail"
        using pos by simp
      have un: "unat (word_of_int avail :: 16 word) = nat avail"
        using u by (simp add: unat_eq_nat_uint)
      show ?thesis
        using False pos
        apply (subst ltssm_dump_loop_gen5.simps)
        apply (simp add: chunks_small [OF small] MAX_LOG_READ_def Let_def switchtec_cmd_def
            ltssm_dump_call_gen5_def u n un)
        done
    qed
  qed
qed

lemma issue_log:
  "snd (issue_chunks_gen5 tr r outf port h ps ld) =
     h @ take (issued r h (map (chunk_call_gen5 port) ps)) (map (chunk_call_gen5 port) ps)"
  by (induction ps arbitrary: h ld) (auto simp: Let_def chunk_call_gen5_def)

lemma issued_all_ok:
  "\<not> list_ex (\<lambda>a. snd a \<noteq> 0) (answers r h (take (issued r h cs) cs)) \<Longrightarrow>
   issued r h cs = length cs"
  by (induction cs arbitrary: h) (auto split: if_splits)

lemma issued_fail_last:
  "list_ex (\<lambda>a. snd a \<noteq> 0) (answers r h (take (issued r h cs) cs)) \<Longrightarrow>
   0 < issued r h cs \<and> r (h @ take (issued r h cs) cs) \<noteq> 0"
proof (induction cs arbitrary: h)
  case Nil
  then show ?case by simp
next
  case (Cons c cs)
  show ?case
  proof (cases "r (h @ [c]) = 0")
    case True
    with Cons.prems
    have "list_ex (\<lambda>a. snd a \<noteq> 0) (answers r (h @ [c]) (take (issued r (h @ [c]) cs) cs))"
      by simp
    from Cons.IH [OF this] True show ?thesis by simp
  next
    case False
    then show ?thesis by simp
  qed
qed

lemma issue_data:
  "fst (issue_chunks_gen5 tr r outf port h (ltssm_chunks_gen5 cur n) ld) i =
     (let cs = map (chunk_call_gen5 port) (ltssm_chunks_gen5 cur n)
      in if cur \<le> i \<and> i < cur + decoded_gen5 r h cs n
         then ltssm_log_entry_gen5 tr
                (as_log_buffer (outf (h @ take (Suc ((i - cur) div 63)) cs))
                   ((i - cur) mod 63))
         else ld i)"
proof (induction n arbitrary: cur h ld rule: less_induct)
  case (less n)
  consider "n = 0" | "0 < n" "n \<le> 63" | "63 < n" by linarith
  then show ?case
  proof cases
    case 1
    then show ?thesis by (auto simp: chunks_0 decoded_gen5_def)
  next
    case 2
    then show ?thesis
      by (auto simp: chunks_small decoded_gen5_def Let_def decode5_at chunk_call_gen5_def)
  next
    case 3
    let ?c = "chunk_call_gen5 port (cur, 63)"
    let ?rest = "ltssm_chunks_gen5 (cur + 63) (n - 63)"
    let ?cs' = "map (chunk_call_gen5 port) ?rest"
    have ch: "ltssm_chunks_gen5 cur n = (cur, 63) # ?rest"
      by (rule chunks_big [OF 3])
    show ?thesis
    proof (cases "r (h @ [?c]) = 0")
      case False
      then show ?thesis
        by (auto simp: ch decoded_gen5_def Let_def chunk_call_gen5_def)
    next
      case True
      let ?ld1 = "ltssm_decode_gen5 tr (as_log_buffer (outf (h @ [?c]))) cur 63 ld"
      have step: "fst (issue_chunks_gen5 tr r outf port h (ltssm_chunks_gen5 cur n) ld) i =
          fst (issue_chunks_gen5 tr r outf port (h @ [?c]) ?rest ?ld1) i"
        using True by (simp add: ch Let_def chunk_call_gen5_def)
      have lt: "n - 63 < n" using 3 by simp
      note ih = less.IH [OF lt, of "h @ [?c]" "cur + 63" ?ld1]
      have dec: "decoded_gen5 r h (?c # ?cs') n = 63 + decoded_gen5 r (h @ [?c]) ?cs' (n - 63)"
      proof (cases "list_ex (\<lambda>a. snd a \<noteq> 0)
                      (answers r (h @ [?c]) (take (issued r (h @ [?c]) ?cs') ?cs'))")
        case f: True
        from issued_fail_last [OF f] have "0 < issued r (h @ [?c]) ?cs'" by simp
        then show ?thesis using True f by (simp add: decoded_gen5_def)
      next
        case False
        then show ?thesis using True 3 by (simp add: decoded_gen5_def)
      qed
      show ?thesis
      proof (cases "cur + 63 \<le> i")
        case hi: True
        then have d: "(i - cur) div 63 = Suc ((i - (cur + 63)) div 63)"
          "(i - cur) mod 63 = (i - (cur + 63)) mod 63"
          by (simp_all add: le_div_geq le_mod_geq)
        show ?thesis
          unfolding step ih
          using hi by (auto simp: ch dec Let_def d decode5_at)
      next
        case lo: False
        then have d: "(i - cur) div 63 = 0" "(i - cur) mod 63 = i - cur" by simp_all
        show ?thesis
          unfolding step ih
          using lo by (auto simp: ch dec Let_def d decode5_at)
      qed
    qed
  qed
qed

lemma clamp_gen5_bound: "nat (clamp_gen5 dev port log_count) < 65536"
proof -
  have "uint (w :: 16 word) < 65536" for w
    using uint_bounded [of w] by simp
  from this [of "trig_cnt (as_status_gen5 (mrpc_out dev
          (mrpc_log dev @ [ltssm_freeze_call port 1, ltssm_status_call 20 port])))"]
  have "clamp_gen5 dev port log_count < 65536"
    by (simp add: clamp_gen5_def)
  then show ?thesis by linarith
qed

text \<open>What a Gen5 retrieval does once the freeze and the status request have succeeded.\<close>

lemma gen5_unfold:
  fixes log_count :: int and dev :: switchtec_dev and port :: int
  assumes fz: "mrpc_ret dev (mrpc_log dev @ [ltssm_freeze_call port 1]) = 0"
    and st: "mrpc_ret dev (mrpc_log dev @ [ltssm_freeze_call port 1, ltssm_status_call 20 port]) = 0"
  shows "switchtec_diag_ltssm_log_gen5 tr dev port log_count ld =
    (let h = mrpc_log dev @ [ltssm_freeze_call port 1, ltssm_status_call 20 port];
         n = clamp_gen5 dev port log_count;
         res = issue_chunks_gen5 tr (mrpc_ret dev) (mrpc_out dev) port h
                 (ltssm_chunks_gen5 0 (nat n)) ld;
         h' = snd res @ [ltssm_freeze_call port 0]
     in (mrpc_ret dev h', n, fst res, dev\<lparr>mrpc_log := h'\<rparr>))"
  using fz st
  unfolding switchtec_diag_ltssm_log_gen5_def loop_refines
  by (simp add: clamp_gen5_def switchtec_cmd_def ltssm_freeze_call_def ltssm_status_call_def
      min_def Let_def del: ltssm_dump_loop_gen5.simps issue_chunks_gen5.simps)

lemma gen5_run:
  fixes log_count :: int and dev :: switchtec_dev and port :: int
  assumes run: "switchtec_diag_ltssm_log_gen5 tr dev port log_count ld = (ret, cnt, ld', dev')"
    and fz: "mrpc_ret dev (mrpc_log dev @ [ltssm_freeze_call port 1]) = 0"
    and st: "mrpc_ret dev (mrpc_log dev @ [ltssm_freeze_call port 1, ltssm_status_call 20 port]) = 0"
  defines "h \<equiv> mrpc_log dev @ [ltssm_freeze_call port 1, ltssm_status_call 20 port]"
  defines "cs \<equiv> map (chunk_call_gen5 port) (ltssm_chunks_gen5 0 (nat cnt))"
  defines "m \<equiv> issued (mrpc_ret dev) h cs"
  shows "cnt = clamp_gen5 dev port log_count"
    and "mrpc_log dev' = h @ take m cs @ [ltssm_freeze_call port 0]"
    and "new_calls dev dev' =
           [ltssm_freeze_call port 1, ltssm_status_call 20 port] @ take m cs
             @ [ltssm_freeze_call port 0]"
    and "ret = mrpc_ret dev (mrpc_log dev')"
    and "failed_dumps dev dev' = filter (\<lambda>a. snd a \<noteq> 0) (answers (mrpc_ret dev) h (take m cs))"
    and "ld' = fst (issue_chunks_gen5 tr (mrpc_ret dev) (mrpc_out dev) port h
                      (ltssm_chunks_gen5 0 (nat cnt)) ld)"
proof -
  note u = run [unfolded gen5_unfold [OF fz st] Let_def prod.inject]
  show c: "cnt = clamp_gen5 dev port log_count" using u by simp
  show l: "mrpc_log dev' = h @ take m cs @ [ltssm_freeze_call port 0]"
    using u by (auto simp: issue_log h_def cs_def m_def c)
  show n: "new_calls dev dev' =
           [ltssm_freeze_call port 1, ltssm_status_call 20 port] @ take m cs
             @ [ltssm_freeze_call port 0]"
    by (simp add: new_calls_def l h_def)
  show "ret = mrpc_ret dev (mrpc_log dev')"
    using u by (auto simp: issue_log h_def cs_def m_def c)
  have d: "\<forall>c \<in> set (take m cs). is_log_dump c"
    by (auto simp: cs_def dest!: in_set_takeD)
  show "failed_dumps dev dev' = filter (\<lambda>a. snd a \<noteq> 0) (answers (mrpc_ret dev) h (take m cs))"
    using fz st
    by (simp add: failed_dumps_def transcript_def n answers_append filter_answers_dumps [OF d]
        h_def)
  show "ld' = fst (issue_chunks_gen5 tr (mrpc_ret dev) (mrpc_out dev) port h
                      (ltssm_chunks_gen5 0 (nat cnt)) ld)"
    using u by (auto simp: h_def c)
qed

subsection \<open>The first failing dump request\<close>

text \<open>
  The dump requests a retrieval plans are issued in order up to the first one the device
  fails. The lemmas give the result of a retrieval from what the device answers to the
  planned requests.
\<close>

lemma issued_first_failure:
  "k < length cs \<Longrightarrow> \<forall>j<k. r (h @ take (Suc j) cs) = 0 \<Longrightarrow> r (h @ take (Suc k) cs) \<noteq> 0 \<Longrightarrow>
   issued r h cs = Suc k \<and> list_ex (\<lambda>a. snd a \<noteq> 0) (answers r h (take (Suc k) cs))"
proof (induction cs arbitrary: h k)
  case Nil
  then show ?case by simp
next
  case (Cons c cs)
  show ?case
  proof (cases k)
    case 0
    with Cons.prems show ?thesis by simp
  next
    case (Suc k')
    from Cons.prems(2) [rule_format, of 0] Suc have c: "r (h @ [c]) = 0" by simp
    have 1: "k' < length cs" using Cons.prems(1) Suc by simp
    have 2: "\<forall>j<k'. r ((h @ [c]) @ take (Suc j) cs) = 0"
      using Cons.prems(2) [rule_format, of "Suc j" for j] Suc by simp
    have 3: "r ((h @ [c]) @ take (Suc k') cs) \<noteq> 0"
      using Cons.prems(3) Suc by simp
    from Cons.IH [OF 1 2 3] c Suc show ?thesis by simp
  qed
qed

lemma issued_no_failure:
  "\<forall>j<length cs. r (h @ take (Suc j) cs) = 0 \<Longrightarrow>
   issued r h cs = length cs \<and> \<not> list_ex (\<lambda>a. snd a \<noteq> 0) (answers r h cs)"
proof (induction cs arbitrary: h)
  case Nil
  then show ?case by simp
next
  case (Cons c cs)
  from Cons.prems [rule_format, of 0] have c: "r (h @ [c]) = 0" by simp
  have "\<forall>j<length cs. r ((h @ [c]) @ take (Suc j) cs) = 0"
    using Cons.prems [rule_format, of "Suc j" for j] by simp
  from Cons.IH [OF this] c show ?case by simp
qed

lemma gen5_fail_run:
  fixes log_count :: int and dev :: switchtec_dev and port :: int
  defines "h \<equiv> mrpc_log dev @ [ltssm_freeze_call port 1, ltssm_status_call 20 port]"
  defines "n \<equiv> clamp_gen5 dev port log_count"
  defines "cs \<equiv> map (chunk_call_gen5 port) (ltssm_chunks_gen5 0 (nat n))"
  assumes fz: "mrpc_ret dev (mrpc_log dev @ [ltssm_freeze_call port 1]) = 0"
    and st: "mrpc_ret dev h = 0"
    and k: "k < length cs"
    and ok: "\<forall>j<k. mrpc_ret dev (h @ take (Suc j) cs) = 0"
    and bad: "mrpc_ret dev (h @ take (Suc k) cs) \<noteq> 0"
  shows "switchtec_diag_ltssm_log_gen5 tr dev port log_count ld =
     (mrpc_ret dev (h @ take (Suc k) cs @ [ltssm_freeze_call port 0]), n,
      (\<lambda>i. if i < 63 * k
           then ltssm_log_entry_gen5 tr
                  (as_log_buffer (mrpc_out dev (h @ take (Suc (i div 63)) cs)) (i mod 63))
           else ld i),
      dev\<lparr>mrpc_log := h @ take (Suc k) cs @ [ltssm_freeze_call port 0]\<rparr>)"
proof -
  let ?r = "mrpc_ret dev"
  from issued_first_failure [OF k ok bad]
  have m: "issued ?r h cs = Suc k"
    and f: "list_ex (\<lambda>a. snd a \<noteq> 0) (answers ?r h (take (Suc k) cs))"
    by simp_all
  have dec: "decoded_gen5 ?r h cs (nat n) = 63 * k"
    using f by (simp add: decoded_gen5_def m)
  let ?res = "issue_chunks_gen5 tr ?r (mrpc_out dev) port h (ltssm_chunks_gen5 0 (nat n)) ld"
  have s: "snd ?res = h @ take (Suc k) cs"
    unfolding issue_log by (simp add: cs_def [symmetric] m)
  have d: "fst ?res =
      (\<lambda>i. if i < 63 * k
           then ltssm_log_entry_gen5 tr
                  (as_log_buffer (mrpc_out dev (h @ take (Suc (i div 63)) cs)) (i mod 63))
           else ld i)"
    by (intro ext) (simp add: issue_data Let_def cs_def [symmetric] dec)
  have st': "mrpc_ret dev (mrpc_log dev @ [ltssm_freeze_call port 1, ltssm_status_call 20 port]) = 0"
    using st by (simp only: h_def)
  show ?thesis
    unfolding gen5_unfold [OF fz st'] Let_def h_def [symmetric] n_def [symmetric] s d
    by simp
qed

lemma gen5_ok_run:
  fixes log_count :: int and dev :: switchtec_dev and port :: int
  defines "h \<equiv> mrpc_log dev @ [ltssm_freeze_call port 1, ltssm_status_call 20 port]"
  defines "n \<equiv> clamp_gen5 dev port log_count"
  defines "cs \<equiv> map (chunk_call_gen5 port) (ltssm_chunks_gen5 0 (nat n))"
  assumes fz: "mrpc_ret dev (mrpc_log dev @ [ltssm_freeze_call port 1]) = 0"
    and st: "mrpc_ret dev h = 0"
    and ok: "\<forall>j<length cs. mrpc_ret dev (h @ take (Suc j) cs) = 0"
  shows "switchtec_diag_ltssm_log_gen5 tr dev port log_count ld =
     (mrpc_ret dev (h @ cs @ [ltssm_freeze_call port 0]), n,
      (\<lambda>i. if i < nat n
           then ltssm_log_entry_gen5 tr
                  (as_log_buffer (mrpc_out dev (h @ take (Suc (i div 63)) cs)) (i mod 63))
           else ld i),
      dev\<lparr>mrpc_log := h @ cs @ [ltssm_freeze_call port 0]\<rparr>)"
proof -
  let ?r = "mrpc_ret dev"
  from issued_no_failure [OF ok]
  have m: "issued ?r h cs = length cs"
    and f: "\<not> list_ex (\<lambda>a. snd a \<noteq> 0) (answers ?r h cs)"
    by simp_all
  have dec: "decoded_gen5 ?r h cs (nat n) = nat n"
    using f by (simp add: decoded_gen5_def m)
  let ?res = "issue_chunks_gen5 tr ?r (mrpc_out dev) port h (ltssm_chunks_gen5 0 (nat n)) ld"
  have s: "snd ?res = h @ cs"
    unfolding issue_log by (simp add: cs_def [symmetric] m)
  have d: "fst ?res =
      (\<lambda>i. if i < nat n
           then ltssm_log_entry_gen5 tr
                  (as_log_buffer (mrpc_out dev (h @ take (Suc (i div 63)) cs)) (i mod 63))
           else ld i)"
    by (intro ext) (simp add: issue_data Let_def cs_def [symmetric] dec)
  have st': "mrpc_ret dev (mrpc_log dev @ [ltssm_freeze_call port 1, ltssm_status_call 20 port]) = 0"
    using st by (simp only: h_def)
  show ?thesis
    unfolding gen5_unfold [OF fz st'] Let_def h_def [symmetric] n_def [symmetric] s d
    by simp
qed

lemma gen4_words:
  fixes n :: int
  defines "m \<equiv> nat (n mod 256)"
  shows "(word_of_int n :: 8 word) = word_of_nat m"
    and "m < 256"
    and "unat (word_of_nat m :: 8 word) = m"
    and "(word_of_int n :: 8 word) \<le> 126 \<longleftrightarrow> m \<le> 126"
    and "126 < m \<Longrightarrow> (word_of_int (n - 126) :: 8 word) = word_of_nat (m - 126)"
    and "unat (word_of_nat (m - 126) :: 8 word) = m - 126"
proof -
  have im: "int m = n mod 256" by (simp add: m_def)
  show m: "m < 256" by (simp add: m_def nat_less_iff)
  have wn: "(word_of_nat k :: 8 word) = word_of_int (int k)" for k by simp
  have wmod: "(word_of_int x :: 8 word) = word_of_int (x mod 256)" for x
    by (simp add: word_of_int_eq_iff take_bit_eq_mod)
  from wmod [of n] show w: "(word_of_int n :: 8 word) = word_of_nat m"
    by (simp only: wn im)
  show u: "unat (word_of_nat m :: 8 word) = m"
    using m by (simp add: unat_of_nat)
  show "(word_of_int n :: 8 word) \<le> 126 \<longleftrightarrow> m \<le> 126"
    unfolding w using u by (simp add: word_le_nat_alt)
  show "unat (word_of_nat (m - 126) :: 8 word) = m - 126"
    using m by (simp add: unat_of_nat)
  assume gt: "126 < m"
  have "(n - 126) mod 256 = int (m - 126)"
  proof -
    have "(n - 126) mod 256 = (n mod 256 - 126) mod 256" by (simp add: mod_diff_left_eq)
    also have "\<dots> = (int m - 126) mod 256" by (simp only: im)
    also have "\<dots> = int m - 126" using gt m by simp
    finally show ?thesis using gt by simp
  qed
  with wmod [of "n - 126"] show "(word_of_int (n - 126) :: 8 word) = word_of_nat (m - 126)"
    by (simp only: wn)
qed


lemma gen4_unfold_plan:
  fixes log_count :: int and dev :: switchtec_dev and port :: int
  defines "h \<equiv> mrpc_log dev @ [ltssm_freeze_call port 1, ltssm_status_call 13 port]"
  defines "n \<equiv> clamp_gen4 dev port log_count"
  defines "m \<equiv> nat (n mod 256)"
  defines "un \<equiv> ltssm_freeze_call port 0"
  assumes fz: "mrpc_ret dev (mrpc_log dev @ [ltssm_freeze_call port 1]) = 0"
    and st: "mrpc_ret dev h = 0"
  shows "m \<le> 126 \<Longrightarrow> mrpc_ret dev (h @ [chunk_call_gen4 port (0, m)]) \<noteq> 0 \<Longrightarrow>
      switchtec_diag_ltssm_log_gen4 tr dev port log_count ld =
        (mrpc_ret dev (h @ [chunk_call_gen4 port (0, m)]), n, ld,
         dev\<lparr>mrpc_log := h @ [chunk_call_gen4 port (0, m)]\<rparr>)"
    and "m \<le> 126 \<Longrightarrow> mrpc_ret dev (h @ [chunk_call_gen4 port (0, m)]) = 0 \<Longrightarrow>
      fst (switchtec_diag_ltssm_log_gen4 tr dev port log_count ld) =
        mrpc_ret dev (h @ [chunk_call_gen4 port (0, m), un]) \<and>
      fst (snd (switchtec_diag_ltssm_log_gen4 tr dev port log_count ld)) = n \<and>
      mrpc_log (snd (snd (snd (switchtec_diag_ltssm_log_gen4 tr dev port log_count ld)))) =
        h @ [chunk_call_gen4 port (0, m), un]"
    and "126 < m \<Longrightarrow> mrpc_ret dev (h @ [chunk_call_gen4 port (0, 126)]) \<noteq> 0 \<Longrightarrow>
      switchtec_diag_ltssm_log_gen4 tr dev port log_count ld =
        (mrpc_ret dev (h @ [chunk_call_gen4 port (0, 126)]), n, ld,
         dev\<lparr>mrpc_log := h @ [chunk_call_gen4 port (0, 126)]\<rparr>)"
    and "126 < m \<Longrightarrow> mrpc_ret dev (h @ [chunk_call_gen4 port (0, 126)]) = 0 \<Longrightarrow>
      mrpc_ret dev (h @ [chunk_call_gen4 port (0, 126), chunk_call_gen4 port (126, m - 126)]) \<noteq> 0 \<Longrightarrow>
      switchtec_diag_ltssm_log_gen4 tr dev port log_count ld =
        (mrpc_ret dev (h @ [chunk_call_gen4 port (0, 126), chunk_call_gen4 port (126, m - 126)]),
         n, ld,
         dev\<lparr>mrpc_log := h @ [chunk_call_gen4 port (0, 126),
                                chunk_call_gen4 port (126, m - 126)]\<rparr>)"
    and "126 < m \<Longrightarrow> mrpc_ret dev (h @ [chunk_call_gen4 port (0, 126)]) = 0 \<Longrightarrow>
      mrpc_ret dev (h @ [chunk_call_gen4 port (0, 126), chunk_call_gen4 port (126, m - 126)]) = 0 \<Longrightarrow>
      fst (switchtec_diag_ltssm_log_gen4 tr dev port log_count ld) =
        mrpc_ret dev (h @ [chunk_call_gen4 port (0, 126), chunk_call_gen4 port (126, m - 126), un]) \<and>
      fst (snd (switchtec_diag_ltssm_log_gen4 tr dev port log_count ld)) = n \<and>
      mrpc_log (snd (snd (snd (switchtec_diag_ltssm_log_gen4 tr dev port log_count ld)))) =
        h @ [chunk_call_gen4 port (0, 126), chunk_call_gen4 port (126, m - 126), un]"
proof -
  have st': "mrpc_ret dev (mrpc_log dev @ [ltssm_freeze_call port 1, ltssm_status_call 13 port]) = 0"
    using st by (simp only: h_def)
  have nn: "(let k = uint (log_num (as_status_gen4 (mrpc_out dev h)))
             in if k < log_count then k else log_count) = n"
    by (simp add: n_def clamp_gen4_def Let_def min_def h_def)
  note w = gen4_words [of n, folded m_def]
  have c0: "chunk_call_gen4 port (0, m) = ltssm_dump_call_gen4 port 0 (word_of_int n)"
    by (simp add: chunk_call_gen4_def w(1))
  have c1: "chunk_call_gen4 port (0, 126) = ltssm_dump_call_gen4 port 0 126"
    by (simp add: chunk_call_gen4_def)
  have c2: "chunk_call_gen4 port (126, m - 126) =
      ltssm_dump_call_gen4 port 126 (word_of_int (n - 126))" if "126 < m"
    using w(5) [OF that] by (simp add: chunk_call_gen4_def)
  note u = gen4_unfold [OF fz st', of tr log_count ld, folded h_def, unfolded nn, folded un_def]
  show "m \<le> 126 \<Longrightarrow> mrpc_ret dev (h @ [chunk_call_gen4 port (0, m)]) \<noteq> 0 \<Longrightarrow>
      switchtec_diag_ltssm_log_gen4 tr dev port log_count ld =
        (mrpc_ret dev (h @ [chunk_call_gen4 port (0, m)]), n, ld,
         dev\<lparr>mrpc_log := h @ [chunk_call_gen4 port (0, m)]\<rparr>)"
    unfolding u c0 using w(4) by (simp add: Let_def)
  show "m \<le> 126 \<Longrightarrow> mrpc_ret dev (h @ [chunk_call_gen4 port (0, m)]) = 0 \<Longrightarrow>
      fst (switchtec_diag_ltssm_log_gen4 tr dev port log_count ld) =
        mrpc_ret dev (h @ [chunk_call_gen4 port (0, m), un]) \<and>
      fst (snd (switchtec_diag_ltssm_log_gen4 tr dev port log_count ld)) = n \<and>
      mrpc_log (snd (snd (snd (switchtec_diag_ltssm_log_gen4 tr dev port log_count ld)))) =
        h @ [chunk_call_gen4 port (0, m), un]"
    unfolding u c0 using w(4) by (simp add: Let_def)
  show "126 < m \<Longrightarrow> mrpc_ret dev (h @ [chunk_call_gen4 port (0, 126)]) \<noteq> 0 \<Longrightarrow>
      switchtec_diag_ltssm_log_gen4 tr dev port log_count ld =
        (mrpc_ret dev (h @ [chunk_call_gen4 port (0, 126)]), n, ld,
         dev\<lparr>mrpc_log := h @ [chunk_call_gen4 port (0, 126)]\<rparr>)"
    unfolding u c1 using w(4) by (simp add: Let_def)
  show "126 < m \<Longrightarrow> mrpc_ret dev (h @ [chunk_call_gen4 port (0, 126)]) = 0 \<Longrightarrow>
      mrpc_ret dev (h @ [chunk_call_gen4 port (0, 126), chunk_call_gen4 port (126, m - 126)]) \<noteq> 0 \<Longrightarrow>
      switchtec_diag_ltssm_log_gen4 tr dev port log_count ld =
        (mrpc_ret dev (h @ [chunk_call_gen4 port (0, 126), chunk_call_gen4 port (126, m - 126)]),
         n, ld,
         dev\<lparr>mrpc_log := h @ [chunk_call_gen4 port (0, 126),
                                chunk_call_gen4 port (126, m - 126)]\<rparr>)"
    unfolding u c1 using w(4) c2 by (simp add: Let_def)
  show "126 < m \<Longrightarrow> mrpc_ret dev (h @ [chunk_call_gen4 port (0, 126)]) = 0 \<Longrightarrow>
      mrpc_ret dev (h @ [chunk_call_gen4 port (0, 126), chunk_call_gen4 port (126, m - 126)]) = 0 \<Longrightarrow>
      fst (switchtec_diag_ltssm_log_gen4 tr dev port log_count ld) =
        mrpc_ret dev (h @ [chunk_call_gen4 port (0, 126), chunk_call_gen4 port (126, m - 126), un]) \<and>
      fst (snd (switchtec_diag_ltssm_log_gen4 tr dev port log_count ld)) = n \<and>
      mrpc_log (snd (snd (snd (switchtec_diag_ltssm_log_gen4 tr dev port log_count ld)))) =
        h @ [chunk_call_gen4 port (0, 126), chunk_call_gen4 port (126, m - 126), un]"
    unfolding u c1 using w(4) c2 by (simp add: Let_def)
qed


lemma gen4_fail_run:
  fixes log_count :: int and dev :: switchtec_dev and port :: int
  defines "h \<equiv> mrpc_log dev @ [ltssm_freeze_call port 1, ltssm_status_call 13 port]"
  defines "n \<equiv> clamp_gen4 dev port log_count"
  defines "cs \<equiv> map (chunk_call_gen4 port) (ltssm_chunks_gen4 (nat (n mod 256)))"
  assumes fz: "mrpc_ret dev (mrpc_log dev @ [ltssm_freeze_call port 1]) = 0"
    and st: "mrpc_ret dev h = 0"
    and k: "k < length cs"
    and ok: "\<forall>j<k. mrpc_ret dev (h @ take (Suc j) cs) = 0"
    and bad: "mrpc_ret dev (h @ take (Suc k) cs) \<noteq> 0"
  shows "switchtec_diag_ltssm_log_gen4 tr dev port log_count ld =
     (mrpc_ret dev (h @ take (Suc k) cs), n, ld, dev\<lparr>mrpc_log := h @ take (Suc k) cs\<rparr>)"
proof -
  have st': "mrpc_ret dev (mrpc_log dev @ [ltssm_freeze_call port 1, ltssm_status_call 13 port]) = 0"
    using st by (simp only: h_def)
  note p = gen4_unfold_plan [OF fz st', where tr = tr and ld = ld and log_count = log_count,
      folded h_def n_def]
  show ?thesis
  proof (cases "nat (n mod 256) \<le> 126")
    case True
    then have cs: "cs = [chunk_call_gen4 port (0, nat (n mod 256))]"
      by (simp add: cs_def ltssm_chunks_gen4_def)
    from k have k0: "k = 0" by (simp add: cs)
    from bad have "mrpc_ret dev (h @ [chunk_call_gen4 port (0, nat (n mod 256))]) \<noteq> 0"
      by (simp add: cs k0)
    from p(1) [OF True this] show ?thesis by (simp add: cs k0)
  next
    case False
    then have gt: "126 < nat (n mod 256)" by simp
    have cs: "cs = [chunk_call_gen4 port (0, 126),
                    chunk_call_gen4 port (126, nat (n mod 256) - 126)]"
      using False by (simp add: cs_def ltssm_chunks_gen4_def)
    from k have "k = 0 \<or> k = 1" by (auto simp: cs)
    then show ?thesis
    proof
      assume k0: "k = 0"
      from bad have "mrpc_ret dev (h @ [chunk_call_gen4 port (0, 126)]) \<noteq> 0"
        by (simp add: cs k0)
      from p(3) [OF gt this] show ?thesis by (simp add: cs k0)
    next
      assume k1: "k = 1"
      from ok [rule_format, of 0] have a: "mrpc_ret dev (h @ [chunk_call_gen4 port (0, 126)]) = 0"
        by (simp add: cs k1)
      from bad have "mrpc_ret dev (h @ [chunk_call_gen4 port (0, 126),
          chunk_call_gen4 port (126, nat (n mod 256) - 126)]) \<noteq> 0"
        by (simp add: cs k1)
      from p(4) [OF gt a this] show ?thesis by (simp add: cs k1)
    qed
  qed
qed

lemma gen4_ok_run:
  fixes log_count :: int and dev :: switchtec_dev and port :: int
  defines "h \<equiv> mrpc_log dev @ [ltssm_freeze_call port 1, ltssm_status_call 13 port]"
  defines "n \<equiv> clamp_gen4 dev port log_count"
  defines "cs \<equiv> map (chunk_call_gen4 port) (ltssm_chunks_gen4 (nat (n mod 256)))"
  assumes fz: "mrpc_ret dev (mrpc_log dev @ [ltssm_freeze_call port 1]) = 0"
    and st: "mrpc_ret dev h = 0"
    and ok: "\<forall>j<length cs. mrpc_ret dev (h @ take (Suc j) cs) = 0"
  shows "fst (switchtec_diag_ltssm_log_gen4 tr dev port log_count ld) =
           mrpc_ret dev (h @ cs @ [ltssm_freeze_call port 0]) \<and>
         fst (snd (switchtec_diag_ltssm_log_gen4 tr dev port log_count ld)) = n \<and>
         mrpc_log (snd (snd (snd (switchtec_diag_ltssm_log_gen4 tr dev port log_count ld)))) =
           h @ cs @ [ltssm_freeze_call port 0]"
proof -
  have st': "mrpc_ret dev (mrpc_log dev @ [ltssm_freeze_call port 1, ltssm_status_call 13 port]) = 0"
    using st by (simp only: h_def)
  note p = gen4_unfold_plan [OF fz st', where tr = tr and ld = ld and log_count = log_count,
      folded h_def n_def]
  show ?thesis
  proof (cases "nat (n mod 256) \<le> 126")
    case True
    then have cs: "cs = [chunk_call_gen4 port (0, nat (n mod 256))]"
      by (simp add: cs_def ltssm_chunks_gen4_def)
    from ok [rule_format, of 0]
    have "mrpc_ret dev (h @ [chunk_call_gen4 port (0, nat (n mod 256))]) = 0"
      by (simp add: cs)
    from p(2) [OF True this] show ?thesis by (simp add: cs)
  next
    case False
    then have gt: "126 < nat (n mod 256)" by simp
    have cs: "cs = [chunk_call_gen4 port (0, 126),
                    chunk_call_gen4 port (126, nat (n mod 256) - 126)]"
      using False by (simp add: cs_def ltssm_chunks_gen4_def)
    from ok [rule_format, of 0] have a: "mrpc_ret dev (h @ [chunk_call_gen4 port (0, 126)]) = 0"
      by (simp add: cs)
    from ok [rule_format, of 1] have b: "mrpc_ret dev (h @ [chunk_call_gen4 port (0, 126),
          chunk_call_gen4 port (126, nat (n mod 256) - 126)]) = 0"
      by (simp add: cs)
    from p(5) [OF gt a b] show ?thesis by (simp add: cs)
  qed
qed

lemma unfreeze_not_in_chunks:
  "ltssm_freeze_call port f \<notin> set (map (chunk_call_gen4 port) ps)"
  "ltssm_freeze_call port f \<notin> set (map (chunk_call_gen5 port) ps)"
  by (auto simp: ltssm_freeze_call_def chunk_call_gen4_def chunk_call_gen5_def
      ltssm_dump_call_gen4_def ltssm_dump_call_gen5_def)

lemma unfreeze_not_new:
  assumes "cs' = take m (map (chunk_call_gen4 port) ps)"
  shows "ltssm_freeze_call port 0 \<notin>
     set (new_calls dev (dev\<lparr>mrpc_log := (mrpc_log dev @
        [ltssm_freeze_call port 1, ltssm_status_call 13 port]) @ cs'\<rparr>))"
proof -
  have "set cs' \<subseteq> set (map (chunk_call_gen4 port) ps)"
    unfolding assms by (rule set_take_subset)
  with unfreeze_not_in_chunks(1) [of port 0 ps]
  have "ltssm_freeze_call port 0 \<notin> set cs'" by blast
  then show ?thesis by (simp add: new_calls_def)
qed

subsection \<open>The concrete devices\<close>

lemma ok_ret [simp]: "mrpc_ret dev_ltssm_ok h = 0" "mrpc_log dev_ltssm_ok = []"
  "mrpc_out dev_ltssm_ok h = ltssm_answer"
  by (simp_all add: dev_ltssm_ok_def)

lemma fail_ret [simp]: "mrpc_ret dev_ltssm_fail h = (if length h = 4 then -5 else 0)"
  "mrpc_log dev_ltssm_fail = []" "mrpc_out dev_ltssm_fail h = ltssm_answer"
  by (simp_all add: dev_ltssm_fail_def)

lemma answer_fields [simp]:
  "log_num (as_status_gen4 ltssm_answer) = 200"
  "trig_cnt (as_status_gen5 ltssm_answer) = 130"
  "as_log_buffer ltssm_answer i = zero_log_buffer\<lparr>major := 2, minor := 3\<rparr>"
  by (simp_all add: ltssm_answer_def)

lemma fail_run5:
  assumes a: "switchtec_diag_ltssm_log_gen5 (\<lambda>i. i) dev_ltssm_fail 0 130
      (\<lambda>i. zero_ltssm_log) = (r, c, l, d)"
  shows "c = 130"
    and "mrpc_log d = [ltssm_freeze_call 0 1, ltssm_status_call 20 0,
                       ltssm_dump_call_gen5 0 0 63, ltssm_dump_call_gen5 0 63 63,
                       ltssm_freeze_call 0 0]"
    and "failed_dumps dev_ltssm_fail d = [(ltssm_dump_call_gen5 0 63 63, -5)]"
proof -
  have fz: "mrpc_ret dev_ltssm_fail (mrpc_log dev_ltssm_fail @ [ltssm_freeze_call 0 1]) = 0"
    and st: "mrpc_ret dev_ltssm_fail
      (mrpc_log dev_ltssm_fail @ [ltssm_freeze_call 0 1, ltssm_status_call 20 0]) = 0"
    by simp_all
  note g = gen5_run [OF a fz st]
  show c: "c = 130" using g(1) by (simp add: clamp_gen5_def)
  show "mrpc_log d = [ltssm_freeze_call 0 1, ltssm_status_call 20 0,
                       ltssm_dump_call_gen5 0 0 63, ltssm_dump_call_gen5 0 63 63,
                       ltssm_freeze_call 0 0]"
    using g(2) by (simp add: c chunks_130 chunk_call_gen5_def)
  show "failed_dumps dev_ltssm_fail d = [(ltssm_dump_call_gen5 0 63 63, -5)]"
    using g(5) by (simp add: c chunks_130 chunk_call_gen5_def)
qed

lemma fail_first_ret [simp]:
  "mrpc_ret dev_ltssm_fail_first h = (if length h = 3 then -5 else 0)"
  "mrpc_log dev_ltssm_fail_first = []" "mrpc_out dev_ltssm_fail_first h = ltssm_answer"
  by (simp_all add: dev_ltssm_fail_first_def)

lemma chunks4_200: "ltssm_chunks_gen4 200 = [(0, 126), (126, 74)]"
  by (simp add: ltssm_chunks_gen4_def)

lemma chunks5_130: "map (chunk_call_gen5 0) (ltssm_chunks_gen5 0 130) =
    [ltssm_dump_call_gen5 0 0 63, ltssm_dump_call_gen5 0 63 63, ltssm_dump_call_gen5 0 126 4]"
  by (simp add: chunks_130 chunk_call_gen5_def)

subsection \<open>The chunks of a dump\<close>




text \<open>
  C6. Let the freeze and the status request of a Gen5 retrieval succeed and no dump
  request of the call fail; let \<open>n\<close> be the clamped count. Then the dump requests of the
  call are, in this order, the chunks \<open>ltssm_chunks_gen5 0 n\<close>: chunk \<open>k\<close> starts at
  index \<open>63 * k\<close> and has the size \<open>min 63 (n - 63 * k)\<close>. Entry \<open>i < n\<close> of the output is
  decoded from record \<open>i mod 63\<close> of the answer to chunk \<open>i div 63\<close>, and the entries from
  \<open>n\<close> on are untouched: exactly \<open>n\<close> entries are decoded.
\<close>

theorem ltssm_gen5_chunks:
  fixes log_count :: int and dev :: switchtec_dev and port :: int
  assumes run: "switchtec_diag_ltssm_log_gen5 tr dev port log_count ld = (ret, cnt, ld', dev')"
    and fz: "mrpc_ret dev (mrpc_log dev @ [ltssm_freeze_call port 1]) = 0"
    and st: "mrpc_ret dev (mrpc_log dev @ [ltssm_freeze_call port 1, ltssm_status_call 20 port]) = 0"
    and ok: "failed_dumps dev dev' = []"
  shows "cnt = clamp_gen5 dev port log_count \<and>
    dump_chunks (new_calls dev dev') = ltssm_chunks_gen5 0 (nat cnt) \<and>
    (\<forall>i. ld' i =
       (if i < nat cnt
        then ltssm_log_entry_gen5 tr
               (as_log_buffer
                  (mrpc_out dev
                     (mrpc_log dev @ [ltssm_freeze_call port 1, ltssm_status_call 20 port]
                        @ take (Suc (i div 63))
                            (map (chunk_call_gen5 port) (ltssm_chunks_gen5 0 (nat cnt)))))
                  (i mod 63))
        else ld i))"
proof -
  let ?h = "mrpc_log dev @ [ltssm_freeze_call port 1, ltssm_status_call 20 port]"
  let ?ps = "ltssm_chunks_gen5 0 (nat cnt)"
  let ?cs = "map (chunk_call_gen5 port) ?ps"
  let ?m = "issued (mrpc_ret dev) ?h ?cs"
  note g = gen5_run [OF run fz st]
  have nofail: "\<not> list_ex (\<lambda>a. snd a \<noteq> 0) (answers (mrpc_ret dev) ?h (take ?m ?cs))"
    using ok g(5) by (simp add: failed_iff)
  have m: "?m = length ?cs" by (rule issued_all_ok [OF nofail])
  have small: "\<forall>p \<in> set ?ps. fst p < 65536 \<and> snd p < 65536"
  proof
    fix p assume "p \<in> set ?ps"
    from chunk_bounds [OF this] clamp_gen5_bound [of dev port log_count, folded g(1)]
    show "fst p < 65536 \<and> snd p < 65536" by simp
  qed
  have chunks: "dump_chunks (new_calls dev dev') = ?ps"
    by (simp add: g(3) m dump_chunks_append dump_chunks_calls [OF small])
  have dec: "decoded_gen5 (mrpc_ret dev) ?h ?cs (nat cnt) = nat cnt"
    using nofail by (simp add: decoded_gen5_def)
  have data: "ld' i =
       (if i < nat cnt
        then ltssm_log_entry_gen5 tr
               (as_log_buffer (mrpc_out dev (?h @ take (Suc (i div 63)) ?cs)) (i mod 63))
        else ld i)" for i
    unfolding g(6) issue_data by (simp add: Let_def dec)
  show ?thesis using g(1) chunks data by simp
qed

text \<open>
  130 entries on a device that never fails: chunks of 63, 63 and 4 at the indices 0, 63
  and 126; entry 129 is decoded and entry 130 is not written.
\<close>

theorem ltssm_gen5_chunks_witness:
  "dump_chunks (new_calls dev_ltssm_ok (snd (snd (snd
      (switchtec_diag_ltssm_log_gen5 (\<lambda>i. i) dev_ltssm_ok 0 130 (\<lambda>i. zero_ltssm_log))))))
     = [(0, 63), (63, 63), (126, 4)] \<and>
   fst (snd (switchtec_diag_ltssm_log_gen5 (\<lambda>i. i) dev_ltssm_ok 0 130 (\<lambda>i. zero_ltssm_log)))
     = 130 \<and>
   link_state (fst (snd (snd
      (switchtec_diag_ltssm_log_gen5 (\<lambda>i. i) dev_ltssm_ok 0 130 (\<lambda>i. zero_ltssm_log)))) 129)
     = 770 \<and>
   fst (snd (snd
      (switchtec_diag_ltssm_log_gen5 (\<lambda>i. i) dev_ltssm_ok 0 130 (\<lambda>i. zero_ltssm_log)))) 130
     = zero_ltssm_log"
proof -
  obtain r c l d where a: "switchtec_diag_ltssm_log_gen5 (\<lambda>i. i) dev_ltssm_ok 0 130
      (\<lambda>i. zero_ltssm_log) = (r, c, l, d)"
    by (metis prod_cases4)
  have nf: "failed_dumps dev_ltssm_ok d = []"
    by (rule no_failed_dumps) simp
  note t = ltssm_gen5_chunks [OF a _ _ nf]
  have c: "c = 130" using t by (simp add: clamp_gen5_def)
  show ?thesis
    using t unfolding a c
    by (simp add: chunks_130 ltssm_log_entry_gen5_def zero_log_buffer_def Let_def)
qed

subsection \<open>A failed dump request\<close>

text \<open>
  C10. Let the freeze and the status request of a Gen5 retrieval succeed, let \<open>n\<close> be
  the clamped count, and let the device fail the dump request of chunk \<open>k\<close> after it has
  answered the chunks before it with success. Then the call sends the unfreeze request
  right after the failed request and returns the code of the unfreeze request: it
  reports success when the unfreeze succeeds. \<^verbatim>\<open>*log_count\<close> is \<open>n\<close>, the full clamped
  count. The entries below \<open>63 * k\<close> are decoded, and no entry from \<open>63 * k\<close> on, the
  index of the failed chunk, which lies below \<open>n\<close>, is written.
\<close>

theorem ltssm_gen5_dump_failure:
  fixes log_count :: int and dev :: switchtec_dev and port :: int
  defines "h \<equiv> mrpc_log dev @ [ltssm_freeze_call port 1, ltssm_status_call 20 port]"
  defines "n \<equiv> clamp_gen5 dev port log_count"
  defines "cs \<equiv> map (chunk_call_gen5 port) (ltssm_chunks_gen5 0 (nat n))"
  assumes fz: "mrpc_ret dev (mrpc_log dev @ [ltssm_freeze_call port 1]) = 0"
    and st: "mrpc_ret dev h = 0"
    and k: "k < length cs"
    and ok: "\<forall>j<k. mrpc_ret dev (h @ take (Suc j) cs) = 0"
    and bad: "mrpc_ret dev (h @ take (Suc k) cs) \<noteq> 0"
  shows "switchtec_diag_ltssm_log_gen5 tr dev port log_count ld =
     (mrpc_ret dev (h @ take (Suc k) cs @ [ltssm_freeze_call port 0]), n,
      (\<lambda>i. if i < 63 * k
           then ltssm_log_entry_gen5 tr
                  (as_log_buffer (mrpc_out dev (h @ take (Suc (i div 63)) cs)) (i mod 63))
           else ld i),
      dev\<lparr>mrpc_log := h @ take (Suc k) cs @ [ltssm_freeze_call port 0]\<rparr>) \<and>
     cs ! k = chunk_call_gen5 port (63 * k, min 63 (nat n - 63 * k)) \<and>
     63 * k < nat n"
proof -
  have kk: "k < length (ltssm_chunks_gen5 0 (nat n))" using k by (simp add: cs_def)
  have nth: "ltssm_chunks_gen5 0 (nat n) ! k = (63 * k, min 63 (nat n - 63 * k))"
    using chunk_nth [OF kk] by simp
  have "ltssm_chunks_gen5 0 (nat n) ! k \<in> set (ltssm_chunks_gen5 0 (nat n))"
    using kk by (rule nth_mem)
  from chunk_bounds [OF this] have lt: "63 * k < nat n" by (simp add: nth)
  have c: "cs ! k = chunk_call_gen5 port (63 * k, min 63 (nat n - 63 * k))"
    using kk by (simp add: cs_def nth)
  from gen5_fail_run [OF fz st [unfolded h_def] k [unfolded cs_def n_def h_def]
      ok [unfolded cs_def n_def h_def] bad [unfolded cs_def n_def h_def],
      folded h_def n_def, folded cs_def] c lt
  show ?thesis by simp
qed

text \<open>
  130 entries on a device that fails the second chunk with the code -5 and nothing
  else: the call sends the unfreeze request after the failed request, returns 0 and a
  count of 130, and has written the entries 0 to 62 only.
\<close>

theorem ltssm_gen5_dump_failure_witness:
  "mrpc_ret dev_ltssm_fail [ltssm_freeze_call 0 1, ltssm_status_call 20 0,
      ltssm_dump_call_gen5 0 0 63, ltssm_dump_call_gen5 0 63 63] = - 5 \<and>
   switchtec_diag_ltssm_log_gen5 (\<lambda>i. i) dev_ltssm_fail 0 130 (\<lambda>i. zero_ltssm_log) =
     (0, 130,
      (\<lambda>i. if i < 63 then \<lparr>timestamp_high = 0, timestamp = 0, link_rate = 1, link_state = 770\<rparr>
           else zero_ltssm_log),
      dev_ltssm_fail\<lparr>mrpc_log :=
        [ltssm_freeze_call 0 1, ltssm_status_call 20 0, ltssm_dump_call_gen5 0 0 63,
         ltssm_dump_call_gen5 0 63 63, ltssm_freeze_call 0 0]\<rparr>)"
proof -
  have n: "clamp_gen5 dev_ltssm_fail 0 130 = 130" by (simp add: clamp_gen5_def)
  have e: "ltssm_log_entry_gen5 (\<lambda>i. i) (zero_log_buffer\<lparr>major := 2, minor := 3\<rparr>) =
      \<lparr>timestamp_high = 0, timestamp = 0, link_rate = 1, link_state = 770\<rparr>"
    by (simp add: ltssm_log_entry_gen5_def zero_log_buffer_def Let_def)
  have "switchtec_diag_ltssm_log_gen5 (\<lambda>i. i) dev_ltssm_fail 0 130 (\<lambda>i. zero_ltssm_log) =
     (0, 130,
      (\<lambda>i. if i < 63 then \<lparr>timestamp_high = 0, timestamp = 0, link_rate = 1, link_state = 770\<rparr>
           else zero_ltssm_log),
      dev_ltssm_fail\<lparr>mrpc_log :=
        [ltssm_freeze_call 0 1, ltssm_status_call 20 0, ltssm_dump_call_gen5 0 0 63,
         ltssm_dump_call_gen5 0 63 63, ltssm_freeze_call 0 0]\<rparr>)"
    using ltssm_gen5_dump_failure [of dev_ltssm_fail 0 1 130 "\<lambda>i. i" "\<lambda>i. zero_ltssm_log"]
    unfolding n by (simp add: chunks5_130 e cong: if_cong)
  then show ?thesis by simp
qed

text \<open>
  C1, as amended. Let the freeze request succeed. Gen4, when the status request
  (sub-command 13) succeeds: if the device fails the dump request of chunk \<open>k\<close> after it
  has answered the chunks before it with success, the call returns the code of that
  request, which is the last request it issues; \<^verbatim>\<open>log_data\<close> is untouched and no
  unfreeze request is among the requests of the call. If the device answers every dump
  request with success, the unfreeze request is the last request and its code is the
  result. Gen5, when the status request (sub-command 20) succeeds: if the device fails
  the dump request of chunk \<open>k\<close>, no further chunk is requested and the unfreeze request
  follows the failed request as the last request of the call; if the device answers
  every dump request with success, the unfreeze request is the last request and its code
  is the result.
\<close>

theorem ltssm_dump_failure_unfreeze:
  fixes log_count :: int and dev :: switchtec_dev and port :: int
    and tr :: "nat \<Rightarrow> 'f" and ld :: "nat \<Rightarrow> 'f switchtec_diag_ltssm_log"
  defines "un \<equiv> ltssm_freeze_call port 0"
  defines "h4 \<equiv> mrpc_log dev @ [ltssm_freeze_call port 1, ltssm_status_call 13 port]"
  defines "h5 \<equiv> mrpc_log dev @ [ltssm_freeze_call port 1, ltssm_status_call 20 port]"
  defines "cs4 \<equiv> map (chunk_call_gen4 port)
                     (ltssm_chunks_gen4 (nat (clamp_gen4 dev port log_count mod 256)))"
  defines "cs5 \<equiv> map (chunk_call_gen5 port)
                     (ltssm_chunks_gen5 0 (nat (clamp_gen5 dev port log_count)))"
  defines "run4 \<equiv> switchtec_diag_ltssm_log_gen4 tr dev port log_count ld"
  defines "run5 \<equiv> switchtec_diag_ltssm_log_gen5 tr dev port log_count ld"
  assumes fz: "mrpc_ret dev (mrpc_log dev @ [ltssm_freeze_call port 1]) = 0"
  shows "(mrpc_ret dev h4 = 0 \<longrightarrow>
            (\<forall>k<length cs4.
               (\<forall>j<k. mrpc_ret dev (h4 @ take (Suc j) cs4) = 0) \<and>
               mrpc_ret dev (h4 @ take (Suc k) cs4) \<noteq> 0 \<longrightarrow>
                 run4 = (mrpc_ret dev (h4 @ take (Suc k) cs4), clamp_gen4 dev port log_count, ld,
                         dev\<lparr>mrpc_log := h4 @ take (Suc k) cs4\<rparr>) \<and>
                 un \<notin> set (new_calls dev (snd (snd (snd run4))))) \<and>
            ((\<forall>j<length cs4. mrpc_ret dev (h4 @ take (Suc j) cs4) = 0) \<longrightarrow>
               fst run4 = mrpc_ret dev (h4 @ cs4 @ [un]) \<and>
               mrpc_log (snd (snd (snd run4))) = h4 @ cs4 @ [un])) \<and>
         (mrpc_ret dev h5 = 0 \<longrightarrow>
            (\<forall>k<length cs5.
               (\<forall>j<k. mrpc_ret dev (h5 @ take (Suc j) cs5) = 0) \<and>
               mrpc_ret dev (h5 @ take (Suc k) cs5) \<noteq> 0 \<longrightarrow>
                 mrpc_log (snd (snd (snd run5))) = h5 @ take (Suc k) cs5 @ [un]) \<and>
            ((\<forall>j<length cs5. mrpc_ret dev (h5 @ take (Suc j) cs5) = 0) \<longrightarrow>
               fst run5 = mrpc_ret dev (h5 @ cs5 @ [un]) \<and>
               mrpc_log (snd (snd (snd run5))) = h5 @ cs5 @ [un]))"
proof (intro conjI impI allI)
  fix k
  assume st: "mrpc_ret dev h4 = 0" and k: "k < length cs4"
    and f: "(\<forall>j<k. mrpc_ret dev (h4 @ take (Suc j) cs4) = 0) \<and>
            mrpc_ret dev (h4 @ take (Suc k) cs4) \<noteq> 0"
  from f have ok: "\<forall>j<k. mrpc_ret dev (h4 @ take (Suc j) cs4) = 0"
    and bad: "mrpc_ret dev (h4 @ take (Suc k) cs4) \<noteq> 0" by simp_all
  note r = gen4_fail_run [OF fz st [unfolded h4_def] k [unfolded cs4_def]
      ok [unfolded cs4_def h4_def] bad [unfolded cs4_def h4_def],
      where tr = tr and ld = ld, folded h4_def, folded cs4_def, folded run4_def]
  show "run4 = (mrpc_ret dev (h4 @ take (Suc k) cs4), clamp_gen4 dev port log_count, ld,
                dev\<lparr>mrpc_log := h4 @ take (Suc k) cs4\<rparr>)"
    by (rule r)
  show "un \<notin> set (new_calls dev (snd (snd (snd run4))))"
    unfolding r un_def h4_def cs4_def
    using unfreeze_not_new [OF refl, of port dev "Suc k"] by simp
next
  assume st: "mrpc_ret dev h4 = 0"
    and ok: "\<forall>j<length cs4. mrpc_ret dev (h4 @ take (Suc j) cs4) = 0"
  note r = gen4_ok_run [OF fz st [unfolded h4_def] ok [unfolded cs4_def h4_def],
      where tr = tr and ld = ld, folded h4_def, folded cs4_def, folded run4_def un_def]
  from r show "fst run4 = mrpc_ret dev (h4 @ cs4 @ [un])" by simp
  from r show "mrpc_log (snd (snd (snd run4))) = h4 @ cs4 @ [un]" by simp
next
  fix k
  assume st: "mrpc_ret dev h5 = 0" and k: "k < length cs5"
    and f: "(\<forall>j<k. mrpc_ret dev (h5 @ take (Suc j) cs5) = 0) \<and>
            mrpc_ret dev (h5 @ take (Suc k) cs5) \<noteq> 0"
  from f have ok: "\<forall>j<k. mrpc_ret dev (h5 @ take (Suc j) cs5) = 0"
    and bad: "mrpc_ret dev (h5 @ take (Suc k) cs5) \<noteq> 0" by simp_all
  note r = gen5_fail_run [OF fz st [unfolded h5_def] k [unfolded cs5_def]
      ok [unfolded cs5_def h5_def] bad [unfolded cs5_def h5_def],
      where tr = tr and ld = ld, folded h5_def, folded cs5_def, folded run5_def un_def]
  show "mrpc_log (snd (snd (snd run5))) = h5 @ take (Suc k) cs5 @ [un]"
    unfolding r by simp
next
  assume st: "mrpc_ret dev h5 = 0"
    and ok: "\<forall>j<length cs5. mrpc_ret dev (h5 @ take (Suc j) cs5) = 0"
  note r = gen5_ok_run [OF fz st [unfolded h5_def] ok [unfolded cs5_def h5_def],
      where tr = tr and ld = ld, folded h5_def, folded cs5_def, folded run5_def un_def]
  show "fst run5 = mrpc_ret dev (h5 @ cs5 @ [un])" unfolding r by simp
  show "mrpc_log (snd (snd (snd run5))) = h5 @ cs5 @ [un]" unfolding r by simp
qed

text \<open>
  The claim as stated fails for Gen5: on a device whose freeze succeeds and whose second
  chunk request fails, the unfreeze request is among the requests of the call.
\<close>

theorem ltssm_dump_failure_unfreeze_counterexample:
  "mrpc_ret dev_ltssm_fail [ltssm_freeze_call 0 1] = 0 \<and>
   failed_dumps dev_ltssm_fail (snd (snd (snd
      (switchtec_diag_ltssm_log_gen5 (\<lambda>i. i) dev_ltssm_fail 0 130 (\<lambda>i. zero_ltssm_log)))))
     = [(ltssm_dump_call_gen5 0 63 63, -5)] \<and>
   ltssm_freeze_call 0 0 \<in> set (new_calls dev_ltssm_fail (snd (snd (snd
      (switchtec_diag_ltssm_log_gen5 (\<lambda>i. i) dev_ltssm_fail 0 130 (\<lambda>i. zero_ltssm_log))))))"
proof -
  obtain r c l d where a: "switchtec_diag_ltssm_log_gen5 (\<lambda>i. i) dev_ltssm_fail 0 130
      (\<lambda>i. zero_ltssm_log) = (r, c, l, d)"
    by (metis prod_cases4)
  note f = fail_run5 [OF a]
  show ?thesis by (simp add: a f new_calls_def)
qed

text \<open>
  The amended claim on the device that fails the fourth request with the code -5, and
  on the device that never fails, 200 entries requested: the Gen4 retrieval returns -5
  after the second chunk and sends no unfreeze request, and ends with the unfreeze
  request when nothing fails; the Gen5 retrieval sends the unfreeze request right after
  the failed second chunk, and after the third chunk when nothing fails.
\<close>

theorem ltssm_dump_failure_unfreeze_witness:
  "switchtec_diag_ltssm_log_gen4 (\<lambda>i. i) dev_ltssm_fail 0 200 (\<lambda>i. zero_ltssm_log) =
     (- 5, 200, (\<lambda>i. zero_ltssm_log),
      dev_ltssm_fail\<lparr>mrpc_log :=
        [ltssm_freeze_call 0 1, ltssm_status_call 13 0, ltssm_dump_call_gen4 0 0 126,
         ltssm_dump_call_gen4 0 126 74]\<rparr>) \<and>
   mrpc_log (snd (snd (snd
      (switchtec_diag_ltssm_log_gen4 (\<lambda>i. i) dev_ltssm_ok 0 200 (\<lambda>i. zero_ltssm_log))))) =
     [ltssm_freeze_call 0 1, ltssm_status_call 13 0, ltssm_dump_call_gen4 0 0 126,
      ltssm_dump_call_gen4 0 126 74, ltssm_freeze_call 0 0] \<and>
   mrpc_log (snd (snd (snd
      (switchtec_diag_ltssm_log_gen5 (\<lambda>i. i) dev_ltssm_fail 0 200 (\<lambda>i. zero_ltssm_log))))) =
     [ltssm_freeze_call 0 1, ltssm_status_call 20 0, ltssm_dump_call_gen5 0 0 63,
      ltssm_dump_call_gen5 0 63 63, ltssm_freeze_call 0 0] \<and>
   mrpc_log (snd (snd (snd
      (switchtec_diag_ltssm_log_gen5 (\<lambda>i. i) dev_ltssm_ok 0 200 (\<lambda>i. zero_ltssm_log))))) =
     [ltssm_freeze_call 0 1, ltssm_status_call 20 0, ltssm_dump_call_gen5 0 0 63,
      ltssm_dump_call_gen5 0 63 63, ltssm_dump_call_gen5 0 126 4, ltssm_freeze_call 0 0]"
proof -
  have n4: "clamp_gen4 dev_ltssm_fail 0 200 = 200" "clamp_gen4 dev_ltssm_ok 0 200 = 200"
    by (simp_all add: clamp_gen4_def)
  have n5: "clamp_gen5 dev_ltssm_fail 0 200 = 130" "clamp_gen5 dev_ltssm_ok 0 200 = 130"
    by (simp_all add: clamp_gen5_def)
  have c4: "map (chunk_call_gen4 0) (ltssm_chunks_gen4 200) =
      [ltssm_dump_call_gen4 0 0 126, ltssm_dump_call_gen4 0 126 74]"
    by (simp add: chunks4_200 chunk_call_gen4_def)
  note f = ltssm_dump_failure_unfreeze [where dev = dev_ltssm_fail and port = 0
      and log_count = 200 and tr = "\<lambda>i. i" and ld = "\<lambda>i. zero_ltssm_log", unfolded n4 n5]
  note g = ltssm_dump_failure_unfreeze [where dev = dev_ltssm_ok and port = 0
      and log_count = 200 and tr = "\<lambda>i. i" and ld = "\<lambda>i. zero_ltssm_log", unfolded n4 n5]
  have 1: "switchtec_diag_ltssm_log_gen4 (\<lambda>i. i) dev_ltssm_fail 0 200 (\<lambda>i. zero_ltssm_log) =
     (- 5, 200, (\<lambda>i. zero_ltssm_log),
      dev_ltssm_fail\<lparr>mrpc_log :=
        [ltssm_freeze_call 0 1, ltssm_status_call 13 0, ltssm_dump_call_gen4 0 0 126,
         ltssm_dump_call_gen4 0 126 74]\<rparr>)"
    using f [THEN conjunct1, THEN mp, THEN conjunct1, rule_format, of 1]
    by (simp add: c4)
  have 2: "mrpc_log (snd (snd (snd
      (switchtec_diag_ltssm_log_gen4 (\<lambda>i. i) dev_ltssm_ok 0 200 (\<lambda>i. zero_ltssm_log))))) =
     [ltssm_freeze_call 0 1, ltssm_status_call 13 0, ltssm_dump_call_gen4 0 0 126,
      ltssm_dump_call_gen4 0 126 74, ltssm_freeze_call 0 0]"
    using g [THEN conjunct1, THEN mp, THEN conjunct2, THEN mp]
    by (simp add: c4)
  have 3: "mrpc_log (snd (snd (snd
      (switchtec_diag_ltssm_log_gen5 (\<lambda>i. i) dev_ltssm_fail 0 200 (\<lambda>i. zero_ltssm_log))))) =
     [ltssm_freeze_call 0 1, ltssm_status_call 20 0, ltssm_dump_call_gen5 0 0 63,
      ltssm_dump_call_gen5 0 63 63, ltssm_freeze_call 0 0]"
    using f [THEN conjunct2, THEN mp, THEN conjunct1, rule_format, of 1]
    by (simp add: chunks5_130)
  have 4: "mrpc_log (snd (snd (snd
      (switchtec_diag_ltssm_log_gen5 (\<lambda>i. i) dev_ltssm_ok 0 200 (\<lambda>i. zero_ltssm_log))))) =
     [ltssm_freeze_call 0 1, ltssm_status_call 20 0, ltssm_dump_call_gen5 0 0 63,
      ltssm_dump_call_gen5 0 63 63, ltssm_dump_call_gen5 0 126 4, ltssm_freeze_call 0 0]"
    using g [THEN conjunct2, THEN mp, THEN conjunct2, THEN mp]
    by (simp add: chunks5_130)
  from 1 2 3 4 show ?thesis by simp
qed

end
